(* ===== verification/Prelude.thy ===== *)
theory Prelude
  imports "HOL-Library.Word"
begin

text \<open>
  Shared vocabulary of the development: machine integers and Go byte strings,
  the error values of the codec layer, readers (a \<^verbatim>\<open>*bytes.Reader\<close> is the
  list of bytes it still holds) and writers (what an encoder appends to a
  \<^verbatim>\<open>bytes.Buffer\<close>, or its error), the little-endian conversions of
  \<^verbatim>\<open>encoding/binary\<close>, and the generic facts every component uses.
\<close>

unbundle bit_operations_syntax

section \<open>Types\<close>

type_synonym byte = "8 word"
type_synonym u8 = "8 word"
type_synonym u16 = "16 word"
type_synonym u32 = "32 word"
type_synonym u64 = "64 word"
type_synonym bytes = "byte list"
type_synonym gostring = "byte list"

text \<open>The errors of the codec layer. The source wraps them with positional
  context (\<^verbatim>\<open>fmt.Errorf("...: %w")\<close>); the value kept here is the cause.\<close>

datatype error =
    EOF
  | ErrUnexpectedEOF
  | ErrStringTooLong
  | ErrTooManyNames
  | ErrDataTooLarge
  | ErrBodyTooShort
  | ErrStatTooLarge
  | ErrStatTrailing
  | ErrLockType
  | ErrLockFlags
  | ErrLockStatus
  | ErrFrameTooSmall
  | ErrFrameTooLarge
  | ErrUnknownType
  | ErrTrailingBytes
  | ErrDirentTruncated
  | ErrInvalidSize

type_synonym 'a result = "error + 'a"
type_synonym 'a reader = "bytes \<Rightarrow> ('a \<times> bytes) result"
type_synonym writer = "bytes result"

named_theorems codec_iff \<open>decoder characterisations: \<open>dec bs = Inr (x, r)\<close> as an equation on \<open>bs\<close>\<close>
named_theorems codec_run \<open>what a decoder returns on an encoding followed by anything\<close>
named_theorems codec_len \<open>sizes of encodings\<close>
named_theorems codec_defs \<open>definitions of encoders and decoders\<close>

section \<open>Results, readers and writers\<close>

definition rbind :: "'a result \<Rightarrow> ('a \<Rightarrow> 'b result) \<Rightarrow> 'b result" where
  "rbind r f = (case r of Inl e \<Rightarrow> Inl e | Inr x \<Rightarrow> f x)"

lemma rbind_simps [simp]:
  "rbind (Inl e) f = Inl e"
  "rbind (Inr x) f = f x"
  by (simp_all add: rbind_def)

lemma rbind_Inr_iff: "rbind r f = Inr y \<longleftrightarrow> (\<exists>x. r = Inr x \<and> f x = Inr y)"
  by (cases r) auto

text \<open>Sequencing of two reads: the statement
  \<^verbatim>\<open>if x, err = Read...(r); err != nil { return err }\<close> followed by the rest.\<close>

definition rd_bind :: "'a reader \<Rightarrow> ('a \<Rightarrow> 'b reader) \<Rightarrow> 'b reader" where
  "rd_bind p f = (\<lambda>r. case p r of Inl e \<Rightarrow> Inl e | Inr (a, r') \<Rightarrow> f a r')"

definition rd_return :: "'a \<Rightarrow> 'a reader" where
  "rd_return a = (\<lambda>r. Inr (a, r))"

definition rd_fail :: "error \<Rightarrow> 'a reader" where
  "rd_fail e = (\<lambda>r. Inl e)"

lemma rd_bind_iff [codec_iff]:
  "rd_bind p f bs = Inr (y, r) \<longleftrightarrow> (\<exists>a bs'. p bs = Inr (a, bs') \<and> f a bs' = Inr (y, r))"
  by (auto simp: rd_bind_def split: sum.splits)

lemma rd_bind_run [codec_run]: "p bs = Inr (a, bs') \<Longrightarrow> rd_bind p f bs = f a bs'"
  by (simp add: rd_bind_def)

lemma rd_return_run [codec_run]: "rd_return a bs = Inr (a, bs)"
  by (simp add: rd_return_def)

lemma rd_return_iff [codec_iff]: "rd_return a bs = Inr (y, r) \<longleftrightarrow> y = a \<and> r = bs"
  by (auto simp: rd_return_def)

lemma rd_fail_iff [codec_iff]: "rd_fail e bs = Inr (y, r) \<longleftrightarrow> False"
  by (simp add: rd_fail_def)

text \<open>An early return with an error in front of the rest of a decoder or encoder.\<close>

lemma guard_iff [codec_iff]:
  "(if c then rd_fail e else f) bs = Inr (y, r) \<longleftrightarrow> \<not> c \<and> f bs = Inr (y, r)"
  "(if c then Inl e else w) = Inr p \<longleftrightarrow> \<not> c \<and> w = Inr p"
  by (simp_all add: rd_fail_def)

lemma case_result_iff [codec_iff]:
  "(case x of Inl e \<Rightarrow> rd_fail e | Inr y \<Rightarrow> f y) bs = Inr (z, r) \<longleftrightarrow>
     (\<exists>y. x = Inr y \<and> f y bs = Inr (z, r))"
  "(case x' of Inl e \<Rightarrow> rd_fail e | Inr (a, b) \<Rightarrow> g a b) bs = Inr (z, r) \<longleftrightarrow>
     (\<exists>a b. x' = Inr (a, b) \<and> g a b bs = Inr (z, r))"
  by (auto simp: rd_fail_def split: sum.splits)

text \<open>A sequence of writes: the first error ends it, otherwise the bytes are
  appended in order.\<close>

fun wseq :: "writer list \<Rightarrow> writer" where
  "wseq [] = Inr []"
| "wseq (w # ws) = rbind w (\<lambda>b. rbind (wseq ws) (\<lambda>bs. Inr (b @ bs)))"

lemma wseq_Inr_iff:
  "wseq (w # ws) = Inr bs \<longleftrightarrow> (\<exists>b c. w = Inr b \<and> wseq ws = Inr c \<and> bs = b @ c)"
  by (auto simp: rbind_Inr_iff)

lemma wseq_append: "wseq (xs @ ys) = rbind (wseq xs) (\<lambda>b. rbind (wseq ys) (\<lambda>c. Inr (b @ c)))"
  by (induction xs) (auto simp: rbind_def split: sum.splits)

text \<open>Reading a fixed number of items in a \<^verbatim>\<open>for\<close> loop.\<close>

fun rd_many :: "nat \<Rightarrow> 'a reader \<Rightarrow> 'a list reader" where
  "rd_many 0 p = rd_return []"
| "rd_many (Suc n) p = rd_bind p (\<lambda>x. rd_bind (rd_many n p) (\<lambda>xs. rd_return (x # xs)))"

text \<open>Reading through an \<^verbatim>\<open>io.LimitedReader\<close> with allowance \<^verbatim>\<open>n\<close>, followed by the
  check that the allowance \<^verbatim>\<open>lr.N\<close> is used up: what is left of it is what the
  reader did not consume plus what the underlying reader did not have.\<close>

definition rd_limit :: "nat \<Rightarrow> 'a reader \<Rightarrow> 'a reader" where
  "rd_limit n p = (\<lambda>bs. case p (take n bs) of
       Inl e \<Rightarrow> Inl e
     | Inr (x, rest) \<Rightarrow>
         if (n - length (take n bs)) + length rest \<noteq> 0 then Inl ErrStatTrailing
         else Inr (x, drop n bs))"

lemma rd_limit_iff [codec_iff]:
  "rd_limit n p bs = Inr (x, r) \<longleftrightarrow> (\<exists>b. length b = n \<and> p b = Inr (x, []) \<and> bs = b @ r)"
proof
  assume "rd_limit n p bs = Inr (x, r)"
  then have "n \<le> length bs \<and> p (take n bs) = Inr (x, []) \<and> r = drop n bs"
    by (auto simp: rd_limit_def split: sum.splits if_splits)
  then show "\<exists>b. length b = n \<and> p b = Inr (x, []) \<and> bs = b @ r"
    by (intro exI [of _ "take n bs"]) auto
qed (auto simp: rd_limit_def)

lemma rd_limit_run [codec_run]:
  "length b = n \<Longrightarrow> p b = Inr (x, []) \<Longrightarrow> rd_limit n p (b @ r) = Inr (x, r)"
  by (simp add: rd_limit_def)

section \<open>Little-endian integers\<close>

primrec le_bytes :: "nat \<Rightarrow> 'a::len word \<Rightarrow> bytes" where
  "le_bytes 0 w = []"
| "le_bytes (Suc n) w = ucast w # le_bytes n (drop_bit 8 w)"

primrec le_word :: "bytes \<Rightarrow> 'a::len word" where
  "le_word [] = 0"
| "le_word (b # bs) = ucast b OR push_bit 8 (le_word bs)"

lemma length_le_bytes [simp, codec_len]: "length (le_bytes n w) = n"
  by (induction n arbitrary: w) auto

lemma bit_le_word:
  "bit (le_word bs :: 'a::len word) i \<longleftrightarrow>
     i < LENGTH('a) \<and> i div 8 < length bs \<and> bit (bs ! (i div 8)) (i mod 8)"
proof (induction bs arbitrary: i)
  case (Cons b bs)
  show ?case
  proof (cases "i < 8")
    case True
    then show ?thesis
      by (auto simp: bit_or_iff bit_unsigned_iff bit_push_bit_iff)
  next
    case False
    then have "i div 8 = Suc ((i - 8) div 8)" "i mod 8 = (i - 8) mod 8"
      by (simp_all add: le_div_geq le_mod_geq)
    moreover have "\<not> bit b i"
      using False by (auto dest: bit_imp_le_length)
    ultimately show ?thesis
      using False by (auto simp: bit_or_iff bit_unsigned_iff bit_push_bit_iff Cons.IH)
  qed
qed simp

lemma nth_le_bytes: "k < n \<Longrightarrow> le_bytes n w ! k = ucast (drop_bit (8 * k) w)"
proof (induction n arbitrary: k w)
  case (Suc n)
  then show ?case by (cases k) (simp_all add: add.commute)
qed simp

lemma le_word_le_bytes [simp]:
  "LENGTH('a) \<le> 8 * n \<Longrightarrow> le_word (le_bytes n w) = (w :: 'a::len word)"
  by (rule bit_word_eqI)
    (auto simp: bit_le_word nth_le_bytes bit_unsigned_iff bit_drop_bit_eq)

lemma le_bytes_le_word [simp]:
  assumes "8 * length bs \<le> LENGTH('a)"
  shows "le_bytes (length bs) (le_word bs :: 'a::len word) = bs"
proof (rule nth_equalityI)
  fix k assume "k < length (le_bytes (length bs) (le_word bs :: 'a word))"
  then have k: "k < length bs" by simp
  show "le_bytes (length bs) (le_word bs :: 'a word) ! k = bs ! k"
  proof (rule bit_word_eqI)
    fix i assume "i < LENGTH(8)"
    then have i: "i < 8" by simp
    have "8 * k + 8 \<le> 8 * length bs" using k by simp
    then have "8 * k + i < LENGTH('a)" using assms i by linarith
    then show "bit (le_bytes (length bs) (le_word bs :: 'a word) ! k) i = bit (bs ! k) i"
      using i k by (simp add: nth_le_bytes bit_unsigned_iff bit_drop_bit_eq bit_le_word)
  qed
qed simp

lemma le_bytes_inject [simp]:
  "LENGTH('a) \<le> 8 * n \<Longrightarrow> le_bytes n v = le_bytes n w \<longleftrightarrow> v = (w :: 'a::len word)"
  by (metis le_word_le_bytes)

lemma le_bytes_append_inject [simp]:
  "LENGTH('a) \<le> 8 * n \<Longrightarrow>
     le_bytes n v @ r = le_bytes n w @ s \<longleftrightarrow> v = (w :: 'a::len word) \<and> r = s"
  by (auto simp: append_eq_append_conv)

section \<open>Lengths as machine words\<close>

lemma unat_of_nat_small [simp]:
  "n < 2 ^ LENGTH('a) \<Longrightarrow> unat (of_nat n :: 'a::len word) = n"
  by (simp add: unat_of_nat take_bit_nat_eq_self)

lemma unat_lt_16 [simp]: "unat (w :: u16) < 65536"
  using unsigned_less [of w] by simp

lemma unat_lt_32 [simp]: "unat (w :: u32) < 4294967296"
  using unsigned_less [of w] by simp

lemma unat_lt_64 [simp]: "unat (w :: u64) < 18446744073709551616"
  using unsigned_less [of w] by simp

lemma unat_eq_u16: "n = unat (w :: u16) \<longleftrightarrow> n < 65536 \<and> w = of_nat n"
  by (auto simp: unat_of_nat take_bit_nat_eq_self)

lemma unat_eq_u32: "n = unat (w :: u32) \<longleftrightarrow> n < 4294967296 \<and> w = of_nat n"
  by (auto simp: unat_of_nat take_bit_nat_eq_self)

end
