(* ===== verification/Wire.thy ===== *)
theory Wire
  imports Prelude
begin

text \<open>
  The wire primitives of \<^verbatim>\<open>src/proto\<close>: constants (\<^verbatim>\<open>constants.go\<close>), the data
  types of \<^verbatim>\<open>types.go\<close>, the \<^verbatim>\<open>Write*\<close> helpers of \<^verbatim>\<open>encode.go\<close> and the
  \<^verbatim>\<open>Read*\<close> helpers of \<^verbatim>\<open>decode.go\<close>. The locale \<^verbatim>\<open>codec\<close> is the contract
  between an encoder and its decoder; every primitive is interpreted in it, and
  the message theories rely on nothing else.
\<close>

section \<open>Constants and data types\<close>

definition HeaderSize :: nat where "HeaderSize = 7"
definition MaxWalkElements :: nat where "MaxWalkElements = 16"
definition MaxStringLen :: nat where "MaxStringLen = 65535"
definition QIDSize :: nat where "QIDSize = 13"
definition MaxDataSize :: nat where "MaxDataSize = 2 ^ 24"
definition NoTag :: u16 where "NoTag = 0xFFFF"
definition NoFid :: u32 where "NoFid = 0xFFFFFFFF"

definition QTDIR :: u8 where "QTDIR = 0x80"
definition QTSYMLINK :: u8 where "QTSYMLINK = 0x02"
definition DT_DIR :: u8 where "DT_DIR = 4"
definition DT_REG :: u8 where "DT_REG = 8"
definition DT_LNK :: u8 where "DT_LNK = 10"

lemmas proto_consts = HeaderSize_def MaxWalkElements_def MaxStringLen_def QIDSize_def
  MaxDataSize_def

record QID =
  QID_Type :: u8
  QID_Version :: u32
  QID_Path :: u64

record Attr =
  Attr_Valid :: u64
  Attr_QID :: QID
  Attr_Mode :: u32
  Attr_UID :: u32
  Attr_GID :: u32
  Attr_NLink :: u64
  Attr_RDev :: u64
  Attr_Size :: u64
  Attr_BlkSize :: u64
  Attr_Blocks :: u64
  Attr_ATimeSec :: u64
  Attr_ATimeNSec :: u64
  Attr_MTimeSec :: u64
  Attr_MTimeNSec :: u64
  Attr_CTimeSec :: u64
  Attr_CTimeNSec :: u64
  Attr_BTimeSec :: u64
  Attr_BTimeNSec :: u64
  Attr_Gen :: u64
  Attr_DataVersion :: u64

record SetAttr =
  SetAttr_Valid :: u32
  SetAttr_Mode :: u32
  SetAttr_UID :: u32
  SetAttr_GID :: u32
  SetAttr_Size :: u64
  SetAttr_ATimeSec :: u64
  SetAttr_ATimeNSec :: u64
  SetAttr_MTimeSec :: u64
  SetAttr_MTimeNSec :: u64

record Dirent =
  Dirent_QID :: QID
  Dirent_Offset :: u64
  Dirent_Type :: u8
  Dirent_Name :: gostring

record FSStat =
  FSStat_Type :: u32
  FSStat_BSize :: u32
  FSStat_Blocks :: u64
  FSStat_BFree :: u64
  FSStat_BAvail :: u64
  FSStat_Files :: u64
  FSStat_FFree :: u64
  FSStat_FSID :: u64
  FSStat_NameLen :: u32

definition QIDTypeToDT :: "u8 \<Rightarrow> u8" where
  "QIDTypeToDT t =
     (if t AND QTDIR \<noteq> 0 then DT_DIR
      else if t AND QTSYMLINK \<noteq> 0 then DT_LNK
      else DT_REG)"

section \<open>Writers\<close>

definition WriteUint8 :: "u8 \<Rightarrow> writer" where "WriteUint8 v = Inr [v]"
definition WriteUint16 :: "u16 \<Rightarrow> writer" where "WriteUint16 v = Inr (le_bytes 2 v)"
definition WriteUint32 :: "u32 \<Rightarrow> writer" where "WriteUint32 v = Inr (le_bytes 4 v)"
definition WriteUint64 :: "u64 \<Rightarrow> writer" where "WriteUint64 v = Inr (le_bytes 8 v)"
definition WriteFid :: "u32 \<Rightarrow> writer" where "WriteFid f = WriteUint32 f"

definition WriteString :: "gostring \<Rightarrow> writer" where
  "WriteString s =
     (if length s > MaxStringLen then Inl ErrStringTooLong
      else Inr (le_bytes 2 (of_nat (length s) :: u16) @ s))"

definition WriteQID :: "QID \<Rightarrow> writer" where
  "WriteQID q = wseq [WriteUint8 (QID_Type q), WriteUint32 (QID_Version q), WriteUint64 (QID_Path q)]"

text \<open>\<^verbatim>\<open>w.Write(data)\<close> on a \<^verbatim>\<open>bytes.Buffer\<close>.\<close>

definition WriteRaw :: "bytes \<Rightarrow> writer" where "WriteRaw b = Inr b"

section \<open>Readers\<close>

definition ReadUint8 :: "u8 reader" where
  "ReadUint8 r = (case r of [] \<Rightarrow> Inl EOF | b # r' \<Rightarrow> Inr (b, r'))"

text \<open>The shared shape of the multi-byte reads: an empty reader is \<^verbatim>\<open>io.EOF\<close>, a
  short one \<^verbatim>\<open>io.ErrUnexpectedEOF\<close>.\<close>

definition ReadLE :: "nat \<Rightarrow> 'a::len word reader" where
  "ReadLE n r =
     (if r = [] then Inl EOF
      else if length r < n then Inl ErrUnexpectedEOF
      else Inr (le_word (take n r), drop n r))"

definition ReadUint16 :: "u16 reader" where "ReadUint16 = ReadLE 2"
definition ReadUint32 :: "u32 reader" where "ReadUint32 = ReadLE 4"
definition ReadUint64 :: "u64 reader" where "ReadUint64 = ReadLE 8"
definition ReadFid :: "u32 reader" where "ReadFid = ReadUint32"

text \<open>\<^verbatim>\<open>io.ReadFull(r, buf[:n])\<close>.\<close>

definition ReadFull :: "nat \<Rightarrow> bytes reader" where
  "ReadFull n r =
     (if n = 0 then Inr ([], r)
      else if r = [] then Inl EOF
      else if length r < n then Inl ErrUnexpectedEOF
      else Inr (take n r, drop n r))"

definition ReadString :: "gostring reader" where
  "ReadString = rd_bind ReadUint16 (\<lambda>length.
     if length = 0 then rd_return [] else ReadFull (unat length))"

definition ReadData :: "u32 \<Rightarrow> bytes reader" where
  "ReadData count r =
     (if count = 0 then Inr ([], r)
      else if unat count > length r then Inl ErrUnexpectedEOF
      else ReadFull (unat count) r)"

definition ReadQID :: "QID reader" where
  "ReadQID = rd_bind ReadUint8 (\<lambda>t. rd_bind ReadUint32 (\<lambda>version. rd_bind ReadUint64 (\<lambda>path.
     rd_return \<lparr>QID_Type = t, QID_Version = version, QID_Path = path\<rparr>)))"

section \<open>The codec contract\<close>

text \<open>A decoder accepts exactly the encodings of the admissible values, followed
  by anything, and hands the rest back.\<close>

locale codec =
  fixes enc :: "'a \<Rightarrow> writer"
    and dec :: "'a reader"
    and ok :: "'a \<Rightarrow> bool"
  assumes dec_iff: "dec bs = Inr (x, r) \<longleftrightarrow> ok x \<and> (\<exists>p. enc x = Inr p \<and> bs = p @ r)"
begin

lemma roundtrip: "ok x \<Longrightarrow> enc x = Inr p \<Longrightarrow> dec (p @ r) = Inr (x, r)"
  by (auto simp: dec_iff)

lemma roundtrip_exact: "ok x \<Longrightarrow> enc x = Inr p \<Longrightarrow> dec p = Inr (x, [])"
  using roundtrip [of x p "[]"] by simp

lemma canonical: "dec bs = Inr (x, r) \<Longrightarrow> \<exists>p. enc x = Inr p \<and> bs = p @ r"
  by (simp add: dec_iff)

lemma dec_ok: "dec bs = Inr (x, r) \<Longrightarrow> ok x"
  by (simp add: dec_iff)

lemma consumes: "dec bs = Inr (x, r) \<Longrightarrow> length r \<le> length bs"
  by (auto simp: dec_iff)

lemma prefix_free:
  assumes "ok x" "ok y" "enc x = Inr p" "enc y = Inr q" "p @ r = q @ s"
  shows "x = y \<and> r = s"
proof -
  have "dec (p @ r) = Inr (x, r)" "dec (p @ r) = Inr (y, s)"
    using assms roundtrip [of x p r] roundtrip [of y q s] by simp_all
  then show ?thesis by simp
qed

lemma enc_inj: "ok x \<Longrightarrow> ok y \<Longrightarrow> enc x = Inr p \<Longrightarrow> enc y = Inr p \<Longrightarrow> x = y"
  using prefix_free [of x y p p "[]" "[]"] by simp

text \<open>A strict prefix of an encoding is rejected: no truncated value decodes.\<close>

lemma truncated_rejected:
  assumes "ok x" "enc x = Inr (p @ q)" "q \<noteq> []"
  shows "\<exists>e. dec p = Inl e"
proof (cases "dec p")
  case (Inr yr)
  obtain y r where yr: "yr = (y, r)" by (cases yr)
  then obtain p' where y: "ok y" "enc y = Inr p'" "p = p' @ r"
    using Inr dec_iff by auto
  then have "x = y \<and> [] = r @ q"
    using prefix_free [of x y "p @ q" p' "[]" "r @ q"] assms by simp
  then show ?thesis using assms(3) by simp
qed simp

lemma rd_many_iff:
  "rd_many n dec bs = Inr (xs, r) \<longleftrightarrow>
     length xs = n \<and> list_all ok xs \<and> (\<exists>p. wseq (map enc xs) = Inr p \<and> bs = p @ r)"
proof (induction n arbitrary: bs xs)
  case 0
  then show ?case by (auto simp: rd_return_iff)
next
  case (Suc n)
  then show ?case
    by (cases xs) (auto simp: rd_bind_iff rd_return_iff dec_iff rbind_Inr_iff Suc_length_conv)
qed

end

section \<open>The primitives satisfy the contract\<close>

lemma Write_iff [codec_iff]:
  "WriteUint8 v = Inr p \<longleftrightarrow> p = [v]"
  "WriteUint16 v16 = Inr p \<longleftrightarrow> p = le_bytes 2 v16"
  "WriteUint32 v32 = Inr p \<longleftrightarrow> p = le_bytes 4 v32"
  "WriteUint64 v64 = Inr p \<longleftrightarrow> p = le_bytes 8 v64"
  "WriteFid v32 = Inr p \<longleftrightarrow> p = le_bytes 4 v32"
  "WriteString s = Inr p \<longleftrightarrow> length s \<le> 65535 \<and> p = le_bytes 2 (of_nat (length s) :: u16) @ s"
  "WriteQID q = Inr p \<longleftrightarrow>
     p = QID_Type q # le_bytes 4 (QID_Version q) @ le_bytes 8 (QID_Path q)"
  "WriteRaw b = Inr p \<longleftrightarrow> p = b"
  by (auto simp: WriteUint8_def WriteUint16_def WriteUint32_def WriteUint64_def WriteFid_def
      WriteString_def WriteQID_def WriteRaw_def MaxStringLen_def)

lemma ReadLE_iff:
  assumes "LENGTH('a::len) = 8 * n" "0 < n"
  shows "ReadLE n bs = Inr (x :: 'a word, r) \<longleftrightarrow> bs = le_bytes n x @ r"
proof
  assume "ReadLE n bs = Inr (x, r)"
  then have "n \<le> length bs" "x = le_word (take n bs)" "r = drop n bs"
    by (auto simp: ReadLE_def split: if_splits)
  moreover have "le_bytes n (le_word (take n bs) :: 'a word) = take n bs"
    using le_bytes_le_word [of "take n bs", where 'a = 'a] assms \<open>n \<le> length bs\<close>
    by (simp add: min_absorb2)
  ultimately show "bs = le_bytes n x @ r" by simp
next
  assume "bs = le_bytes n x @ r"
  then show "ReadLE n bs = Inr (x, r)"
    using assms by (auto simp: ReadLE_def simp flip: length_0_conv)
qed

lemma Read_int_iff [codec_iff]:
  "ReadUint8 bs = Inr (v, r) \<longleftrightarrow> bs = v # r"
  "ReadUint16 bs = Inr (v16, r) \<longleftrightarrow> bs = le_bytes 2 v16 @ r"
  "ReadUint32 bs = Inr (v32, r) \<longleftrightarrow> bs = le_bytes 4 v32 @ r"
  "ReadUint64 bs = Inr (v64, r) \<longleftrightarrow> bs = le_bytes 8 v64 @ r"
  "ReadFid bs = Inr (v32, r) \<longleftrightarrow> bs = le_bytes 4 v32 @ r"
  by (auto simp: ReadUint8_def ReadUint16_def ReadUint32_def ReadUint64_def ReadFid_def
      ReadLE_iff split: list.splits)

lemma ReadFull_iff [codec_iff]:
  "ReadFull n bs = Inr (x, r) \<longleftrightarrow> length x = n \<and> bs = x @ r"
  by (auto simp: ReadFull_def)

lemma ReadString_iff [codec_iff]:
  "ReadString bs = Inr (s, r) \<longleftrightarrow>
     length s \<le> 65535 \<and> bs = le_bytes 2 (of_nat (length s) :: u16) @ s @ r"
proof -
  have len: "length s < 65536" if "length s = unat (w :: u16)" for w
    using unat_lt_16 [of w] that by simp
  have zero: "(of_nat (length s) :: u16) = 0 \<longleftrightarrow> s = []" if "length s \<le> 65535"
    using that by (auto simp flip: unat_0_iff)
  show ?thesis
    using zero
    by (auto simp: ReadString_def codec_iff dest: len split: if_splits)
qed

lemma ReadData_iff [codec_iff]:
  "ReadData count bs = Inr (x, r) \<longleftrightarrow> length x = unat count \<and> bs = x @ r"
  by (auto simp: ReadData_def ReadFull_iff)

lemma ReadQID_iff [codec_iff]:
  "ReadQID bs = Inr (q, r) \<longleftrightarrow>
     bs = QID_Type q # le_bytes 4 (QID_Version q) @ le_bytes 8 (QID_Path q) @ r"
  by (cases q) (auto simp: ReadQID_def codec_iff)

lemma QID_fields_eq [codec_iff]:
  "QID_Type p = QID_Type q \<and> QID_Version p = QID_Version q \<and> QID_Path p = QID_Path q \<and> P \<longleftrightarrow>
     (p :: QID) = q \<and> P"
  by (cases p, cases q) auto

interpretation Uint8: codec WriteUint8 ReadUint8 "\<lambda>_. True"
  by unfold_locales (auto simp: codec_iff)

interpretation Uint16: codec WriteUint16 ReadUint16 "\<lambda>_. True"
  by unfold_locales (auto simp: codec_iff)

interpretation Uint32: codec WriteUint32 ReadUint32 "\<lambda>_. True"
  by unfold_locales (auto simp: codec_iff)

interpretation Uint64: codec WriteUint64 ReadUint64 "\<lambda>_. True"
  by unfold_locales (auto simp: codec_iff)

interpretation Str: codec WriteString ReadString "\<lambda>_. True"
  by unfold_locales (auto simp: codec_iff)

interpretation Qid: codec WriteQID ReadQID "\<lambda>_. True"
  by unfold_locales (auto simp: codec_iff)

lemma Read_run [codec_run]:
  "ReadUint8 (v # r) = Inr (v, r)"
  "ReadUint16 (le_bytes 2 v16 @ r) = Inr (v16, r)"
  "ReadUint32 (le_bytes 4 v32 @ r) = Inr (v32, r)"
  "ReadUint32 (le_bytes 4 v32) = Inr (v32, [])"
  "ReadUint64 (le_bytes 8 v64 @ r) = Inr (v64, r)"
  "ReadUint64 (le_bytes 8 v64) = Inr (v64, [])"
  "ReadFid (le_bytes 4 v32 @ r) = Inr (v32, r)"
  "ReadFid (le_bytes 4 v32) = Inr (v32, [])"
  "length s \<le> 65535 \<Longrightarrow> ReadString (le_bytes 2 (of_nat (length s) :: u16) @ s @ r) = Inr (s, r)"
  "ReadQID (QID_Type q # le_bytes 4 (QID_Version q) @ le_bytes 8 (QID_Path q) @ r) = Inr (q, r)"
  by (simp_all add: codec_iff)

section \<open>Truncation of the primitives\<close>

text \<open>The error a short read reports: \<^verbatim>\<open>io.EOF\<close> exactly when nothing was left.\<close>

lemma ReadLE_errors:
  "ReadLE n bs = (Inl e :: ('a::len word \<times> bytes) result) \<longleftrightarrow>
     (bs = [] \<and> e = EOF) \<or> (bs \<noteq> [] \<and> length bs < n \<and> e = ErrUnexpectedEOF)"
  by (auto simp: ReadLE_def)

lemma ReadData_errors:
  "ReadData count bs = Inl e \<longleftrightarrow> length bs < unat count \<and> e = ErrUnexpectedEOF"
  by (auto simp: ReadData_def ReadFull_def split: if_splits simp flip: unat_gt_0)

end
