(* ===== verification/BaseMessages.thy ===== *)
theory BaseMessages
  imports Wire
begin

text \<open>
  The messages both dialects share (\<^verbatim>\<open>src/proto/messages.go\<close>): one constructor of
  \<^verbatim>\<open>base_msg\<close> per struct, one definition per \<^verbatim>\<open>EncodeTo\<close> and \<^verbatim>\<open>DecodeFrom\<close>
  method, the method dispatch, and the proof that every decoder accepts exactly
  the encodings of its message.
\<close>

section \<open>Messages and type codes\<close>

datatype base_msg =
    Tversion u32 gostring
  | Rversion u32 gostring
  | Tauth u32 gostring gostring u32
  | Rauth QID
  | Tattach u32 u32 gostring gostring u32
  | Rattach QID
  | Tflush u16
  | Rflush
  | Twalk u32 u32 "gostring list"
  | Rwalk "QID list"
  | Tread u32 u64 u32
  | Rread bytes
  | Twrite u32 u64 bytes
  | Rwrite u32
  | Tclunk u32
  | Rclunk
  | Tremove u32
  | Rremove

primrec base_Type :: "base_msg \<Rightarrow> u8" where
  "base_Type (Tversion _ _) = 100"
| "base_Type (Rversion _ _) = 101"
| "base_Type (Tauth _ _ _ _) = 102"
| "base_Type (Rauth _) = 103"
| "base_Type (Tattach _ _ _ _ _) = 104"
| "base_Type (Rattach _) = 105"
| "base_Type (Tflush _) = 108"
| "base_Type Rflush = 109"
| "base_Type (Twalk _ _ _) = 110"
| "base_Type (Rwalk _) = 111"
| "base_Type (Tread _ _ _) = 116"
| "base_Type (Rread _) = 117"
| "base_Type (Twrite _ _ _) = 118"
| "base_Type (Rwrite _) = 119"
| "base_Type (Tclunk _) = 120"
| "base_Type Rclunk = 121"
| "base_Type (Tremove _) = 122"
| "base_Type Rremove = 123"

section \<open>Encoders and decoders\<close>

definition Tversion_EncodeTo :: "u32 \<Rightarrow> gostring \<Rightarrow> writer" where [codec_defs]:
  "Tversion_EncodeTo Msize Version = wseq [WriteUint32 Msize, WriteString Version]"

definition Tversion_DecodeFrom :: "base_msg reader" where [codec_defs]:
  "Tversion_DecodeFrom = rd_bind ReadUint32 (\<lambda>Msize. rd_bind ReadString (\<lambda>Version.
     rd_return (Tversion Msize Version)))"

definition Rversion_EncodeTo :: "u32 \<Rightarrow> gostring \<Rightarrow> writer" where [codec_defs]:
  "Rversion_EncodeTo Msize Version = wseq [WriteUint32 Msize, WriteString Version]"

definition Rversion_DecodeFrom :: "base_msg reader" where [codec_defs]:
  "Rversion_DecodeFrom = rd_bind ReadUint32 (\<lambda>Msize. rd_bind ReadString (\<lambda>Version.
     rd_return (Rversion Msize Version)))"

definition Tauth_EncodeTo :: "u32 \<Rightarrow> gostring \<Rightarrow> gostring \<Rightarrow> u32 \<Rightarrow> writer" where [codec_defs]:
  "Tauth_EncodeTo Afid Uname Aname NUname =
     wseq [WriteFid Afid, WriteString Uname, WriteString Aname, WriteUint32 NUname]"

definition Tauth_DecodeFrom :: "base_msg reader" where [codec_defs]:
  "Tauth_DecodeFrom = rd_bind ReadFid (\<lambda>afid. rd_bind ReadString (\<lambda>Uname.
     rd_bind ReadString (\<lambda>Aname. rd_bind ReadUint32 (\<lambda>NUname.
     rd_return (Tauth afid Uname Aname NUname)))))"

definition Rauth_EncodeTo :: "QID \<Rightarrow> writer" where [codec_defs]:
  "Rauth_EncodeTo AQid = WriteQID AQid"

definition Rauth_DecodeFrom :: "base_msg reader" where [codec_defs]:
  "Rauth_DecodeFrom = rd_bind ReadQID (\<lambda>AQid. rd_return (Rauth AQid))"

definition Tattach_EncodeTo :: "u32 \<Rightarrow> u32 \<Rightarrow> gostring \<Rightarrow> gostring \<Rightarrow> u32 \<Rightarrow> writer" where [codec_defs]:
  "Tattach_EncodeTo Fid Afid Uname Aname NUname =
     wseq [WriteFid Fid, WriteFid Afid, WriteString Uname, WriteString Aname, WriteUint32 NUname]"

definition Tattach_DecodeFrom :: "base_msg reader" where [codec_defs]:
  "Tattach_DecodeFrom = rd_bind ReadFid (\<lambda>fid. rd_bind ReadFid (\<lambda>afid.
     rd_bind ReadString (\<lambda>Uname. rd_bind ReadString (\<lambda>Aname. rd_bind ReadUint32 (\<lambda>NUname.
     rd_return (Tattach fid afid Uname Aname NUname))))))"

definition Rattach_EncodeTo :: "QID \<Rightarrow> writer" where [codec_defs]:
  "Rattach_EncodeTo qid = WriteQID qid"

definition Rattach_DecodeFrom :: "base_msg reader" where [codec_defs]:
  "Rattach_DecodeFrom = rd_bind ReadQID (\<lambda>qid. rd_return (Rattach qid))"

definition Tflush_EncodeTo :: "u16 \<Rightarrow> writer" where [codec_defs]:
  "Tflush_EncodeTo OldTag = WriteUint16 OldTag"

definition Tflush_DecodeFrom :: "base_msg reader" where [codec_defs]:
  "Tflush_DecodeFrom = rd_bind ReadUint16 (\<lambda>tag. rd_return (Tflush tag))"

definition Rflush_EncodeTo :: writer where [codec_defs]: "Rflush_EncodeTo = Inr []"
definition Rflush_DecodeFrom :: "base_msg reader" where [codec_defs]:
  "Rflush_DecodeFrom = rd_return Rflush"

definition Twalk_EncodeTo :: "u32 \<Rightarrow> u32 \<Rightarrow> gostring list \<Rightarrow> writer" where [codec_defs]:
  "Twalk_EncodeTo Fid NewFid Names =
     (if length Names > MaxWalkElements then Inl ErrTooManyNames
      else wseq ([WriteFid Fid, WriteFid NewFid, WriteUint16 (of_nat (length Names))]
                 @ map WriteString Names))"

definition Twalk_DecodeFrom :: "base_msg reader" where [codec_defs]:
  "Twalk_DecodeFrom = rd_bind ReadFid (\<lambda>fid. rd_bind ReadFid (\<lambda>newfid.
     rd_bind ReadUint16 (\<lambda>nwname.
     if unat nwname > MaxWalkElements then rd_fail ErrTooManyNames
     else rd_bind (rd_many (unat nwname) ReadString) (\<lambda>Names.
     rd_return (Twalk fid newfid Names)))))"

definition Rwalk_EncodeTo :: "QID list \<Rightarrow> writer" where [codec_defs]:
  "Rwalk_EncodeTo QIDs =
     (if length QIDs > MaxWalkElements then Inl ErrTooManyNames
      else wseq (WriteUint16 (of_nat (length QIDs)) # map WriteQID QIDs))"

definition Rwalk_DecodeFrom :: "base_msg reader" where [codec_defs]:
  "Rwalk_DecodeFrom = rd_bind ReadUint16 (\<lambda>nwqid.
     if unat nwqid > MaxWalkElements then rd_fail ErrTooManyNames
     else rd_bind (rd_many (unat nwqid) ReadQID) (\<lambda>QIDs. rd_return (Rwalk QIDs)))"

definition Tread_EncodeTo :: "u32 \<Rightarrow> u64 \<Rightarrow> u32 \<Rightarrow> writer" where [codec_defs]:
  "Tread_EncodeTo Fid Offset Count = wseq [WriteFid Fid, WriteUint64 Offset, WriteUint32 Count]"

definition Tread_DecodeFrom :: "base_msg reader" where [codec_defs]:
  "Tread_DecodeFrom = rd_bind ReadFid (\<lambda>fid. rd_bind ReadUint64 (\<lambda>Offset.
     rd_bind ReadUint32 (\<lambda>Count. rd_return (Tread fid Offset Count))))"

definition Rread_EncodeFixed :: "bytes \<Rightarrow> writer" where [codec_defs]:
  "Rread_EncodeFixed Data =
     (if length Data > MaxDataSize then Inl ErrDataTooLarge
      else WriteUint32 (of_nat (length Data)))"

definition Rread_EncodeTo :: "bytes \<Rightarrow> writer" where [codec_defs]:
  "Rread_EncodeTo Data = wseq [Rread_EncodeFixed Data, WriteRaw Data]"

definition Rread_DecodeFrom :: "base_msg reader" where [codec_defs]:
  "Rread_DecodeFrom = rd_bind ReadUint32 (\<lambda>count.
     if unat count > MaxDataSize then rd_fail ErrDataTooLarge
     else rd_bind (ReadData count) (\<lambda>Data. rd_return (Rread Data)))"

definition Twrite_EncodeFixed :: "u32 \<Rightarrow> u64 \<Rightarrow> bytes \<Rightarrow> writer" where [codec_defs]:
  "Twrite_EncodeFixed Fid Offset Data =
     (if length Data > MaxDataSize then Inl ErrDataTooLarge
      else wseq [WriteFid Fid, WriteUint64 Offset, WriteUint32 (of_nat (length Data))])"

definition Twrite_EncodeTo :: "u32 \<Rightarrow> u64 \<Rightarrow> bytes \<Rightarrow> writer" where [codec_defs]:
  "Twrite_EncodeTo Fid Offset Data = wseq [Twrite_EncodeFixed Fid Offset Data, WriteRaw Data]"

definition Twrite_DecodeFrom :: "base_msg reader" where [codec_defs]:
  "Twrite_DecodeFrom = rd_bind ReadFid (\<lambda>fid. rd_bind ReadUint64 (\<lambda>Offset.
     rd_bind ReadUint32 (\<lambda>count.
     if unat count > MaxDataSize then rd_fail ErrDataTooLarge
     else rd_bind (ReadData count) (\<lambda>Data. rd_return (Twrite fid Offset Data)))))"

text \<open>The server's zero-copy decoder. It indexes the whole body buffer and
  returns the message only: bytes after the payload are not looked at.\<close>

definition Twrite_DecodeFromBuf :: "bytes \<Rightarrow> base_msg result" where
  "Twrite_DecodeFromBuf b =
     (if length b < 16 then Inl ErrBodyTooShort
      else let fid = le_word (take 4 b);
               offset = le_word (take 8 (drop 4 b));
               count = (le_word (take 4 (drop 12 b)) :: u32)
           in if unat count > MaxDataSize then Inl ErrDataTooLarge
              else if (of_nat (length b - 16) :: u32) < count then Inl ErrUnexpectedEOF
              else Inr (Twrite fid offset (take (unat count) (drop 16 b))))"

definition Rwrite_EncodeTo :: "u32 \<Rightarrow> writer" where [codec_defs]:
  "Rwrite_EncodeTo Count = WriteUint32 Count"

definition Rwrite_DecodeFrom :: "base_msg reader" where [codec_defs]:
  "Rwrite_DecodeFrom = rd_bind ReadUint32 (\<lambda>Count. rd_return (Rwrite Count))"

definition Tclunk_EncodeTo :: "u32 \<Rightarrow> writer" where [codec_defs]:
  "Tclunk_EncodeTo Fid = WriteFid Fid"

definition Tclunk_DecodeFrom :: "base_msg reader" where [codec_defs]:
  "Tclunk_DecodeFrom = rd_bind ReadFid (\<lambda>fid. rd_return (Tclunk fid))"

definition Rclunk_EncodeTo :: writer where [codec_defs]: "Rclunk_EncodeTo = Inr []"
definition Rclunk_DecodeFrom :: "base_msg reader" where [codec_defs]:
  "Rclunk_DecodeFrom = rd_return Rclunk"

definition Tremove_EncodeTo :: "u32 \<Rightarrow> writer" where [codec_defs]:
  "Tremove_EncodeTo Fid = WriteFid Fid"

definition Tremove_DecodeFrom :: "base_msg reader" where [codec_defs]:
  "Tremove_DecodeFrom = rd_bind ReadFid (\<lambda>fid. rd_return (Tremove fid))"

definition Rremove_EncodeTo :: writer where [codec_defs]: "Rremove_EncodeTo = Inr []"
definition Rremove_DecodeFrom :: "base_msg reader" where [codec_defs]:
  "Rremove_DecodeFrom = rd_return Rremove"

section \<open>Method dispatch\<close>

primrec base_EncodeTo :: "base_msg \<Rightarrow> writer" where
  "base_EncodeTo (Tversion a b) = Tversion_EncodeTo a b"
| "base_EncodeTo (Rversion a b) = Rversion_EncodeTo a b"
| "base_EncodeTo (Tauth a b c d) = Tauth_EncodeTo a b c d"
| "base_EncodeTo (Rauth a) = Rauth_EncodeTo a"
| "base_EncodeTo (Tattach a b c d e) = Tattach_EncodeTo a b c d e"
| "base_EncodeTo (Rattach a) = Rattach_EncodeTo a"
| "base_EncodeTo (Tflush a) = Tflush_EncodeTo a"
| "base_EncodeTo Rflush = Rflush_EncodeTo"
| "base_EncodeTo (Twalk a b c) = Twalk_EncodeTo a b c"
| "base_EncodeTo (Rwalk a) = Rwalk_EncodeTo a"
| "base_EncodeTo (Tread a b c) = Tread_EncodeTo a b c"
| "base_EncodeTo (Rread a) = Rread_EncodeTo a"
| "base_EncodeTo (Twrite a b c) = Twrite_EncodeTo a b c"
| "base_EncodeTo (Rwrite a) = Rwrite_EncodeTo a"
| "base_EncodeTo (Tclunk a) = Tclunk_EncodeTo a"
| "base_EncodeTo Rclunk = Rclunk_EncodeTo"
| "base_EncodeTo (Tremove a) = Tremove_EncodeTo a"
| "base_EncodeTo Rremove = Rremove_EncodeTo"

primrec base_DecodeFrom :: "base_msg \<Rightarrow> base_msg reader" where
  "base_DecodeFrom (Tversion _ _) = Tversion_DecodeFrom"
| "base_DecodeFrom (Rversion _ _) = Rversion_DecodeFrom"
| "base_DecodeFrom (Tauth _ _ _ _) = Tauth_DecodeFrom"
| "base_DecodeFrom (Rauth _) = Rauth_DecodeFrom"
| "base_DecodeFrom (Tattach _ _ _ _ _) = Tattach_DecodeFrom"
| "base_DecodeFrom (Rattach _) = Rattach_DecodeFrom"
| "base_DecodeFrom (Tflush _) = Tflush_DecodeFrom"
| "base_DecodeFrom Rflush = Rflush_DecodeFrom"
| "base_DecodeFrom (Twalk _ _ _) = Twalk_DecodeFrom"
| "base_DecodeFrom (Rwalk _) = Rwalk_DecodeFrom"
| "base_DecodeFrom (Tread _ _ _) = Tread_DecodeFrom"
| "base_DecodeFrom (Rread _) = Rread_DecodeFrom"
| "base_DecodeFrom (Twrite _ _ _) = Twrite_DecodeFrom"
| "base_DecodeFrom (Rwrite _) = Rwrite_DecodeFrom"
| "base_DecodeFrom (Tclunk _) = Tclunk_DecodeFrom"
| "base_DecodeFrom Rclunk = Rclunk_DecodeFrom"
| "base_DecodeFrom (Tremove _) = Tremove_DecodeFrom"
| "base_DecodeFrom Rremove = Rremove_DecodeFrom"

text \<open>\<^verbatim>\<open>NewBaseMessage\<close> (\<^verbatim>\<open>src/proto/frame.go\<close>): the zero value of the struct
  for a type code.\<close>

abbreviation "zero_QID \<equiv> \<lparr>QID_Type = 0, QID_Version = 0, QID_Path = 0\<rparr>"

definition NewBaseMessage :: "u8 \<Rightarrow> base_msg option" where
  "NewBaseMessage t =
     (if t = 100 then Some (Tversion 0 [])
      else if t = 101 then Some (Rversion 0 [])
      else if t = 102 then Some (Tauth 0 [] [] 0)
      else if t = 103 then Some (Rauth zero_QID)
      else if t = 104 then Some (Tattach 0 0 [] [] 0)
      else if t = 105 then Some (Rattach zero_QID)
      else if t = 108 then Some (Tflush 0)
      else if t = 109 then Some Rflush
      else if t = 110 then Some (Twalk 0 0 [])
      else if t = 111 then Some (Rwalk [])
      else if t = 116 then Some (Tread 0 0 0)
      else if t = 117 then Some (Rread [])
      else if t = 118 then Some (Twrite 0 0 [])
      else if t = 119 then Some (Rwrite 0)
      else if t = 120 then Some (Tclunk 0)
      else if t = 121 then Some Rclunk
      else if t = 122 then Some (Tremove 0)
      else if t = 123 then Some Rremove
      else None)"

section \<open>Every decoder accepts exactly the encodings of its message\<close>

lemma base_Type_iff:
  "base_Type m = 100 \<longleftrightarrow> (\<exists>a b. m = Tversion a b)"
  "base_Type m = 101 \<longleftrightarrow> (\<exists>a b. m = Rversion a b)"
  "base_Type m = 102 \<longleftrightarrow> (\<exists>a b c d. m = Tauth a b c d)"
  "base_Type m = 103 \<longleftrightarrow> (\<exists>a. m = Rauth a)"
  "base_Type m = 104 \<longleftrightarrow> (\<exists>a b c d e. m = Tattach a b c d e)"
  "base_Type m = 105 \<longleftrightarrow> (\<exists>a. m = Rattach a)"
  "base_Type m = 108 \<longleftrightarrow> (\<exists>a. m = Tflush a)"
  "base_Type m = 109 \<longleftrightarrow> m = Rflush"
  "base_Type m = 110 \<longleftrightarrow> (\<exists>a b c. m = Twalk a b c)"
  "base_Type m = 111 \<longleftrightarrow> (\<exists>a. m = Rwalk a)"
  "base_Type m = 116 \<longleftrightarrow> (\<exists>a b c. m = Tread a b c)"
  "base_Type m = 117 \<longleftrightarrow> (\<exists>a. m = Rread a)"
  "base_Type m = 118 \<longleftrightarrow> (\<exists>a b c. m = Twrite a b c)"
  "base_Type m = 119 \<longleftrightarrow> (\<exists>a. m = Rwrite a)"
  "base_Type m = 120 \<longleftrightarrow> (\<exists>a. m = Tclunk a)"
  "base_Type m = 121 \<longleftrightarrow> m = Rclunk"
  "base_Type m = 122 \<longleftrightarrow> (\<exists>a. m = Tremove a)"
  "base_Type m = 123 \<longleftrightarrow> m = Rremove"
  by (cases m; simp)+

lemma Twalk_Decode_iff:
  "Twalk_DecodeFrom bs = Inr (m, r) \<longleftrightarrow>
     (\<exists>a b c p. m = Twalk a b c \<and> Twalk_EncodeTo a b c = Inr p \<and> bs = p @ r)"
  by (auto simp: codec_defs codec_iff Str.rd_many_iff wseq_append wseq_Inr_iff rbind_Inr_iff
      proto_consts unat_eq_u16 list_all_iff cong: conj_cong)

lemma Rwalk_Decode_iff:
  "Rwalk_DecodeFrom bs = Inr (m, r) \<longleftrightarrow>
     (\<exists>a p. m = Rwalk a \<and> Rwalk_EncodeTo a = Inr p \<and> bs = p @ r)"
  by (auto simp: codec_defs codec_iff Qid.rd_many_iff wseq_append wseq_Inr_iff rbind_Inr_iff
      proto_consts unat_eq_u16 list_all_iff cong: conj_cong)

lemma Rread_Decode_iff:
  "Rread_DecodeFrom bs = Inr (m, r) \<longleftrightarrow>
     (\<exists>a p. m = Rread a \<and> Rread_EncodeTo a = Inr p \<and> bs = p @ r)"
  by (auto simp: codec_defs codec_iff rbind_Inr_iff proto_consts unat_eq_u32 cong: conj_cong)

lemma Twrite_Decode_iff:
  "Twrite_DecodeFrom bs = Inr (m, r) \<longleftrightarrow>
     (\<exists>a b c p. m = Twrite a b c \<and> Twrite_EncodeTo a b c = Inr p \<and> bs = p @ r)"
  by (auto simp: codec_defs codec_iff rbind_Inr_iff proto_consts unat_eq_u32 cong: conj_cong)

lemma base_dec_iff:
  "base_DecodeFrom m0 bs = Inr (m, r) \<longleftrightarrow>
     base_Type m = base_Type m0 \<and> (\<exists>p. base_EncodeTo m = Inr p \<and> bs = p @ r)"
  by (cases m0)
    (auto simp: base_Type_iff Twalk_Decode_iff Rwalk_Decode_iff Rread_Decode_iff
      Twrite_Decode_iff, auto simp: codec_defs codec_iff rbind_Inr_iff base_Type_iff)

interpretation base: codec base_EncodeTo "base_DecodeFrom m0"
  "\<lambda>m. base_Type m = base_Type m0" for m0
  by unfold_locales (rule base_dec_iff)

lemma Twrite_DecodeFromBuf_iff:
  assumes "length b < 2 ^ 32"
  shows "Twrite_DecodeFromBuf b = Inr m \<longleftrightarrow> (\<exists>r. Twrite_DecodeFrom b = Inr (m, r))"
proof (cases "length b < 16")
  case True
  then show ?thesis
    by (auto simp: Twrite_DecodeFromBuf_def Twrite_DecodeFrom_def codec_iff)
next
  case False
  let ?count = "le_word (take 4 (drop 12 b)) :: u32"
  have lt: "(of_nat (length b - 16) :: u32) < ?count \<longleftrightarrow> length b - 16 < unat ?count"
    using assms by (simp add: word_less_nat_alt)
  have reads: "ReadFid b = Inr (le_word (take 4 b), drop 4 b)"
    "ReadUint64 (drop 4 b) = Inr (le_word (take 8 (drop 4 b)), drop 12 b)"
    "ReadUint32 (drop 12 b) = Inr (?count, drop 16 b)"
    using False by (auto simp: ReadFid_def ReadUint32_def ReadUint64_def ReadLE_def)
  have data: "ReadData ?count (drop 16 b) =
      (if length b - 16 < unat ?count then Inl ErrUnexpectedEOF
       else Inr (take (unat ?count) (drop 16 b), drop (unat ?count) (drop 16 b)))"
    using False by (auto simp: ReadData_def ReadFull_def)
  show ?thesis
    using False lt unfolding Twrite_DecodeFromBuf_def Twrite_DecodeFrom_def Let_def
    by (simp add: rd_bind_def rd_return_def rd_fail_def reads data)
qed

section \<open>Properties\<close>

text \<open>C34. The server's zero-copy \<^verbatim>\<open>Twrite\<close> decoder agrees with \<^verbatim>\<open>DecodeFrom\<close> on
  every body a frame can carry: it accepts the same bodies and yields the same
  message. (It does not report how many bytes follow the payload.)\<close>

theorem Twrite_DecodeFromBuf_agrees:
  assumes "length b < 2 ^ 32"
  shows "Twrite_DecodeFromBuf b = Inr m \<longleftrightarrow> (\<exists>r. Twrite_DecodeFrom b = Inr (m, r))"
  using assms by (rule Twrite_DecodeFromBuf_iff)

theorem Twrite_DecodeFromBuf_agrees_witness:
  "Twrite_DecodeFromBuf [1,0,0,0, 0,0,0,0,0,0,0,0, 2,0,0,0, 65,66, 67] = Inr (Twrite 1 0 [65, 66])
   \<and> (\<exists>r. Twrite_DecodeFrom [1,0,0,0, 0,0,0,0,0,0,0,0, 2,0,0,0, 65,66, 67] = Inr (Twrite 1 0 [65, 66], r))"
proof -
  have "Twrite_DecodeFromBuf [1,0,0,0, 0,0,0,0,0,0,0,0, 2,0,0,0, 65,66, 67] = Inr (Twrite 1 0 [65, 66])"
    by (simp add: Twrite_DecodeFromBuf_def Let_def MaxDataSize_def)
  then show ?thesis
    using Twrite_DecodeFromBuf_agrees [of "[1,0,0,0, 0,0,0,0,0,0,0,0, 2,0,0,0, 65,66, 67]"] by simp
qed

end
