(* ===== verification/LMessages.thy ===== *)
theory LMessages
  imports BaseMessages
begin

text \<open>
  The 9P2000.L messages (\<^verbatim>\<open>src/proto/p9l/messages.go\<close>): one constructor of
  \<^verbatim>\<open>l_msg\<close> per struct, one definition per \<^verbatim>\<open>EncodeTo\<close> and \<^verbatim>\<open>DecodeFrom\<close>
  method and the dispatch. The lock messages are the only ones whose decoder
  rejects values their encoder writes; \<^verbatim>\<open>l_ok\<close> is the set it admits.
\<close>

section \<open>Messages and type codes\<close>

datatype l_msg =
    Rlerror u32
  | Tstatfs u32
  | Rstatfs FSStat
  | Tlopen u32 u32
  | Rlopen QID u32
  | Tlcreate u32 gostring u32 u32 u32
  | Rlcreate QID u32
  | Tsymlink u32 gostring gostring u32
  | Rsymlink QID
  | Tmknod u32 gostring u32 u32 u32 u32
  | Rmknod QID
  | Trename u32 u32 gostring
  | Rrename
  | Treadlink u32
  | Rreadlink gostring
  | Tgetattr u32 u64
  | Rgetattr Attr
  | Tsetattr u32 SetAttr
  | Rsetattr
  | Txattrwalk u32 u32 gostring
  | Rxattrwalk u64
  | Txattrcreate u32 gostring u64 u32
  | Rxattrcreate
  | Treaddir u32 u64 u32
  | Rreaddir bytes
  | Tfsync u32 u32
  | Rfsync
  | Tlock u32 u8 u32 u64 u64 u32 gostring
  | Rlock u8
  | Tgetlock u32 u8 u64 u64 u32 gostring
  | Rgetlock u8 u64 u64 u32 gostring
  | Tlink u32 u32 gostring
  | Rlink
  | Tmkdir u32 gostring u32 u32
  | Rmkdir QID
  | Trenameat u32 gostring u32 gostring
  | Rrenameat
  | Tunlinkat u32 gostring u32
  | Runlinkat

primrec l_Type :: "l_msg \<Rightarrow> u8" where
  "l_Type (Rlerror _) = 7"
| "l_Type (Tstatfs _) = 8"
| "l_Type (Rstatfs _) = 9"
| "l_Type (Tlopen _ _) = 12"
| "l_Type (Rlopen _ _) = 13"
| "l_Type (Tlcreate _ _ _ _ _) = 14"
| "l_Type (Rlcreate _ _) = 15"
| "l_Type (Tsymlink _ _ _ _) = 16"
| "l_Type (Rsymlink _) = 17"
| "l_Type (Tmknod _ _ _ _ _ _) = 18"
| "l_Type (Rmknod _) = 19"
| "l_Type (Trename _ _ _) = 20"
| "l_Type Rrename = 21"
| "l_Type (Treadlink _) = 22"
| "l_Type (Rreadlink _) = 23"
| "l_Type (Tgetattr _ _) = 24"
| "l_Type (Rgetattr _) = 25"
| "l_Type (Tsetattr _ _) = 26"
| "l_Type Rsetattr = 27"
| "l_Type (Txattrwalk _ _ _) = 30"
| "l_Type (Rxattrwalk _) = 31"
| "l_Type (Txattrcreate _ _ _ _) = 32"
| "l_Type Rxattrcreate = 33"
| "l_Type (Treaddir _ _ _) = 40"
| "l_Type (Rreaddir _) = 41"
| "l_Type (Tfsync _ _) = 50"
| "l_Type Rfsync = 51"
| "l_Type (Tlock _ _ _ _ _ _ _) = 52"
| "l_Type (Rlock _) = 53"
| "l_Type (Tgetlock _ _ _ _ _ _) = 54"
| "l_Type (Rgetlock _ _ _ _ _) = 55"
| "l_Type (Tlink _ _ _) = 70"
| "l_Type Rlink = 71"
| "l_Type (Tmkdir _ _ _ _) = 72"
| "l_Type (Rmkdir _) = 73"
| "l_Type (Trenameat _ _ _ _) = 74"
| "l_Type Rrenameat = 75"
| "l_Type (Tunlinkat _ _ _) = 76"
| "l_Type Runlinkat = 77"

section \<open>Encoders and decoders\<close>

definition Rlerror_EncodeTo :: "u32 \<Rightarrow> writer" where [codec_defs]:
  "Rlerror_EncodeTo Ecode =
     WriteUint32 Ecode"

definition Rlerror_DecodeFrom :: "l_msg reader" where [codec_defs]:
  "Rlerror_DecodeFrom =
     rd_bind ReadUint32 (\<lambda>Ecode. rd_return (Rlerror Ecode))"

definition Tstatfs_EncodeTo :: "u32 \<Rightarrow> writer" where [codec_defs]:
  "Tstatfs_EncodeTo Fid =
     WriteFid Fid"

definition Tstatfs_DecodeFrom :: "l_msg reader" where [codec_defs]:
  "Tstatfs_DecodeFrom =
     rd_bind ReadFid (\<lambda>Fid. rd_return (Tstatfs Fid))"

definition Rstatfs_EncodeTo :: "FSStat \<Rightarrow> writer" where [codec_defs]:
  "Rstatfs_EncodeTo Stat = wseq [
     WriteUint32 (FSStat_Type Stat), WriteUint32 (FSStat_BSize Stat),
     WriteUint64 (FSStat_Blocks Stat), WriteUint64 (FSStat_BFree Stat),
     WriteUint64 (FSStat_BAvail Stat), WriteUint64 (FSStat_Files Stat),
     WriteUint64 (FSStat_FFree Stat), WriteUint64 (FSStat_FSID Stat),
     WriteUint32 (FSStat_NameLen Stat)]"

definition Rstatfs_DecodeFrom :: "l_msg reader" where [codec_defs]:
  "Rstatfs_DecodeFrom =
     rd_bind ReadUint32 (\<lambda>Type. rd_bind ReadUint32 (\<lambda>BSize.
     rd_bind ReadUint64 (\<lambda>Blocks. rd_bind ReadUint64 (\<lambda>BFree.
     rd_bind ReadUint64 (\<lambda>BAvail. rd_bind ReadUint64 (\<lambda>Files.
     rd_bind ReadUint64 (\<lambda>FFree. rd_bind ReadUint64 (\<lambda>FSID.
     rd_bind ReadUint32 (\<lambda>NameLen.
     rd_return (Rstatfs
       \<lparr>FSStat_Type = Type, FSStat_BSize = BSize, FSStat_Blocks = Blocks, FSStat_BFree = BFree,
       FSStat_BAvail = BAvail, FSStat_Files = Files, FSStat_FFree = FFree, FSStat_FSID = FSID,
       FSStat_NameLen = NameLen\<rparr>))))))))))"

definition Tlopen_EncodeTo :: "u32 \<Rightarrow> u32 \<Rightarrow> writer" where [codec_defs]:
  "Tlopen_EncodeTo Fid Flags =
     wseq [WriteFid Fid, WriteUint32 Flags]"

definition Tlopen_DecodeFrom :: "l_msg reader" where [codec_defs]:
  "Tlopen_DecodeFrom =
     rd_bind ReadFid (\<lambda>Fid. rd_bind ReadUint32 (\<lambda>Flags.
     rd_return (Tlopen Fid Flags)))"

definition Rlopen_EncodeTo :: "QID \<Rightarrow> u32 \<Rightarrow> writer" where [codec_defs]:
  "Rlopen_EncodeTo Qid IOUnit =
     wseq [WriteQID Qid, WriteUint32 IOUnit]"

definition Rlopen_DecodeFrom :: "l_msg reader" where [codec_defs]:
  "Rlopen_DecodeFrom =
     rd_bind ReadQID (\<lambda>Qid. rd_bind ReadUint32 (\<lambda>IOUnit.
     rd_return (Rlopen Qid IOUnit)))"

definition Tlcreate_EncodeTo :: "u32 \<Rightarrow> gostring \<Rightarrow> u32 \<Rightarrow> u32 \<Rightarrow> u32 \<Rightarrow> writer" where [codec_defs]:
  "Tlcreate_EncodeTo Fid Name Flags Mode GID =
     wseq [WriteFid Fid, WriteString Name, WriteUint32 Flags, WriteUint32 Mode, WriteUint32 GID]"

definition Tlcreate_DecodeFrom :: "l_msg reader" where [codec_defs]:
  "Tlcreate_DecodeFrom =
     rd_bind ReadFid (\<lambda>Fid. rd_bind ReadString (\<lambda>Name.
     rd_bind ReadUint32 (\<lambda>Flags. rd_bind ReadUint32 (\<lambda>Mode.
     rd_bind ReadUint32 (\<lambda>GID. rd_return (Tlcreate Fid Name Flags Mode GID))))))"

definition Rlcreate_EncodeTo :: "QID \<Rightarrow> u32 \<Rightarrow> writer" where [codec_defs]:
  "Rlcreate_EncodeTo Qid IOUnit =
     wseq [WriteQID Qid, WriteUint32 IOUnit]"

definition Rlcreate_DecodeFrom :: "l_msg reader" where [codec_defs]:
  "Rlcreate_DecodeFrom =
     rd_bind ReadQID (\<lambda>Qid. rd_bind ReadUint32 (\<lambda>IOUnit.
     rd_return (Rlcreate Qid IOUnit)))"

definition Tsymlink_EncodeTo :: "u32 \<Rightarrow> gostring \<Rightarrow> gostring \<Rightarrow> u32 \<Rightarrow> writer" where [codec_defs]:
  "Tsymlink_EncodeTo DirFid Name Target GID =
     wseq [WriteFid DirFid, WriteString Name, WriteString Target, WriteUint32 GID]"

definition Tsymlink_DecodeFrom :: "l_msg reader" where [codec_defs]:
  "Tsymlink_DecodeFrom =
     rd_bind ReadFid (\<lambda>DirFid. rd_bind ReadString (\<lambda>Name.
     rd_bind ReadString (\<lambda>Target. rd_bind ReadUint32 (\<lambda>GID.
     rd_return (Tsymlink DirFid Name Target GID)))))"

definition Rsymlink_EncodeTo :: "QID \<Rightarrow> writer" where [codec_defs]:
  "Rsymlink_EncodeTo Qid =
     WriteQID Qid"

definition Rsymlink_DecodeFrom :: "l_msg reader" where [codec_defs]:
  "Rsymlink_DecodeFrom =
     rd_bind ReadQID (\<lambda>Qid. rd_return (Rsymlink Qid))"

definition Tmknod_EncodeTo :: "u32 \<Rightarrow> gostring \<Rightarrow> u32 \<Rightarrow> u32 \<Rightarrow> u32 \<Rightarrow> u32 \<Rightarrow> writer" where [codec_defs]:
  "Tmknod_EncodeTo DirFid Name Mode Major Minor GID =
     wseq [WriteFid DirFid, WriteString Name, WriteUint32 Mode, WriteUint32 Major, WriteUint32 Minor,
     WriteUint32 GID]"

definition Tmknod_DecodeFrom :: "l_msg reader" where [codec_defs]:
  "Tmknod_DecodeFrom =
     rd_bind ReadFid (\<lambda>DirFid. rd_bind ReadString (\<lambda>Name.
     rd_bind ReadUint32 (\<lambda>Mode. rd_bind ReadUint32 (\<lambda>Major.
     rd_bind ReadUint32 (\<lambda>Minor. rd_bind ReadUint32 (\<lambda>GID.
     rd_return (Tmknod DirFid Name Mode Major Minor GID)))))))"

definition Rmknod_EncodeTo :: "QID \<Rightarrow> writer" where [codec_defs]:
  "Rmknod_EncodeTo Qid =
     WriteQID Qid"

definition Rmknod_DecodeFrom :: "l_msg reader" where [codec_defs]:
  "Rmknod_DecodeFrom =
     rd_bind ReadQID (\<lambda>Qid. rd_return (Rmknod Qid))"

definition Trename_EncodeTo :: "u32 \<Rightarrow> u32 \<Rightarrow> gostring \<Rightarrow> writer" where [codec_defs]:
  "Trename_EncodeTo Fid DirFid Name =
     wseq [WriteFid Fid, WriteFid DirFid, WriteString Name]"

definition Trename_DecodeFrom :: "l_msg reader" where [codec_defs]:
  "Trename_DecodeFrom =
     rd_bind ReadFid (\<lambda>Fid. rd_bind ReadFid (\<lambda>DirFid.
     rd_bind ReadString (\<lambda>Name. rd_return (Trename Fid DirFid Name))))"

definition Rrename_EncodeTo :: writer where [codec_defs]: "Rrename_EncodeTo = Inr []"

definition Rrename_DecodeFrom :: "l_msg reader" where [codec_defs]:
  "Rrename_DecodeFrom = rd_return Rrename"

definition Treadlink_EncodeTo :: "u32 \<Rightarrow> writer" where [codec_defs]:
  "Treadlink_EncodeTo Fid =
     WriteFid Fid"

definition Treadlink_DecodeFrom :: "l_msg reader" where [codec_defs]:
  "Treadlink_DecodeFrom =
     rd_bind ReadFid (\<lambda>Fid. rd_return (Treadlink Fid))"

definition Rreadlink_EncodeTo :: "gostring \<Rightarrow> writer" where [codec_defs]:
  "Rreadlink_EncodeTo Target =
     WriteString Target"

definition Rreadlink_DecodeFrom :: "l_msg reader" where [codec_defs]:
  "Rreadlink_DecodeFrom =
     rd_bind ReadString (\<lambda>Target. rd_return (Rreadlink Target))"

definition Tgetattr_EncodeTo :: "u32 \<Rightarrow> u64 \<Rightarrow> writer" where [codec_defs]:
  "Tgetattr_EncodeTo Fid RequestMask =
     wseq [WriteFid Fid, WriteUint64 RequestMask]"

definition Tgetattr_DecodeFrom :: "l_msg reader" where [codec_defs]:
  "Tgetattr_DecodeFrom =
     rd_bind ReadFid (\<lambda>Fid. rd_bind ReadUint64 (\<lambda>RequestMask.
     rd_return (Tgetattr Fid RequestMask)))"

definition Rgetattr_EncodeTo :: "Attr \<Rightarrow> writer" where [codec_defs]:
  "Rgetattr_EncodeTo a = wseq [
     WriteUint64 (Attr_Valid a), WriteQID (Attr_QID a), WriteUint32 (Attr_Mode a),
     WriteUint32 (Attr_UID a), WriteUint32 (Attr_GID a), WriteUint64 (Attr_NLink a),
     WriteUint64 (Attr_RDev a), WriteUint64 (Attr_Size a), WriteUint64 (Attr_BlkSize a),
     WriteUint64 (Attr_Blocks a), WriteUint64 (Attr_ATimeSec a),
     WriteUint64 (Attr_ATimeNSec a), WriteUint64 (Attr_MTimeSec a),
     WriteUint64 (Attr_MTimeNSec a), WriteUint64 (Attr_CTimeSec a),
     WriteUint64 (Attr_CTimeNSec a), WriteUint64 (Attr_BTimeSec a),
     WriteUint64 (Attr_BTimeNSec a), WriteUint64 (Attr_Gen a), WriteUint64 (Attr_DataVersion a)]"

definition Rgetattr_DecodeFrom :: "l_msg reader" where [codec_defs]:
  "Rgetattr_DecodeFrom =
     rd_bind ReadUint64 (\<lambda>Valid. rd_bind ReadQID (\<lambda>Qid.
     rd_bind ReadUint32 (\<lambda>Mode. rd_bind ReadUint32 (\<lambda>UID.
     rd_bind ReadUint32 (\<lambda>GID. rd_bind ReadUint64 (\<lambda>NLink.
     rd_bind ReadUint64 (\<lambda>RDev. rd_bind ReadUint64 (\<lambda>Size.
     rd_bind ReadUint64 (\<lambda>BlkSize. rd_bind ReadUint64 (\<lambda>Blocks.
     rd_bind ReadUint64 (\<lambda>ATimeSec. rd_bind ReadUint64 (\<lambda>ATimeNSec.
     rd_bind ReadUint64 (\<lambda>MTimeSec. rd_bind ReadUint64 (\<lambda>MTimeNSec.
     rd_bind ReadUint64 (\<lambda>CTimeSec. rd_bind ReadUint64 (\<lambda>CTimeNSec.
     rd_bind ReadUint64 (\<lambda>BTimeSec. rd_bind ReadUint64 (\<lambda>BTimeNSec.
     rd_bind ReadUint64 (\<lambda>Gen. rd_bind ReadUint64 (\<lambda>DataVersion.
     rd_return (Rgetattr
       \<lparr>Attr_Valid = Valid, Attr_QID = Qid, Attr_Mode = Mode, Attr_UID = UID, Attr_GID = GID,
       Attr_NLink = NLink, Attr_RDev = RDev, Attr_Size = Size, Attr_BlkSize = BlkSize,
       Attr_Blocks = Blocks, Attr_ATimeSec = ATimeSec, Attr_ATimeNSec = ATimeNSec,
       Attr_MTimeSec = MTimeSec, Attr_MTimeNSec = MTimeNSec, Attr_CTimeSec = CTimeSec,
       Attr_CTimeNSec = CTimeNSec, Attr_BTimeSec = BTimeSec, Attr_BTimeNSec = BTimeNSec,
       Attr_Gen = Gen, Attr_DataVersion = DataVersion\<rparr>)))))))))))))))))))))"

definition Tsetattr_EncodeTo :: "u32 \<Rightarrow> SetAttr \<Rightarrow> writer" where [codec_defs]:
  "Tsetattr_EncodeTo Fid a = wseq [
     WriteFid Fid, WriteUint32 (SetAttr_Valid a), WriteUint32 (SetAttr_Mode a),
     WriteUint32 (SetAttr_UID a), WriteUint32 (SetAttr_GID a), WriteUint64 (SetAttr_Size a),
     WriteUint64 (SetAttr_ATimeSec a), WriteUint64 (SetAttr_ATimeNSec a),
     WriteUint64 (SetAttr_MTimeSec a), WriteUint64 (SetAttr_MTimeNSec a)]"

definition Tsetattr_DecodeFrom :: "l_msg reader" where [codec_defs]:
  "Tsetattr_DecodeFrom =
     rd_bind ReadFid (\<lambda>Fid. rd_bind ReadUint32 (\<lambda>Valid.
     rd_bind ReadUint32 (\<lambda>Mode. rd_bind ReadUint32 (\<lambda>UID.
     rd_bind ReadUint32 (\<lambda>GID. rd_bind ReadUint64 (\<lambda>Size.
     rd_bind ReadUint64 (\<lambda>ATimeSec. rd_bind ReadUint64 (\<lambda>ATimeNSec.
     rd_bind ReadUint64 (\<lambda>MTimeSec. rd_bind ReadUint64 (\<lambda>MTimeNSec.
     rd_return (Tsetattr Fid
       \<lparr>SetAttr_Valid = Valid, SetAttr_Mode = Mode, SetAttr_UID = UID, SetAttr_GID = GID,
       SetAttr_Size = Size, SetAttr_ATimeSec = ATimeSec, SetAttr_ATimeNSec = ATimeNSec,
       SetAttr_MTimeSec = MTimeSec, SetAttr_MTimeNSec = MTimeNSec\<rparr>)))))))))))"

definition Rsetattr_EncodeTo :: writer where [codec_defs]: "Rsetattr_EncodeTo = Inr []"

definition Rsetattr_DecodeFrom :: "l_msg reader" where [codec_defs]:
  "Rsetattr_DecodeFrom = rd_return Rsetattr"

definition Txattrwalk_EncodeTo :: "u32 \<Rightarrow> u32 \<Rightarrow> gostring \<Rightarrow> writer" where [codec_defs]:
  "Txattrwalk_EncodeTo Fid NewFid Name =
     wseq [WriteFid Fid, WriteFid NewFid, WriteString Name]"

definition Txattrwalk_DecodeFrom :: "l_msg reader" where [codec_defs]:
  "Txattrwalk_DecodeFrom =
     rd_bind ReadFid (\<lambda>Fid. rd_bind ReadFid (\<lambda>NewFid.
     rd_bind ReadString (\<lambda>Name. rd_return (Txattrwalk Fid NewFid Name))))"

definition Rxattrwalk_EncodeTo :: "u64 \<Rightarrow> writer" where [codec_defs]:
  "Rxattrwalk_EncodeTo Size =
     WriteUint64 Size"

definition Rxattrwalk_DecodeFrom :: "l_msg reader" where [codec_defs]:
  "Rxattrwalk_DecodeFrom =
     rd_bind ReadUint64 (\<lambda>Size. rd_return (Rxattrwalk Size))"

definition Txattrcreate_EncodeTo :: "u32 \<Rightarrow> gostring \<Rightarrow> u64 \<Rightarrow> u32 \<Rightarrow> writer" where [codec_defs]:
  "Txattrcreate_EncodeTo Fid Name AttrSize Flags =
     wseq [WriteFid Fid, WriteString Name, WriteUint64 AttrSize, WriteUint32 Flags]"

definition Txattrcreate_DecodeFrom :: "l_msg reader" where [codec_defs]:
  "Txattrcreate_DecodeFrom =
     rd_bind ReadFid (\<lambda>Fid. rd_bind ReadString (\<lambda>Name.
     rd_bind ReadUint64 (\<lambda>AttrSize. rd_bind ReadUint32 (\<lambda>Flags.
     rd_return (Txattrcreate Fid Name AttrSize Flags)))))"

definition Rxattrcreate_EncodeTo :: writer where [codec_defs]: "Rxattrcreate_EncodeTo = Inr []"

definition Rxattrcreate_DecodeFrom :: "l_msg reader" where [codec_defs]:
  "Rxattrcreate_DecodeFrom = rd_return Rxattrcreate"

definition Treaddir_EncodeTo :: "u32 \<Rightarrow> u64 \<Rightarrow> u32 \<Rightarrow> writer" where [codec_defs]:
  "Treaddir_EncodeTo Fid Offset Count =
     wseq [WriteFid Fid, WriteUint64 Offset, WriteUint32 Count]"

definition Treaddir_DecodeFrom :: "l_msg reader" where [codec_defs]:
  "Treaddir_DecodeFrom =
     rd_bind ReadFid (\<lambda>Fid. rd_bind ReadUint64 (\<lambda>Offset.
     rd_bind ReadUint32 (\<lambda>Count. rd_return (Treaddir Fid Offset Count))))"

definition Rreaddir_EncodeFixed :: "bytes \<Rightarrow> writer" where [codec_defs]:
  "Rreaddir_EncodeFixed Data =
     (if length Data > MaxDataSize then Inl ErrDataTooLarge
      else WriteUint32 (of_nat (length Data)))"

definition Rreaddir_EncodeTo :: "bytes \<Rightarrow> writer" where [codec_defs]:
  "Rreaddir_EncodeTo Data = wseq [Rreaddir_EncodeFixed Data, WriteRaw Data]"

definition Rreaddir_DecodeFrom :: "l_msg reader" where [codec_defs]:
  "Rreaddir_DecodeFrom = rd_bind ReadUint32 (\<lambda>count.
     if unat count > MaxDataSize then rd_fail ErrDataTooLarge
     else rd_bind (ReadData count) (\<lambda>Data. rd_return (Rreaddir Data)))"

definition Tfsync_EncodeTo :: "u32 \<Rightarrow> u32 \<Rightarrow> writer" where [codec_defs]:
  "Tfsync_EncodeTo Fid DataSync =
     wseq [WriteFid Fid, WriteUint32 DataSync]"

definition Tfsync_DecodeFrom :: "l_msg reader" where [codec_defs]:
  "Tfsync_DecodeFrom =
     rd_bind ReadFid (\<lambda>Fid. rd_bind ReadUint32 (\<lambda>DataSync.
     rd_return (Tfsync Fid DataSync)))"

definition Rfsync_EncodeTo :: writer where [codec_defs]: "Rfsync_EncodeTo = Inr []"

definition Rfsync_DecodeFrom :: "l_msg reader" where [codec_defs]:
  "Rfsync_DecodeFrom = rd_return Rfsync"

definition Tlock_EncodeTo :: "u32 \<Rightarrow> u8 \<Rightarrow> u32 \<Rightarrow> u64 \<Rightarrow> u64 \<Rightarrow> u32 \<Rightarrow> gostring \<Rightarrow> writer" where [codec_defs]:
  "Tlock_EncodeTo Fid LockType Flags Start Length ProcID ClientID =
     wseq [WriteFid Fid, WriteUint8 LockType, WriteUint32 Flags, WriteUint64 Start,
     WriteUint64 Length, WriteUint32 ProcID, WriteString ClientID]"

definition Tlock_DecodeFrom :: "l_msg reader" where [codec_defs]:
  "Tlock_DecodeFrom =
     rd_bind ReadFid (\<lambda>Fid.
     rd_bind ReadUint8 (\<lambda>LockType.
     if LockType > 2 then rd_fail ErrLockType else
     rd_bind ReadUint32 (\<lambda>Flags.
     if Flags AND NOT 3 \<noteq> 0 then rd_fail ErrLockFlags else
     rd_bind ReadUint64 (\<lambda>Start. rd_bind ReadUint64 (\<lambda>Length.
     rd_bind ReadUint32 (\<lambda>ProcID. rd_bind ReadString (\<lambda>ClientID.
     rd_return (Tlock Fid LockType Flags Start Length ProcID ClientID))))))))"

definition Rlock_EncodeTo :: "u8 \<Rightarrow> writer" where [codec_defs]:
  "Rlock_EncodeTo Status =
     WriteUint8 Status"

definition Rlock_DecodeFrom :: "l_msg reader" where [codec_defs]:
  "Rlock_DecodeFrom =
     rd_bind ReadUint8 (\<lambda>Status.
     if Status > 3 then rd_fail ErrLockStatus else
     rd_return (Rlock Status))"

definition Tgetlock_EncodeTo :: "u32 \<Rightarrow> u8 \<Rightarrow> u64 \<Rightarrow> u64 \<Rightarrow> u32 \<Rightarrow> gostring \<Rightarrow> writer" where [codec_defs]:
  "Tgetlock_EncodeTo Fid LockType Start Length ProcID ClientID =
     wseq [WriteFid Fid, WriteUint8 LockType, WriteUint64 Start, WriteUint64 Length,
     WriteUint32 ProcID, WriteString ClientID]"

definition Tgetlock_DecodeFrom :: "l_msg reader" where [codec_defs]:
  "Tgetlock_DecodeFrom =
     rd_bind ReadFid (\<lambda>Fid.
     rd_bind ReadUint8 (\<lambda>LockType.
     if LockType > 2 then rd_fail ErrLockType else
     rd_bind ReadUint64 (\<lambda>Start. rd_bind ReadUint64 (\<lambda>Length.
     rd_bind ReadUint32 (\<lambda>ProcID. rd_bind ReadString (\<lambda>ClientID.
     rd_return (Tgetlock Fid LockType Start Length ProcID ClientID)))))))"

definition Rgetlock_EncodeTo :: "u8 \<Rightarrow> u64 \<Rightarrow> u64 \<Rightarrow> u32 \<Rightarrow> gostring \<Rightarrow> writer" where [codec_defs]:
  "Rgetlock_EncodeTo LockType Start Length ProcID ClientID =
     wseq [WriteUint8 LockType, WriteUint64 Start, WriteUint64 Length, WriteUint32 ProcID,
     WriteString ClientID]"

definition Rgetlock_DecodeFrom :: "l_msg reader" where [codec_defs]:
  "Rgetlock_DecodeFrom =
     rd_bind ReadUint8 (\<lambda>LockType.
     if LockType > 2 then rd_fail ErrLockType else
     rd_bind ReadUint64 (\<lambda>Start. rd_bind ReadUint64 (\<lambda>Length.
     rd_bind ReadUint32 (\<lambda>ProcID. rd_bind ReadString (\<lambda>ClientID.
     rd_return (Rgetlock LockType Start Length ProcID ClientID))))))"

definition Tlink_EncodeTo :: "u32 \<Rightarrow> u32 \<Rightarrow> gostring \<Rightarrow> writer" where [codec_defs]:
  "Tlink_EncodeTo DirFid Fid Name =
     wseq [WriteFid DirFid, WriteFid Fid, WriteString Name]"

definition Tlink_DecodeFrom :: "l_msg reader" where [codec_defs]:
  "Tlink_DecodeFrom =
     rd_bind ReadFid (\<lambda>DirFid. rd_bind ReadFid (\<lambda>Fid.
     rd_bind ReadString (\<lambda>Name. rd_return (Tlink DirFid Fid Name))))"

definition Rlink_EncodeTo :: writer where [codec_defs]: "Rlink_EncodeTo = Inr []"

definition Rlink_DecodeFrom :: "l_msg reader" where [codec_defs]:
  "Rlink_DecodeFrom = rd_return Rlink"

definition Tmkdir_EncodeTo :: "u32 \<Rightarrow> gostring \<Rightarrow> u32 \<Rightarrow> u32 \<Rightarrow> writer" where [codec_defs]:
  "Tmkdir_EncodeTo DirFid Name Mode GID =
     wseq [WriteFid DirFid, WriteString Name, WriteUint32 Mode, WriteUint32 GID]"

definition Tmkdir_DecodeFrom :: "l_msg reader" where [codec_defs]:
  "Tmkdir_DecodeFrom =
     rd_bind ReadFid (\<lambda>DirFid. rd_bind ReadString (\<lambda>Name.
     rd_bind ReadUint32 (\<lambda>Mode. rd_bind ReadUint32 (\<lambda>GID.
     rd_return (Tmkdir DirFid Name Mode GID)))))"

definition Rmkdir_EncodeTo :: "QID \<Rightarrow> writer" where [codec_defs]:
  "Rmkdir_EncodeTo Qid =
     WriteQID Qid"

definition Rmkdir_DecodeFrom :: "l_msg reader" where [codec_defs]:
  "Rmkdir_DecodeFrom =
     rd_bind ReadQID (\<lambda>Qid. rd_return (Rmkdir Qid))"

definition Trenameat_EncodeTo :: "u32 \<Rightarrow> gostring \<Rightarrow> u32 \<Rightarrow> gostring \<Rightarrow> writer" where [codec_defs]:
  "Trenameat_EncodeTo OldDirFid OldName NewDirFid NewName =
     wseq [WriteFid OldDirFid, WriteString OldName, WriteFid NewDirFid, WriteString NewName]"

definition Trenameat_DecodeFrom :: "l_msg reader" where [codec_defs]:
  "Trenameat_DecodeFrom =
     rd_bind ReadFid (\<lambda>OldDirFid. rd_bind ReadString (\<lambda>OldName.
     rd_bind ReadFid (\<lambda>NewDirFid. rd_bind ReadString (\<lambda>NewName.
     rd_return (Trenameat OldDirFid OldName NewDirFid NewName)))))"

definition Rrenameat_EncodeTo :: writer where [codec_defs]: "Rrenameat_EncodeTo = Inr []"

definition Rrenameat_DecodeFrom :: "l_msg reader" where [codec_defs]:
  "Rrenameat_DecodeFrom = rd_return Rrenameat"

definition Tunlinkat_EncodeTo :: "u32 \<Rightarrow> gostring \<Rightarrow> u32 \<Rightarrow> writer" where [codec_defs]:
  "Tunlinkat_EncodeTo DirFid Name Flags =
     wseq [WriteFid DirFid, WriteString Name, WriteUint32 Flags]"

definition Tunlinkat_DecodeFrom :: "l_msg reader" where [codec_defs]:
  "Tunlinkat_DecodeFrom =
     rd_bind ReadFid (\<lambda>DirFid. rd_bind ReadString (\<lambda>Name.
     rd_bind ReadUint32 (\<lambda>Flags. rd_return (Tunlinkat DirFid Name Flags))))"

definition Runlinkat_EncodeTo :: writer where [codec_defs]: "Runlinkat_EncodeTo = Inr []"

definition Runlinkat_DecodeFrom :: "l_msg reader" where [codec_defs]:
  "Runlinkat_DecodeFrom = rd_return Runlinkat"

section \<open>Method dispatch\<close>

primrec l_EncodeTo :: "l_msg \<Rightarrow> writer" where
  "l_EncodeTo (Rlerror a) = Rlerror_EncodeTo a"
| "l_EncodeTo (Tstatfs a) = Tstatfs_EncodeTo a"
| "l_EncodeTo (Rstatfs a) = Rstatfs_EncodeTo a"
| "l_EncodeTo (Tlopen a b) = Tlopen_EncodeTo a b"
| "l_EncodeTo (Rlopen a b) = Rlopen_EncodeTo a b"
| "l_EncodeTo (Tlcreate a b c d e) = Tlcreate_EncodeTo a b c d e"
| "l_EncodeTo (Rlcreate a b) = Rlcreate_EncodeTo a b"
| "l_EncodeTo (Tsymlink a b c d) = Tsymlink_EncodeTo a b c d"
| "l_EncodeTo (Rsymlink a) = Rsymlink_EncodeTo a"
| "l_EncodeTo (Tmknod a b c d e f) = Tmknod_EncodeTo a b c d e f"
| "l_EncodeTo (Rmknod a) = Rmknod_EncodeTo a"
| "l_EncodeTo (Trename a b c) = Trename_EncodeTo a b c"
| "l_EncodeTo Rrename = Rrename_EncodeTo"
| "l_EncodeTo (Treadlink a) = Treadlink_EncodeTo a"
| "l_EncodeTo (Rreadlink a) = Rreadlink_EncodeTo a"
| "l_EncodeTo (Tgetattr a b) = Tgetattr_EncodeTo a b"
| "l_EncodeTo (Rgetattr a) = Rgetattr_EncodeTo a"
| "l_EncodeTo (Tsetattr a b) = Tsetattr_EncodeTo a b"
| "l_EncodeTo Rsetattr = Rsetattr_EncodeTo"
| "l_EncodeTo (Txattrwalk a b c) = Txattrwalk_EncodeTo a b c"
| "l_EncodeTo (Rxattrwalk a) = Rxattrwalk_EncodeTo a"
| "l_EncodeTo (Txattrcreate a b c d) = Txattrcreate_EncodeTo a b c d"
| "l_EncodeTo Rxattrcreate = Rxattrcreate_EncodeTo"
| "l_EncodeTo (Treaddir a b c) = Treaddir_EncodeTo a b c"
| "l_EncodeTo (Rreaddir a) = Rreaddir_EncodeTo a"
| "l_EncodeTo (Tfsync a b) = Tfsync_EncodeTo a b"
| "l_EncodeTo Rfsync = Rfsync_EncodeTo"
| "l_EncodeTo (Tlock a b c d e f g) = Tlock_EncodeTo a b c d e f g"
| "l_EncodeTo (Rlock a) = Rlock_EncodeTo a"
| "l_EncodeTo (Tgetlock a b c d e f) = Tgetlock_EncodeTo a b c d e f"
| "l_EncodeTo (Rgetlock a b c d e) = Rgetlock_EncodeTo a b c d e"
| "l_EncodeTo (Tlink a b c) = Tlink_EncodeTo a b c"
| "l_EncodeTo Rlink = Rlink_EncodeTo"
| "l_EncodeTo (Tmkdir a b c d) = Tmkdir_EncodeTo a b c d"
| "l_EncodeTo (Rmkdir a) = Rmkdir_EncodeTo a"
| "l_EncodeTo (Trenameat a b c d) = Trenameat_EncodeTo a b c d"
| "l_EncodeTo Rrenameat = Rrenameat_EncodeTo"
| "l_EncodeTo (Tunlinkat a b c) = Tunlinkat_EncodeTo a b c"
| "l_EncodeTo Runlinkat = Runlinkat_EncodeTo"

primrec l_DecodeFrom :: "l_msg \<Rightarrow> l_msg reader" where
  "l_DecodeFrom (Rlerror _) = Rlerror_DecodeFrom"
| "l_DecodeFrom (Tstatfs _) = Tstatfs_DecodeFrom"
| "l_DecodeFrom (Rstatfs _) = Rstatfs_DecodeFrom"
| "l_DecodeFrom (Tlopen _ _) = Tlopen_DecodeFrom"
| "l_DecodeFrom (Rlopen _ _) = Rlopen_DecodeFrom"
| "l_DecodeFrom (Tlcreate _ _ _ _ _) = Tlcreate_DecodeFrom"
| "l_DecodeFrom (Rlcreate _ _) = Rlcreate_DecodeFrom"
| "l_DecodeFrom (Tsymlink _ _ _ _) = Tsymlink_DecodeFrom"
| "l_DecodeFrom (Rsymlink _) = Rsymlink_DecodeFrom"
| "l_DecodeFrom (Tmknod _ _ _ _ _ _) = Tmknod_DecodeFrom"
| "l_DecodeFrom (Rmknod _) = Rmknod_DecodeFrom"
| "l_DecodeFrom (Trename _ _ _) = Trename_DecodeFrom"
| "l_DecodeFrom Rrename = Rrename_DecodeFrom"
| "l_DecodeFrom (Treadlink _) = Treadlink_DecodeFrom"
| "l_DecodeFrom (Rreadlink _) = Rreadlink_DecodeFrom"
| "l_DecodeFrom (Tgetattr _ _) = Tgetattr_DecodeFrom"
| "l_DecodeFrom (Rgetattr _) = Rgetattr_DecodeFrom"
| "l_DecodeFrom (Tsetattr _ _) = Tsetattr_DecodeFrom"
| "l_DecodeFrom Rsetattr = Rsetattr_DecodeFrom"
| "l_DecodeFrom (Txattrwalk _ _ _) = Txattrwalk_DecodeFrom"
| "l_DecodeFrom (Rxattrwalk _) = Rxattrwalk_DecodeFrom"
| "l_DecodeFrom (Txattrcreate _ _ _ _) = Txattrcreate_DecodeFrom"
| "l_DecodeFrom Rxattrcreate = Rxattrcreate_DecodeFrom"
| "l_DecodeFrom (Treaddir _ _ _) = Treaddir_DecodeFrom"
| "l_DecodeFrom (Rreaddir _) = Rreaddir_DecodeFrom"
| "l_DecodeFrom (Tfsync _ _) = Tfsync_DecodeFrom"
| "l_DecodeFrom Rfsync = Rfsync_DecodeFrom"
| "l_DecodeFrom (Tlock _ _ _ _ _ _ _) = Tlock_DecodeFrom"
| "l_DecodeFrom (Rlock _) = Rlock_DecodeFrom"
| "l_DecodeFrom (Tgetlock _ _ _ _ _ _) = Tgetlock_DecodeFrom"
| "l_DecodeFrom (Rgetlock _ _ _ _ _) = Rgetlock_DecodeFrom"
| "l_DecodeFrom (Tlink _ _ _) = Tlink_DecodeFrom"
| "l_DecodeFrom Rlink = Rlink_DecodeFrom"
| "l_DecodeFrom (Tmkdir _ _ _ _) = Tmkdir_DecodeFrom"
| "l_DecodeFrom (Rmkdir _) = Rmkdir_DecodeFrom"
| "l_DecodeFrom (Trenameat _ _ _ _) = Trenameat_DecodeFrom"
| "l_DecodeFrom Rrenameat = Rrenameat_DecodeFrom"
| "l_DecodeFrom (Tunlinkat _ _ _) = Tunlinkat_DecodeFrom"
| "l_DecodeFrom Runlinkat = Runlinkat_DecodeFrom"

abbreviation "zero_FSStat \<equiv> \<lparr>
   FSStat_Type = 0, FSStat_BSize = 0, FSStat_Blocks = 0, FSStat_BFree = 0, FSStat_BAvail = 0,
   FSStat_Files = 0, FSStat_FFree = 0, FSStat_FSID = 0, FSStat_NameLen = 0\<rparr>"

abbreviation "zero_Attr \<equiv> \<lparr>
   Attr_Valid = 0, Attr_QID = zero_QID, Attr_Mode = 0, Attr_UID = 0, Attr_GID = 0,
   Attr_NLink = 0, Attr_RDev = 0, Attr_Size = 0, Attr_BlkSize = 0, Attr_Blocks = 0,
   Attr_ATimeSec = 0, Attr_ATimeNSec = 0, Attr_MTimeSec = 0, Attr_MTimeNSec = 0,
   Attr_CTimeSec = 0, Attr_CTimeNSec = 0, Attr_BTimeSec = 0, Attr_BTimeNSec = 0, Attr_Gen = 0,
   Attr_DataVersion = 0\<rparr>"

abbreviation "zero_SetAttr \<equiv> \<lparr>
   SetAttr_Valid = 0, SetAttr_Mode = 0, SetAttr_UID = 0, SetAttr_GID = 0, SetAttr_Size = 0,
   SetAttr_ATimeSec = 0, SetAttr_ATimeNSec = 0, SetAttr_MTimeSec = 0, SetAttr_MTimeNSec = 0\<rparr>"

definition newLMsg :: "u8 \<Rightarrow> l_msg option" where
  "newLMsg t =
     (if t = 7 then Some (Rlerror 0)
      else if t = 8 then Some (Tstatfs 0)
      else if t = 9 then Some (Rstatfs zero_FSStat)
      else if t = 12 then Some (Tlopen 0 0)
      else if t = 13 then Some (Rlopen zero_QID 0)
      else if t = 14 then Some (Tlcreate 0 [] 0 0 0)
      else if t = 15 then Some (Rlcreate zero_QID 0)
      else if t = 16 then Some (Tsymlink 0 [] [] 0)
      else if t = 17 then Some (Rsymlink zero_QID)
      else if t = 18 then Some (Tmknod 0 [] 0 0 0 0)
      else if t = 19 then Some (Rmknod zero_QID)
      else if t = 20 then Some (Trename 0 0 [])
      else if t = 21 then Some Rrename
      else if t = 22 then Some (Treadlink 0)
      else if t = 23 then Some (Rreadlink [])
      else if t = 24 then Some (Tgetattr 0 0)
      else if t = 25 then Some (Rgetattr zero_Attr)
      else if t = 26 then Some (Tsetattr 0 zero_SetAttr)
      else if t = 27 then Some Rsetattr
      else if t = 30 then Some (Txattrwalk 0 0 [])
      else if t = 31 then Some (Rxattrwalk 0)
      else if t = 32 then Some (Txattrcreate 0 [] 0 0)
      else if t = 33 then Some Rxattrcreate
      else if t = 40 then Some (Treaddir 0 0 0)
      else if t = 41 then Some (Rreaddir [])
      else if t = 50 then Some (Tfsync 0 0)
      else if t = 51 then Some Rfsync
      else if t = 52 then Some (Tlock 0 0 0 0 0 0 [])
      else if t = 53 then Some (Rlock 0)
      else if t = 54 then Some (Tgetlock 0 0 0 0 0 [])
      else if t = 55 then Some (Rgetlock 0 0 0 0 [])
      else if t = 70 then Some (Tlink 0 0 [])
      else if t = 71 then Some Rlink
      else if t = 72 then Some (Tmkdir 0 [] 0 0)
      else if t = 73 then Some (Rmkdir zero_QID)
      else if t = 74 then Some (Trenameat 0 [] 0 [])
      else if t = 75 then Some Rrenameat
      else if t = 76 then Some (Tunlinkat 0 [] 0)
      else if t = 77 then Some Runlinkat
      else None)"

section \<open>Every decoder accepts exactly the encodings of its message\<close>

text \<open>The values the decoders admit: everything except lock types, lock flags
  and lock states outside the ranges of \<^verbatim>\<open>types.go\<close>.\<close>

fun l_ok :: "l_msg \<Rightarrow> bool" where
  "l_ok (Tlock _ LockType Flags _ _ _ _) \<longleftrightarrow> LockType \<le> 2 \<and> Flags AND NOT 3 = 0"
| "l_ok (Rlock Status) \<longleftrightarrow> Status \<le> 3"
| "l_ok (Tgetlock _ LockType _ _ _ _) \<longleftrightarrow> LockType \<le> 2"
| "l_ok (Rgetlock LockType _ _ _ _) \<longleftrightarrow> LockType \<le> 2"
| "l_ok _ \<longleftrightarrow> True"

lemma l_Type_iff:
  "l_Type m = 7 \<longleftrightarrow> (\<exists>a. m = Rlerror a)"
  "l_Type m = 8 \<longleftrightarrow> (\<exists>a. m = Tstatfs a)"
  "l_Type m = 9 \<longleftrightarrow> (\<exists>a. m = Rstatfs a)"
  "l_Type m = 12 \<longleftrightarrow> (\<exists>a b. m = Tlopen a b)"
  "l_Type m = 13 \<longleftrightarrow> (\<exists>a b. m = Rlopen a b)"
  "l_Type m = 14 \<longleftrightarrow> (\<exists>a b c d e. m = Tlcreate a b c d e)"
  "l_Type m = 15 \<longleftrightarrow> (\<exists>a b. m = Rlcreate a b)"
  "l_Type m = 16 \<longleftrightarrow> (\<exists>a b c d. m = Tsymlink a b c d)"
  "l_Type m = 17 \<longleftrightarrow> (\<exists>a. m = Rsymlink a)"
  "l_Type m = 18 \<longleftrightarrow> (\<exists>a b c d e f. m = Tmknod a b c d e f)"
  "l_Type m = 19 \<longleftrightarrow> (\<exists>a. m = Rmknod a)"
  "l_Type m = 20 \<longleftrightarrow> (\<exists>a b c. m = Trename a b c)"
  "l_Type m = 21 \<longleftrightarrow> m = Rrename"
  "l_Type m = 22 \<longleftrightarrow> (\<exists>a. m = Treadlink a)"
  "l_Type m = 23 \<longleftrightarrow> (\<exists>a. m = Rreadlink a)"
  "l_Type m = 24 \<longleftrightarrow> (\<exists>a b. m = Tgetattr a b)"
  "l_Type m = 25 \<longleftrightarrow> (\<exists>a. m = Rgetattr a)"
  "l_Type m = 26 \<longleftrightarrow> (\<exists>a b. m = Tsetattr a b)"
  "l_Type m = 27 \<longleftrightarrow> m = Rsetattr"
  "l_Type m = 30 \<longleftrightarrow> (\<exists>a b c. m = Txattrwalk a b c)"
  "l_Type m = 31 \<longleftrightarrow> (\<exists>a. m = Rxattrwalk a)"
  "l_Type m = 32 \<longleftrightarrow> (\<exists>a b c d. m = Txattrcreate a b c d)"
  "l_Type m = 33 \<longleftrightarrow> m = Rxattrcreate"
  "l_Type m = 40 \<longleftrightarrow> (\<exists>a b c. m = Treaddir a b c)"
  "l_Type m = 41 \<longleftrightarrow> (\<exists>a. m = Rreaddir a)"
  "l_Type m = 50 \<longleftrightarrow> (\<exists>a b. m = Tfsync a b)"
  "l_Type m = 51 \<longleftrightarrow> m = Rfsync"
  "l_Type m = 52 \<longleftrightarrow> (\<exists>a b c d e f g. m = Tlock a b c d e f g)"
  "l_Type m = 53 \<longleftrightarrow> (\<exists>a. m = Rlock a)"
  "l_Type m = 54 \<longleftrightarrow> (\<exists>a b c d e f. m = Tgetlock a b c d e f)"
  "l_Type m = 55 \<longleftrightarrow> (\<exists>a b c d e. m = Rgetlock a b c d e)"
  "l_Type m = 70 \<longleftrightarrow> (\<exists>a b c. m = Tlink a b c)"
  "l_Type m = 71 \<longleftrightarrow> m = Rlink"
  "l_Type m = 72 \<longleftrightarrow> (\<exists>a b c d. m = Tmkdir a b c d)"
  "l_Type m = 73 \<longleftrightarrow> (\<exists>a. m = Rmkdir a)"
  "l_Type m = 74 \<longleftrightarrow> (\<exists>a b c d. m = Trenameat a b c d)"
  "l_Type m = 75 \<longleftrightarrow> m = Rrenameat"
  "l_Type m = 76 \<longleftrightarrow> (\<exists>a b c. m = Tunlinkat a b c)"
  "l_Type m = 77 \<longleftrightarrow> m = Runlinkat"
  by (cases m; simp)+

lemma Rreaddir_Decode_iff:
  "Rreaddir_DecodeFrom bs = Inr (m, r) \<longleftrightarrow>
     (\<exists>a p. m = Rreaddir a \<and> Rreaddir_EncodeTo a = Inr p \<and> bs = p @ r)"
  by (auto simp: codec_defs codec_iff rbind_Inr_iff proto_consts unat_eq_u32 cong: conj_cong)

lemma Rstatfs_Decode_iff:
  "Rstatfs_DecodeFrom bs = Inr (m, r) \<longleftrightarrow>
     (\<exists>a p. m = Rstatfs a \<and> Rstatfs_EncodeTo a = Inr p \<and> bs = p @ r)"
proof
  assume "Rstatfs_DecodeFrom bs = Inr (m, r)"
  then show "\<exists>a p. m = Rstatfs a \<and> Rstatfs_EncodeTo a = Inr p \<and> bs = p @ r"
    by (clarsimp simp: Rstatfs_DecodeFrom_def codec_iff)
      (simp add: Rstatfs_EncodeTo_def rbind_Inr_iff codec_iff)
next
  assume "\<exists>a p. m = Rstatfs a \<and> Rstatfs_EncodeTo a = Inr p \<and> bs = p @ r"
  then show "Rstatfs_DecodeFrom bs = Inr (m, r)"
    by (clarsimp simp: Rstatfs_EncodeTo_def rbind_Inr_iff codec_iff)
      (simp add: Rstatfs_DecodeFrom_def codec_iff)
qed

lemma Rgetattr_Decode_iff:
  "Rgetattr_DecodeFrom bs = Inr (m, r) \<longleftrightarrow>
     (\<exists>a p. m = Rgetattr a \<and> Rgetattr_EncodeTo a = Inr p \<and> bs = p @ r)"
proof
  assume "Rgetattr_DecodeFrom bs = Inr (m, r)"
  then show "\<exists>a p. m = Rgetattr a \<and> Rgetattr_EncodeTo a = Inr p \<and> bs = p @ r"
    by (clarsimp simp: Rgetattr_DecodeFrom_def codec_iff)
      (simp add: Rgetattr_EncodeTo_def rbind_Inr_iff codec_iff)
next
  assume "\<exists>a p. m = Rgetattr a \<and> Rgetattr_EncodeTo a = Inr p \<and> bs = p @ r"
  then show "Rgetattr_DecodeFrom bs = Inr (m, r)"
    by (clarsimp simp: Rgetattr_EncodeTo_def rbind_Inr_iff codec_iff)
      (simp add: Rgetattr_DecodeFrom_def codec_iff)
qed

lemma Tsetattr_Decode_iff:
  "Tsetattr_DecodeFrom bs = Inr (m, r) \<longleftrightarrow>
     (\<exists>f a p. m = Tsetattr f a \<and> Tsetattr_EncodeTo f a = Inr p \<and> bs = p @ r)"
proof
  assume "Tsetattr_DecodeFrom bs = Inr (m, r)"
  then show "\<exists>f a p. m = Tsetattr f a \<and> Tsetattr_EncodeTo f a = Inr p \<and> bs = p @ r"
    by (clarsimp simp: Tsetattr_DecodeFrom_def codec_iff)
      (simp add: Tsetattr_EncodeTo_def rbind_Inr_iff codec_iff)
next
  assume "\<exists>f a p. m = Tsetattr f a \<and> Tsetattr_EncodeTo f a = Inr p \<and> bs = p @ r"
  then show "Tsetattr_DecodeFrom bs = Inr (m, r)"
    by (clarsimp simp: Tsetattr_EncodeTo_def rbind_Inr_iff codec_iff)
      (simp add: Tsetattr_DecodeFrom_def codec_iff)
qed

lemma l_dec_iff:
  "l_DecodeFrom m0 bs = Inr (m, r) \<longleftrightarrow>
     l_ok m \<and> l_Type m = l_Type m0 \<and> (\<exists>p. l_EncodeTo m = Inr p \<and> bs = p @ r)"
  by (cases m0)
    (auto simp: l_Type_iff Rstatfs_Decode_iff Rgetattr_Decode_iff Tsetattr_Decode_iff
      Rreaddir_Decode_iff, auto simp: codec_defs codec_iff rbind_Inr_iff l_Type_iff not_less)

interpretation l: codec l_EncodeTo "l_DecodeFrom m0"
  "\<lambda>m. l_ok m \<and> l_Type m = l_Type m0" for m0
  by unfold_locales (simp add: l_dec_iff conj_assoc)

section \<open>Properties\<close>

text \<open>The body of \<^verbatim>\<open>Rgetattr\<close> always encodes to 153 bytes (its comment says
  160).\<close>

lemma Rgetattr_body_size: "\<exists>p. Rgetattr_EncodeTo a = Inr p \<and> length p = 153"
  by (simp add: Rgetattr_EncodeTo_def WriteUint64_def WriteUint32_def WriteQID_def WriteUint8_def)

text \<open>A lock request outside the protocol's ranges never gets past the decoder:
  whatever the bytes, a decoded \<^verbatim>\<open>Tlock\<close> has a lock type at most 2 and no flag
  other than block and reclaim.\<close>

lemma Tlock_decoded_valid:
  assumes "Tlock_DecodeFrom bs = Inr (Tlock f lt fl st ln pid cid, r)"
  shows "lt \<le> 2 \<and> fl AND NOT 3 = 0"
  using assms by (auto simp: Tlock_DecodeFrom_def codec_iff not_less)

end
