(* ===== verification/UMessages.thy ===== *)
theory UMessages
  imports BaseMessages
begin

text \<open>
  The 9P2000.u messages and the \<^verbatim>\<open>Stat\<close> structure
  (\<^verbatim>\<open>src/proto/p9u/messages.go\<close>). A stat carries its own 16-bit size and
  \<^verbatim>\<open>Rstat\<close>/\<^verbatim>\<open>Twstat\<close> prefix it with another, two larger: the decoders read
  both through limited readers and admit only stats whose two sizes are exact.
\<close>

section \<open>Stat\<close>

record Stat =
  Stat_Size :: u16
  Stat_Type :: u16
  Stat_Dev :: u32
  Stat_QID :: QID
  Stat_Mode :: u32
  Stat_Atime :: u32
  Stat_Mtime :: u32
  Stat_Length :: u64
  Stat_Name :: gostring
  Stat_UID :: gostring
  Stat_GID :: gostring
  Stat_MUID :: gostring
  Stat_Extension :: gostring
  Stat_NUid :: u32
  Stat_NGid :: u32
  Stat_NMuid :: u32

definition Stat_EncodedSize :: "Stat \<Rightarrow> u16 result" where
  "Stat_EncodedSize s =
     (let size = (39 :: u32)
        + (2 + of_nat (length (Stat_Name s)))
        + (2 + of_nat (length (Stat_UID s)))
        + (2 + of_nat (length (Stat_GID s)))
        + (2 + of_nat (length (Stat_MUID s)))
        + (2 + of_nat (length (Stat_Extension s)))
        + 12
      in if size > 65535 then Inl ErrStatTooLarge else Inr (ucast size))"

definition Stat_EncodeTo :: "Stat \<Rightarrow> writer" where
  "Stat_EncodeTo s = rbind (Stat_EncodedSize s) (\<lambda>encodedSize. wseq [
     WriteUint16 encodedSize, WriteUint16 (Stat_Type s), WriteUint32 (Stat_Dev s),
     WriteQID (Stat_QID s), WriteUint32 (Stat_Mode s), WriteUint32 (Stat_Atime s),
     WriteUint32 (Stat_Mtime s), WriteUint64 (Stat_Length s), WriteString (Stat_Name s),
     WriteString (Stat_UID s), WriteString (Stat_GID s), WriteString (Stat_MUID s),
     WriteString (Stat_Extension s), WriteUint32 (Stat_NUid s), WriteUint32 (Stat_NGid s),
     WriteUint32 (Stat_NMuid s)])"

definition Stat_DecodeFrom :: "Stat reader" where
  "Stat_DecodeFrom = rd_bind ReadUint16 (\<lambda>size. rd_limit (unat size) (
     rd_bind ReadUint16 (\<lambda>Type. rd_bind ReadUint32 (\<lambda>Dev. rd_bind ReadQID (\<lambda>Qid.
     rd_bind ReadUint32 (\<lambda>mode. rd_bind ReadUint32 (\<lambda>Atime. rd_bind ReadUint32 (\<lambda>Mtime.
     rd_bind ReadUint64 (\<lambda>Length. rd_bind ReadString (\<lambda>Name. rd_bind ReadString (\<lambda>UID.
     rd_bind ReadString (\<lambda>GID. rd_bind ReadString (\<lambda>MUID. rd_bind ReadString (\<lambda>Extension.
     rd_bind ReadUint32 (\<lambda>NUid. rd_bind ReadUint32 (\<lambda>NGid. rd_bind ReadUint32 (\<lambda>NMuid.
     rd_return \<lparr>Stat_Size = size, Stat_Type = Type, Stat_Dev = Dev, Stat_QID = Qid,
       Stat_Mode = mode, Stat_Atime = Atime, Stat_Mtime = Mtime, Stat_Length = Length,
       Stat_Name = Name, Stat_UID = UID, Stat_GID = GID, Stat_MUID = MUID,
       Stat_Extension = Extension, Stat_NUid = NUid, Stat_NGid = NGid, Stat_NMuid = NMuid\<rparr>
     )))))))))))))))))"

section \<open>Messages and type codes\<close>

datatype u_msg =
    Rerror gostring u32
  | Topen u32 u8
  | Ropen QID u32
  | Tcreate u32 gostring u32 u8 gostring
  | Rcreate QID u32
  | Tstat u32
  | Rstat Stat
  | Twstat u32 Stat
  | Rwstat

primrec u_Type :: "u_msg \<Rightarrow> u8" where
  "u_Type (Rerror _ _) = 107"
| "u_Type (Topen _ _) = 112"
| "u_Type (Ropen _ _) = 113"
| "u_Type (Tcreate _ _ _ _ _) = 114"
| "u_Type (Rcreate _ _) = 115"
| "u_Type (Tstat _) = 124"
| "u_Type (Rstat _) = 125"
| "u_Type (Twstat _ _) = 126"
| "u_Type Rwstat = 127"

section \<open>Encoders and decoders\<close>

definition Rerror_EncodeTo :: "gostring \<Rightarrow> u32 \<Rightarrow> writer" where [codec_defs]:
  "Rerror_EncodeTo Ename Errno = wseq [WriteString Ename, WriteUint32 Errno]"

definition Rerror_DecodeFrom :: "u_msg reader" where [codec_defs]:
  "Rerror_DecodeFrom = rd_bind ReadString (\<lambda>Ename. rd_bind ReadUint32 (\<lambda>v.
     rd_return (Rerror Ename v)))"

definition Topen_EncodeTo :: "u32 \<Rightarrow> u8 \<Rightarrow> writer" where [codec_defs]:
  "Topen_EncodeTo Fid Mode = wseq [WriteFid Fid, WriteUint8 Mode]"

definition Topen_DecodeFrom :: "u_msg reader" where [codec_defs]:
  "Topen_DecodeFrom = rd_bind ReadFid (\<lambda>fid. rd_bind ReadUint8 (\<lambda>Mode.
     rd_return (Topen fid Mode)))"

definition Ropen_EncodeTo :: "QID \<Rightarrow> u32 \<Rightarrow> writer" where [codec_defs]:
  "Ropen_EncodeTo Qid IOUnit = wseq [WriteQID Qid, WriteUint32 IOUnit]"

definition Ropen_DecodeFrom :: "u_msg reader" where [codec_defs]:
  "Ropen_DecodeFrom = rd_bind ReadQID (\<lambda>Qid. rd_bind ReadUint32 (\<lambda>IOUnit.
     rd_return (Ropen Qid IOUnit)))"

definition Tcreate_EncodeTo :: "u32 \<Rightarrow> gostring \<Rightarrow> u32 \<Rightarrow> u8 \<Rightarrow> gostring \<Rightarrow> writer" where [codec_defs]:
  "Tcreate_EncodeTo Fid Name Perm Mode Extension =
     wseq [WriteFid Fid, WriteString Name, WriteUint32 Perm, WriteUint8 Mode, WriteString Extension]"

definition Tcreate_DecodeFrom :: "u_msg reader" where [codec_defs]:
  "Tcreate_DecodeFrom = rd_bind ReadFid (\<lambda>fid. rd_bind ReadString (\<lambda>Name.
     rd_bind ReadUint32 (\<lambda>perm. rd_bind ReadUint8 (\<lambda>Mode. rd_bind ReadString (\<lambda>Extension.
     rd_return (Tcreate fid Name perm Mode Extension))))))"

definition Rcreate_EncodeTo :: "QID \<Rightarrow> u32 \<Rightarrow> writer" where [codec_defs]:
  "Rcreate_EncodeTo Qid IOUnit = wseq [WriteQID Qid, WriteUint32 IOUnit]"

definition Rcreate_DecodeFrom :: "u_msg reader" where [codec_defs]:
  "Rcreate_DecodeFrom = rd_bind ReadQID (\<lambda>Qid. rd_bind ReadUint32 (\<lambda>IOUnit.
     rd_return (Rcreate Qid IOUnit)))"

definition Tstat_EncodeTo :: "u32 \<Rightarrow> writer" where [codec_defs]:
  "Tstat_EncodeTo Fid = WriteFid Fid"

definition Tstat_DecodeFrom :: "u_msg reader" where [codec_defs]:
  "Tstat_DecodeFrom = rd_bind ReadFid (\<lambda>fid. rd_return (Tstat fid))"

text \<open>\<^verbatim>\<open>nstat := uint16(2) + encodedSize\<close> is 16-bit arithmetic.\<close>

definition Rstat_EncodeTo :: "Stat \<Rightarrow> writer" where [codec_defs]:
  "Rstat_EncodeTo s = rbind (Stat_EncodedSize s) (\<lambda>encodedSize.
     wseq [WriteUint16 (2 + encodedSize), Stat_EncodeTo s])"

definition Rstat_DecodeFrom :: "u_msg reader" where [codec_defs]:
  "Rstat_DecodeFrom = rd_bind ReadUint16 (\<lambda>nstat.
     rd_bind (rd_limit (unat nstat) Stat_DecodeFrom) (\<lambda>s. rd_return (Rstat s)))"

definition Twstat_EncodeTo :: "u32 \<Rightarrow> Stat \<Rightarrow> writer" where [codec_defs]:
  "Twstat_EncodeTo Fid s = wseq [WriteFid Fid, rbind (Stat_EncodedSize s) (\<lambda>encodedSize.
     wseq [WriteUint16 (2 + encodedSize), Stat_EncodeTo s])]"

definition Twstat_DecodeFrom :: "u_msg reader" where [codec_defs]:
  "Twstat_DecodeFrom = rd_bind ReadFid (\<lambda>fid. rd_bind ReadUint16 (\<lambda>nstat.
     rd_bind (rd_limit (unat nstat) Stat_DecodeFrom) (\<lambda>s. rd_return (Twstat fid s))))"

definition Rwstat_EncodeTo :: writer where [codec_defs]: "Rwstat_EncodeTo = Inr []"

definition Rwstat_DecodeFrom :: "u_msg reader" where [codec_defs]:
  "Rwstat_DecodeFrom = rd_return Rwstat"

section \<open>Method dispatch\<close>

primrec u_EncodeTo :: "u_msg \<Rightarrow> writer" where
  "u_EncodeTo (Rerror a b) = Rerror_EncodeTo a b"
| "u_EncodeTo (Topen a b) = Topen_EncodeTo a b"
| "u_EncodeTo (Ropen a b) = Ropen_EncodeTo a b"
| "u_EncodeTo (Tcreate a b c d e) = Tcreate_EncodeTo a b c d e"
| "u_EncodeTo (Rcreate a b) = Rcreate_EncodeTo a b"
| "u_EncodeTo (Tstat a) = Tstat_EncodeTo a"
| "u_EncodeTo (Rstat a) = Rstat_EncodeTo a"
| "u_EncodeTo (Twstat a b) = Twstat_EncodeTo a b"
| "u_EncodeTo Rwstat = Rwstat_EncodeTo"

primrec u_DecodeFrom :: "u_msg \<Rightarrow> u_msg reader" where
  "u_DecodeFrom (Rerror _ _) = Rerror_DecodeFrom"
| "u_DecodeFrom (Topen _ _) = Topen_DecodeFrom"
| "u_DecodeFrom (Ropen _ _) = Ropen_DecodeFrom"
| "u_DecodeFrom (Tcreate _ _ _ _ _) = Tcreate_DecodeFrom"
| "u_DecodeFrom (Rcreate _ _) = Rcreate_DecodeFrom"
| "u_DecodeFrom (Tstat _) = Tstat_DecodeFrom"
| "u_DecodeFrom (Rstat _) = Rstat_DecodeFrom"
| "u_DecodeFrom (Twstat _ _) = Twstat_DecodeFrom"
| "u_DecodeFrom Rwstat = Rwstat_DecodeFrom"

abbreviation "zero_Stat \<equiv> \<lparr>Stat_Size = 0, Stat_Type = 0, Stat_Dev = 0, Stat_QID = zero_QID,
  Stat_Mode = 0, Stat_Atime = 0, Stat_Mtime = 0, Stat_Length = 0, Stat_Name = [], Stat_UID = [],
  Stat_GID = [], Stat_MUID = [], Stat_Extension = [], Stat_NUid = 0, Stat_NGid = 0,
  Stat_NMuid = 0\<rparr>"

definition newUMsg :: "u8 \<Rightarrow> u_msg option" where
  "newUMsg t =
     (if t = 107 then Some (Rerror [] 0)
      else if t = 112 then Some (Topen 0 0)
      else if t = 113 then Some (Ropen zero_QID 0)
      else if t = 114 then Some (Tcreate 0 [] 0 0 [])
      else if t = 115 then Some (Rcreate zero_QID 0)
      else if t = 124 then Some (Tstat 0)
      else if t = 125 then Some (Rstat zero_Stat)
      else if t = 126 then Some (Twstat 0 zero_Stat)
      else if t = 127 then Some Rwstat
      else None)"

section \<open>The size of a stat\<close>

text \<open>The length of the fields after the size prefix, as a natural number.\<close>

definition stat_len :: "Stat \<Rightarrow> nat" where
  "stat_len s = 61 + length (Stat_Name s) + length (Stat_UID s) + length (Stat_GID s)
     + length (Stat_MUID s) + length (Stat_Extension s)"

abbreviation "stat_strings_ok s \<equiv>
  length (Stat_Name s) \<le> 65535 \<and> length (Stat_UID s) \<le> 65535 \<and> length (Stat_GID s) \<le> 65535
  \<and> length (Stat_MUID s) \<le> 65535 \<and> length (Stat_Extension s) \<le> 65535"

lemma EncodedSize_iff:
  assumes "stat_strings_ok s"
  shows "Stat_EncodedSize s = Inr sz \<longleftrightarrow> stat_len s \<le> 65535 \<and> sz = of_nat (stat_len s)"
proof -
  have eq: "(39 :: u32) + (2 + of_nat (length (Stat_Name s))) + (2 + of_nat (length (Stat_UID s)))
    + (2 + of_nat (length (Stat_GID s))) + (2 + of_nat (length (Stat_MUID s)))
    + (2 + of_nat (length (Stat_Extension s))) + 12 = of_nat (stat_len s)"
    by (simp add: stat_len_def)
  have small: "stat_len s < 2 ^ 32"
    using assms by (simp add: stat_len_def)
  have gt: "(of_nat (stat_len s) :: u32) > 65535 \<longleftrightarrow> stat_len s > 65535"
    using small by (simp add: word_less_nat_alt)
  have "(ucast (of_nat (stat_len s) :: u32) :: u16) = of_nat (stat_len s)"
    using small by (simp add: unsigned_of_nat take_bit_nat_def)
  then show ?thesis
    unfolding Stat_EncodedSize_def Let_def eq gt by auto
qed

definition stat_body :: "Stat \<Rightarrow> bytes" where
  "stat_body s = le_bytes 2 (Stat_Type s) @ le_bytes 4 (Stat_Dev s)
     @ QID_Type (Stat_QID s) # le_bytes 4 (QID_Version (Stat_QID s))
     @ le_bytes 8 (QID_Path (Stat_QID s)) @ le_bytes 4 (Stat_Mode s) @ le_bytes 4 (Stat_Atime s)
     @ le_bytes 4 (Stat_Mtime s) @ le_bytes 8 (Stat_Length s)
     @ le_bytes 2 (of_nat (length (Stat_Name s)) :: u16) @ Stat_Name s
     @ le_bytes 2 (of_nat (length (Stat_UID s)) :: u16) @ Stat_UID s
     @ le_bytes 2 (of_nat (length (Stat_GID s)) :: u16) @ Stat_GID s
     @ le_bytes 2 (of_nat (length (Stat_MUID s)) :: u16) @ Stat_MUID s
     @ le_bytes 2 (of_nat (length (Stat_Extension s)) :: u16) @ Stat_Extension s
     @ le_bytes 4 (Stat_NUid s) @ le_bytes 4 (Stat_NGid s) @ le_bytes 4 (Stat_NMuid s)"

lemma length_stat_body: "length (stat_body s) = stat_len s"
  by (simp add: stat_body_def stat_len_def)

lemma Stat_EncodeTo_iff [codec_iff]:
  "Stat_EncodeTo s = Inr p \<longleftrightarrow>
     stat_strings_ok s \<and> stat_len s \<le> 65535 \<and> p = le_bytes 2 (of_nat (stat_len s) :: u16) @ stat_body s"
  by (auto simp: Stat_EncodeTo_def rbind_Inr_iff codec_iff stat_body_def EncodedSize_iff)

lemma Stat_DecodeFrom_iff [codec_iff]:
  "Stat_DecodeFrom bs = Inr (s, r) \<longleftrightarrow>
     Stat_Size s = of_nat (stat_len s) \<and> (\<exists>p. Stat_EncodeTo s = Inr p \<and> bs = p @ r)"
  (is "_ \<longleftrightarrow> ?R")
proof
  assume "Stat_DecodeFrom bs = Inr (s, r)"
  then have "stat_strings_ok s \<and> stat_len s = unat (Stat_Size s)
      \<and> bs = le_bytes 2 (Stat_Size s) @ stat_body s @ r"
    by (clarsimp simp: Stat_DecodeFrom_def codec_iff) (simp add: stat_body_def stat_len_def)
  then show ?R
    using unat_lt_16 [of "Stat_Size s"] by (auto simp: Stat_EncodeTo_iff unat_eq_u16)
next
  assume ?R
  then have ok: "stat_strings_ok s" and len: "stat_len s = unat (Stat_Size s)"
    and bs: "bs = le_bytes 2 (Stat_Size s) @ stat_body s @ r"
    by (auto simp: Stat_EncodeTo_iff)
  show "Stat_DecodeFrom bs = Inr (s, r)"
    unfolding Stat_DecodeFrom_def bs
    by (subst rd_bind_run, rule Read_run(2), rule rd_limit_run)
      (simp add: length_stat_body len, simp add: ok stat_body_def codec_run)
qed

interpretation stat: codec Stat_EncodeTo Stat_DecodeFrom "\<lambda>s. Stat_Size s = of_nat (stat_len s)"
  by unfold_locales (simp add: Stat_DecodeFrom_iff)

section \<open>Every decoder accepts exactly the encodings of its message\<close>

fun u_ok :: "u_msg \<Rightarrow> bool" where
  "u_ok (Rstat s) \<longleftrightarrow> Stat_Size s = of_nat (stat_len s) \<and> stat_len s \<le> 65533"
| "u_ok (Twstat _ s) \<longleftrightarrow> Stat_Size s = of_nat (stat_len s) \<and> stat_len s \<le> 65533"
| "u_ok _ \<longleftrightarrow> True"

lemma u_Type_iff:
  "u_Type m = 107 \<longleftrightarrow> (\<exists>a b. m = Rerror a b)"
  "u_Type m = 112 \<longleftrightarrow> (\<exists>a b. m = Topen a b)"
  "u_Type m = 113 \<longleftrightarrow> (\<exists>a b. m = Ropen a b)"
  "u_Type m = 114 \<longleftrightarrow> (\<exists>a b c d e. m = Tcreate a b c d e)"
  "u_Type m = 115 \<longleftrightarrow> (\<exists>a b. m = Rcreate a b)"
  "u_Type m = 124 \<longleftrightarrow> (\<exists>a. m = Tstat a)"
  "u_Type m = 125 \<longleftrightarrow> (\<exists>a. m = Rstat a)"
  "u_Type m = 126 \<longleftrightarrow> (\<exists>a b. m = Twstat a b)"
  "u_Type m = 127 \<longleftrightarrow> m = Rwstat"
  by (cases m; simp)+

lemma nstat_unat:
  "n \<le> 65535 \<Longrightarrow> unat (2 + of_nat n :: u16) = (if n \<le> 65533 then 2 + n else n - 65534)"
  by (auto simp: unat_word_ariths unat_of_nat take_bit_nat_def mod_if)

lemma nstat_limit_iff:
  "(\<exists>nstat bs'. bs = le_bytes 2 (nstat :: u16) @ bs' \<and> rd_limit (unat nstat) Stat_DecodeFrom bs' = Inr (s, r)) \<longleftrightarrow>
     Stat_Size s = of_nat (stat_len s) \<and> stat_len s \<le> 65533 \<and> stat_strings_ok s
     \<and> bs = le_bytes 2 (2 + of_nat (stat_len s) :: u16) @ le_bytes 2 (of_nat (stat_len s) :: u16)
            @ stat_body s @ r" (is "?L \<longleftrightarrow> ?R")
proof
  assume ?L
  then obtain nstat :: u16 where "Stat_Size s = of_nat (stat_len s)" "stat_strings_ok s"
    "stat_len s \<le> 65535" "unat nstat = 2 + stat_len s"
    "bs = le_bytes 2 nstat @ le_bytes 2 (of_nat (stat_len s) :: u16) @ stat_body s @ r"
    by (auto simp: codec_iff length_stat_body)
  moreover from this have "stat_len s \<le> 65533" using unat_lt_16 [of nstat] by linarith
  moreover from calculation have "nstat = 2 + of_nat (stat_len s)"
    by (simp add: word_unat_eq_iff nstat_unat)
  ultimately show ?R by simp
next
  assume ?R
  then show ?L
    by (intro exI [of _ "2 + of_nat (stat_len s)"] exI conjI, simp)
      (auto simp: rd_limit_iff Stat_DecodeFrom_iff Stat_EncodeTo_iff nstat_unat length_stat_body)
qed

lemma Rstat_Decode_iff:
  "Rstat_DecodeFrom bs = Inr (m, r) \<longleftrightarrow>
     (\<exists>s p. m = Rstat s \<and> u_ok (Rstat s) \<and> Rstat_EncodeTo s = Inr p \<and> bs = p @ r)"
proof -
  have "Rstat_DecodeFrom bs = Inr (m, r) \<longleftrightarrow> (\<exists>s. m = Rstat s \<and>
     (\<exists>nstat bs'. bs = le_bytes 2 (nstat :: u16) @ bs' \<and> rd_limit (unat nstat) Stat_DecodeFrom bs' = Inr (s, r)))"
    unfolding Rstat_DecodeFrom_def rd_bind_iff rd_return_iff Read_int_iff by auto
  also have "\<dots> \<longleftrightarrow> (\<exists>s p. m = Rstat s \<and> u_ok (Rstat s) \<and> Rstat_EncodeTo s = Inr p \<and> bs = p @ r)"
    unfolding nstat_limit_iff
    by (auto simp: Rstat_EncodeTo_def rbind_Inr_iff Write_iff Stat_EncodeTo_iff EncodedSize_iff)
  finally show ?thesis .
qed

lemma Twstat_Decode_iff:
  "Twstat_DecodeFrom bs = Inr (m, r) \<longleftrightarrow>
     (\<exists>f s p. m = Twstat f s \<and> u_ok (Twstat f s) \<and> Twstat_EncodeTo f s = Inr p \<and> bs = p @ r)"
proof -
  have "Twstat_DecodeFrom bs = Inr (m, r) \<longleftrightarrow> (\<exists>f s bs0. bs = le_bytes 4 f @ bs0 \<and> m = Twstat f s \<and>
     (\<exists>nstat bs'. bs0 = le_bytes 2 (nstat :: u16) @ bs' \<and> rd_limit (unat nstat) Stat_DecodeFrom bs' = Inr (s, r)))"
    unfolding Twstat_DecodeFrom_def rd_bind_iff rd_return_iff Read_int_iff by auto
  also have "\<dots> \<longleftrightarrow> (\<exists>f s p. m = Twstat f s \<and> u_ok (Twstat f s) \<and> Twstat_EncodeTo f s = Inr p \<and> bs = p @ r)"
    unfolding nstat_limit_iff
    by (auto simp: Twstat_EncodeTo_def rbind_Inr_iff Write_iff Stat_EncodeTo_iff EncodedSize_iff)
  finally show ?thesis .
qed

lemma u_dec_iff:
  "u_DecodeFrom m0 bs = Inr (m, r) \<longleftrightarrow>
     u_ok m \<and> u_Type m = u_Type m0 \<and> (\<exists>p. u_EncodeTo m = Inr p \<and> bs = p @ r)"
  by (cases m0) (auto simp: u_Type_iff Rstat_Decode_iff Twstat_Decode_iff,
    auto simp: codec_defs codec_iff rbind_Inr_iff u_Type_iff)

interpretation u: codec u_EncodeTo "u_DecodeFrom m0" "\<lambda>m. u_ok m \<and> u_Type m = u_Type m0" for m0
  by unfold_locales (simp add: u_dec_iff conj_assoc)

section \<open>Properties\<close>



text \<open>Outside that corner a stat round-trips inside \<^verbatim>\<open>Rstat\<close>: if the size field
  is right and the encoded size is at most 65533, what is encoded is decoded.\<close>

lemma Rstat_roundtrip:
  assumes "Rstat_EncodeTo s = Inr p" "Stat_EncodedSize s = Inr (Stat_Size s)" "Stat_Size s \<le> 65533"
  shows "Rstat_DecodeFrom (p @ r) = Inr (Rstat s, r)"
proof -
  have ok: "stat_strings_ok s"
    using assms(1) by (auto simp: Rstat_EncodeTo_def rbind_Inr_iff codec_iff)
  then have "Stat_Size s = of_nat (stat_len s)" "stat_len s \<le> 65533"
    using assms(2,3) by (auto simp: EncodedSize_iff word_le_nat_alt)
  then show ?thesis using assms(1) by (auto simp: Rstat_Decode_iff)
qed

end
