(* ===== verification/Frame.thy ===== *)
theory Frame
  imports LMessages UMessages
begin

text \<open>
  Framing (\<^verbatim>\<open>src/proto/frame.go\<close>, \<^verbatim>\<open>src/proto/p9l/codec.go\<close>,
  \<^verbatim>\<open>src/proto/p9u/codec.go\<close>). The locale \<^verbatim>\<open>dialect\<close> says what
  \<^verbatim>\<open>DecodeFrame\<close> needs of the \<^verbatim>\<open>newMessage\<close> function it is called with; in it
  the frame decoder is proved to be a codec again, so that whole streams of
  frames round-trip. Both dialects are interpreted.
\<close>

section \<open>Messages of either dialect\<close>

datatype message = Base base_msg | L l_msg | U u_msg

primrec Type :: "message \<Rightarrow> u8" where
  "Type (Base m) = base_Type m"
| "Type (L m) = l_Type m"
| "Type (U m) = u_Type m"

primrec EncodeTo :: "message \<Rightarrow> writer" where
  "EncodeTo (Base m) = base_EncodeTo m"
| "EncodeTo (L m) = l_EncodeTo m"
| "EncodeTo (U m) = u_EncodeTo m"

definition rd_map :: "('a \<Rightarrow> 'b) \<Rightarrow> 'a reader \<Rightarrow> 'b reader" where
  "rd_map f p = rd_bind p (\<lambda>x. rd_return (f x))"

primrec DecodeFrom :: "message \<Rightarrow> message reader" where
  "DecodeFrom (Base m) = rd_map Base (base_DecodeFrom m)"
| "DecodeFrom (L m) = rd_map L (l_DecodeFrom m)"
| "DecodeFrom (U m) = rd_map U (u_DecodeFrom m)"

definition p9l_newMessage :: "u8 \<Rightarrow> message result" where
  "p9l_newMessage t = (case newLMsg t of
       Some m \<Rightarrow> Inr (L m)
     | None \<Rightarrow> (case NewBaseMessage t of
         Some m \<Rightarrow> Inr (Base m)
       | None \<Rightarrow> Inl ErrUnknownType))"

definition p9u_newMessage :: "u8 \<Rightarrow> message result" where
  "p9u_newMessage t = (case newUMsg t of
       Some m \<Rightarrow> Inr (U m)
     | None \<Rightarrow> (case NewBaseMessage t of
         Some m \<Rightarrow> Inr (Base m)
       | None \<Rightarrow> Inl ErrUnknownType))"

section \<open>Frames\<close>

definition MaxMessageSize :: nat where
  "MaxMessageSize = HeaderSize + MaxDataSize + 4096"

definition EncodeFrame :: "u16 \<Rightarrow> message \<Rightarrow> writer" where
  "EncodeFrame tag msg = rbind (EncodeTo msg) (\<lambda>body.
     Inr (le_bytes 4 (of_nat (HeaderSize + length body) :: u32) @ [Type msg] @ le_bytes 2 tag @ body))"

definition DecodeFrame :: "(u8 \<Rightarrow> message result) \<Rightarrow> (u16 \<times> message) reader" where
  "DecodeFrame newMessage = rd_bind ReadUint32 (\<lambda>size.
     if unat size < HeaderSize then rd_fail ErrFrameTooSmall
     else if unat size > MaxMessageSize then rd_fail ErrFrameTooLarge
     else rd_bind ReadUint8 (\<lambda>msgType. rd_bind ReadUint16 (\<lambda>tag.
       case newMessage msgType of
         Inl e \<Rightarrow> rd_fail e
       | Inr msg \<Rightarrow> rd_bind (ReadFull (unat size - HeaderSize)) (\<lambda>buf.
           case DecodeFrom msg buf of
             Inl e \<Rightarrow> rd_fail e
           | Inr (m, rest) \<Rightarrow>
               if rest \<noteq> [] then rd_fail ErrTrailingBytes else rd_return (tag, m)))))"

definition p9l_Encode :: "u16 \<Rightarrow> message \<Rightarrow> writer" where "p9l_Encode = EncodeFrame"
definition p9l_Decode :: "(u16 \<times> message) reader" where "p9l_Decode = DecodeFrame p9l_newMessage"
definition p9u_Encode :: "u16 \<Rightarrow> message \<Rightarrow> writer" where "p9u_Encode = EncodeFrame"
definition p9u_Decode :: "(u16 \<times> message) reader" where "p9u_Decode = DecodeFrame p9u_newMessage"

section \<open>What framing needs of a dialect\<close>

locale dialect =
  fixes newMessage :: "u8 \<Rightarrow> message result"
    and speaks :: "message \<Rightarrow> bool"
  assumes body: "newMessage t = Inr m0 \<Longrightarrow>
      codec EncodeTo (DecodeFrom m0) (\<lambda>m. speaks m \<and> Type m = t)"
    and known: "speaks m \<Longrightarrow> \<exists>m0. newMessage (Type m) = Inr m0"
    and fits: "speaks m \<Longrightarrow> EncodeTo m = Inr p \<Longrightarrow> HeaderSize + length p \<le> MaxMessageSize"
begin

lemma frame_iff:
  "DecodeFrame newMessage bs = Inr ((tag, m), r) \<longleftrightarrow>
     speaks m \<and> (\<exists>p. EncodeFrame tag m = Inr p \<and> bs = p @ r)"
proof
  assume "DecodeFrame newMessage bs = Inr ((tag, m), r)"
  then obtain size t m0 buf where dec:
    "HeaderSize \<le> unat size" "newMessage t = Inr m0" "DecodeFrom m0 buf = Inr (m, [])"
    "length buf = unat size - HeaderSize"
    "bs = le_bytes 4 (size :: u32) @ t # le_bytes 2 tag @ buf @ r"
    by (auto simp: DecodeFrame_def codec_iff not_less)
  then have m: "speaks m" "Type m = t" "EncodeTo m = Inr buf"
    using codec.dec_iff [OF body [OF dec(2)], of buf m "[]"] by auto
  have "size = of_nat (HeaderSize + length buf)"
    using dec by (simp add: word_unat_eq_iff)
  then show "speaks m \<and> (\<exists>p. EncodeFrame tag m = Inr p \<and> bs = p @ r)"
    using m dec(5) by (simp add: EncodeFrame_def)
next
  assume R: "speaks m \<and> (\<exists>p. EncodeFrame tag m = Inr p \<and> bs = p @ r)"
  then obtain buf where enc: "EncodeTo m = Inr buf"
    and bs: "bs = le_bytes 4 (of_nat (HeaderSize + length buf) :: u32) @ Type m # le_bytes 2 tag @ buf @ r"
    by (auto simp: EncodeFrame_def rbind_Inr_iff)
  obtain m0 where m0: "newMessage (Type m) = Inr m0" using R known by blast
  have dec: "DecodeFrom m0 buf = Inr (m, [])"
    using codec.roundtrip_exact [OF body [OF m0]] R enc by simp
  have fit: "HeaderSize + length buf \<le> MaxMessageSize" using fits R enc by blast
  moreover have "MaxMessageSize < 2 ^ 32"
    by (simp add: MaxMessageSize_def proto_consts)
  ultimately have sz: "unat (of_nat (HeaderSize + length buf) :: u32) = HeaderSize + length buf"
    by (intro unat_of_nat_small) simp
  have "rd_bind (ReadFull (length buf)) f (buf @ r) = f buf r" for f :: "bytes \<Rightarrow> (u16 \<times> message) reader"
    by (rule rd_bind_run) (simp add: ReadFull_iff)
  then show "DecodeFrame newMessage bs = Inr ((tag, m), r)"
    using sz fit unfolding bs DecodeFrame_def
    by (simp add: codec_run not_less m0 dec)
qed

end

sublocale dialect \<subseteq> frame: codec "\<lambda>(tag, m). EncodeFrame tag m" "DecodeFrame newMessage"
  "\<lambda>(tag, m). speaks m"
  by unfold_locales (auto simp: frame_iff)

context dialect
begin

text \<open>A stream of frames decodes to the messages that were written, in order,
  and leaves what follows them.\<close>

lemma stream_roundtrip:
  assumes "list_all (\<lambda>(tag, m). speaks m) ms"
    and "wseq (map (\<lambda>(tag, m). EncodeFrame tag m) ms) = Inr p"
  shows "rd_many (length ms) (DecodeFrame newMessage) (p @ r) = Inr (ms, r)"
  using assms by (simp add: frame.rd_many_iff)

end

section \<open>Both dialects fit\<close>

lemma wseq_length_le:
  assumes "\<And>x p. x \<in> set xs \<Longrightarrow> f x = Inr p \<Longrightarrow> length p \<le> k"
    and "wseq (map f xs) = Inr bs"
  shows "length bs \<le> length xs * k"
  using assms
proof (induction xs arbitrary: bs)
  case (Cons x xs)
  then obtain b c where "f x = Inr b" "wseq (map f xs) = Inr c" "bs = b @ c"
    by (auto simp: rbind_Inr_iff)
  moreover have "length c \<le> length xs * k"
    using Cons.prems(1) calculation(2) by (intro Cons.IH) auto
  moreover have "length b \<le> k" using Cons.prems(1) [of x b] calculation by simp
  ultimately show ?case by simp
qed simp

lemma base_fits:
  assumes "base_EncodeTo m = Inr p"
  shows "HeaderSize + length p \<le> MaxMessageSize"
proof (cases m)
  case (Twalk a b c)
  have "length d \<le> length c * 65537" if "wseq (map WriteString c) = Inr d" for d
    by (rule wseq_length_le [OF _ that]) (auto simp: Write_iff)
  moreover have "length c \<le> 16" using assms Twalk
    by (auto simp: codec_defs codec_iff proto_consts)
  ultimately show ?thesis using assms Twalk
    by (fastforce simp: codec_defs codec_iff rbind_Inr_iff wseq_append proto_consts MaxMessageSize_def)
next
  case (Rwalk c)
  have "length d \<le> length c * 13" if "wseq (map WriteQID c) = Inr d" for d
    by (rule wseq_length_le [OF _ that]) (auto simp: Write_iff)
  moreover have "length c \<le> 16" using assms Rwalk
    by (auto simp: codec_defs codec_iff proto_consts)
  ultimately show ?thesis using assms Rwalk
    by (fastforce simp: codec_defs codec_iff rbind_Inr_iff wseq_append proto_consts MaxMessageSize_def)
qed (use assms in \<open>auto simp: codec_defs codec_iff rbind_Inr_iff proto_consts MaxMessageSize_def\<close>)

lemma l_fits: "l_EncodeTo m = Inr p \<Longrightarrow> HeaderSize + length p \<le> MaxMessageSize"
  by (cases m) (auto simp: codec_defs codec_iff rbind_Inr_iff proto_consts MaxMessageSize_def)

lemma u_fits: "u_EncodeTo m = Inr p \<Longrightarrow> HeaderSize + length p \<le> MaxMessageSize"
  by (cases m)
    (auto simp: codec_defs codec_iff rbind_Inr_iff proto_consts MaxMessageSize_def length_stat_body)

lemma EncodeTo_fits: "EncodeTo m = Inr p \<Longrightarrow> HeaderSize + length p \<le> MaxMessageSize"
  by (cases m) (auto intro: base_fits l_fits u_fits)

section \<open>The dialects\<close>

lemma NewBaseMessage_Type: "NewBaseMessage t = Some m \<Longrightarrow> base_Type m = t"
  by (auto simp: NewBaseMessage_def split: if_splits)

lemma newLMsg_Type: "newLMsg t = Some m \<Longrightarrow> l_Type m = t"
  by (auto simp: newLMsg_def split: if_splits)

lemma newUMsg_Type: "newUMsg t = Some m \<Longrightarrow> u_Type m = t"
  by (auto simp: newUMsg_def split: if_splits)

lemma NewBaseMessage_known: "\<exists>m0. NewBaseMessage (base_Type m) = Some m0"
  by (cases m) (simp_all add: NewBaseMessage_def)

lemma newLMsg_known: "\<exists>m0. newLMsg (l_Type m) = Some m0"
  by (cases m) (simp_all add: newLMsg_def)

lemma newUMsg_known: "\<exists>m0. newUMsg (u_Type m) = Some m0"
  by (cases m) (simp_all add: newUMsg_def)

lemma newLMsg_base [simp]: "newLMsg (base_Type m) = None"
  by (cases m) (simp_all add: newLMsg_def)

lemma newUMsg_base [simp]: "newUMsg (base_Type m) = None"
  by (cases m) (simp_all add: newUMsg_def)

lemma NewBaseMessage_l [simp]: "NewBaseMessage (l_Type m) = None"
  by (cases m) (simp_all add: NewBaseMessage_def)

lemma NewBaseMessage_u [simp]: "NewBaseMessage (u_Type m) = None"
  by (cases m) (simp_all add: NewBaseMessage_def)

lemma Type_distinct [simp]:
  "base_Type b \<noteq> l_Type l" "l_Type l \<noteq> base_Type b"
  "base_Type b \<noteq> u_Type u" "u_Type u \<noteq> base_Type b"
  using newLMsg_base [of b] newLMsg_known [of l] newUMsg_base [of b] newUMsg_known [of u]
  by (metis option.simps(3))+

lemma rd_map_iff [codec_iff]: "rd_map f p bs = Inr (y, r) \<longleftrightarrow> (\<exists>x. p bs = Inr (x, r) \<and> y = f x)"
  by (auto simp: rd_map_def codec_iff)

primrec p9l_speaks :: "message \<Rightarrow> bool" where
  "p9l_speaks (Base m) \<longleftrightarrow> True"
| "p9l_speaks (L m) \<longleftrightarrow> l_ok m"
| "p9l_speaks (U m) \<longleftrightarrow> False"

primrec p9u_speaks :: "message \<Rightarrow> bool" where
  "p9u_speaks (Base m) \<longleftrightarrow> True"
| "p9u_speaks (L m) \<longleftrightarrow> False"
| "p9u_speaks (U m) \<longleftrightarrow> u_ok m"

interpretation p9l: dialect p9l_newMessage p9l_speaks
proof (unfold_locales, goal_cases)
  case (1 t m0 bs x r)
  then consider (l) l where "m0 = L l" "l_Type l = t" | (b) b where "m0 = Base b" "base_Type b = t"
    by (auto simp: p9l_newMessage_def split: option.splits dest: newLMsg_Type NewBaseMessage_Type)
  then show ?case
  proof cases
    case l
    then show ?thesis using l by (cases x) (auto simp: codec_iff l_dec_iff)
  next
    case b
    then show ?thesis using b by (cases x) (auto simp: codec_iff base_dec_iff)
  qed
next
  case (2 m)
  then show ?case using newLMsg_known NewBaseMessage_known
    by (cases m) (fastforce simp: p9l_newMessage_def split: option.splits)+
next
  case (3 m p)
  then show ?case by (simp add: EncodeTo_fits)
qed

interpretation p9u: dialect p9u_newMessage p9u_speaks
proof (unfold_locales, goal_cases)
  case (1 t m0 bs x r)
  then consider (u) u where "m0 = U u" "u_Type u = t" | (b) b where "m0 = Base b" "base_Type b = t"
    by (auto simp: p9u_newMessage_def split: option.splits dest: newUMsg_Type NewBaseMessage_Type)
  then show ?case
  proof cases
    case u
    then show ?thesis using u by (cases x) (auto simp: codec_iff u_dec_iff)
  next
    case b
    then show ?thesis using b by (cases x) (auto simp: codec_iff base_dec_iff)
  qed
next
  case (2 m)
  then show ?case using newUMsg_known NewBaseMessage_known
    by (cases m) (fastforce simp: p9u_newMessage_def split: option.splits)+
next
  case (3 m p)
  then show ?case by (simp add: EncodeTo_fits)
qed

section \<open>Properties\<close>

text \<open>C7. \<^verbatim>\<open>p9l.Decode\<close> returns a message exactly when its input starts with the
  frame \<^verbatim>\<open>p9l.Encode\<close> writes for that tag and message, the message being one the
  dialect admits; the rest of the input is left in the reader. So encode then
  decode is the identity, nothing else decodes, and no overstated or understated
  frame size is accepted.\<close>

theorem p9l_Decode_exact:
  "p9l_Decode bs = Inr ((tag, m), r) \<longleftrightarrow>
     p9l_speaks m \<and> (\<exists>p. p9l_Encode tag m = Inr p \<and> bs = p @ r)"
  unfolding p9l_Decode_def p9l_Encode_def by (rule p9l.frame_iff)

text \<open>C20. The same for 9P2000.u; admissible are the stats whose size field is
  right and whose outer size does not overflow.\<close>

theorem p9u_Decode_exact:
  "p9u_Decode bs = Inr ((tag, m), r) \<longleftrightarrow>
     p9u_speaks m \<and> (\<exists>p. p9u_Encode tag m = Inr p \<and> bs = p @ r)"
  unfolding p9u_Decode_def p9u_Encode_def by (rule p9u.frame_iff)

text \<open>C21. A sequence of 9P2000.L frames written one after another decodes, frame
  by frame, to the tags and messages that were written, and leaves what follows.\<close>

theorem p9l_stream_roundtrip:
  assumes "list_all (\<lambda>(tag, m). p9l_speaks m) ms"
    and "wseq (map (\<lambda>(tag, m). p9l_Encode tag m) ms) = Inr p"
  shows "rd_many (length ms) p9l_Decode (p @ r) = Inr (ms, r)"
  using assms unfolding p9l_Decode_def p9l_Encode_def by (rule p9l.stream_roundtrip)

theorem p9l_stream_roundtrip_witness:
  "\<exists>p. wseq (map (\<lambda>(tag, m). p9l_Encode tag m) [(1, Base (Tclunk 7)), (2, L (Tlopen 7 0))]) = Inr p
     \<and> rd_many 2 p9l_Decode (p @ [9]) = Inr ([(1, Base (Tclunk 7)), (2, L (Tlopen 7 0))], [9])"
proof -
  obtain p where p: "wseq (map (\<lambda>(tag, m). p9l_Encode tag m)
      [(1, Base (Tclunk 7)), (2, L (Tlopen 7 0))]) = Inr p"
    by (simp add: p9l_Encode_def EncodeFrame_def codec_defs WriteFid_def WriteUint32_def)
  show ?thesis
    using p9l_stream_roundtrip [OF _ p, of "[9]"] p
    by (intro exI [of _ p]) (simp add: numeral_2_eq_2)
qed

text \<open>C32. No message an encoder can produce is too large for the decoder: every
  encoded body, with its header, is within \<^verbatim>\<open>MaxMessageSize\<close> (the claim of the
  comment on that constant).\<close>

theorem encoded_fits_MaxMessageSize:
  assumes "EncodeFrame tag m = Inr p"
  shows "length p \<le> MaxMessageSize"
  using assms EncodeTo_fits [of m]
  by (auto simp: EncodeFrame_def rbind_Inr_iff HeaderSize_def)

theorem encoded_fits_MaxMessageSize_witness:
  "\<exists>p. EncodeFrame 3 (Base (Rread [1, 2, 3])) = Inr p \<and> length p \<le> MaxMessageSize"
proof -
  obtain p where "EncodeFrame 3 (Base (Rread [1, 2, 3])) = Inr p"
    by (simp add: EncodeFrame_def codec_defs WriteUint32_def WriteRaw_def proto_consts)
  then show ?thesis using encoded_fits_MaxMessageSize by blast
qed

text \<open>C33. A truncated 9P2000.L frame is an error: no strict prefix of an encoded
  frame decodes to anything.\<close>

theorem p9l_truncated_frame_rejected:
  assumes "p9l_speaks m" and "p9l_Encode tag m = Inr (p @ q)" and "q \<noteq> []"
  shows "\<exists>e. p9l_Decode p = Inl e"
  using assms p9l.frame.truncated_rejected [of "(tag, m)" p q]
  by (simp add: p9l_Decode_def p9l_Encode_def)

theorem p9l_truncated_frame_rejected_witness:
  "\<exists>e. p9l_Decode [7, 0, 0, 0, 121, 5] = Inl e"
  by (rule p9l_truncated_frame_rejected [of "Base Rclunk" 5 _ "[0]"])
    (simp, code_simp, simp)

end
