(* ===== verification/Dirents.thy ===== *)
theory Dirents
  imports Wire
begin

text \<open>
  Packed directory entries (\<^verbatim>\<open>src/proto/dirent.go\<close>): the packer used by the
  server's \<^verbatim>\<open>Treaddir\<close> handler and the parser used by the client. The packer
  writes into a caller's buffer at a running offset and is proved against a
  list-level specification; the parser is its inverse.
\<close>

section \<open>Packing\<close>

text \<open>The entry at one position: QID, offset, type, name length and name.\<close>

definition dirent_bytes :: "Dirent \<Rightarrow> bytes" where
  "dirent_bytes d =
     QID_Type (Dirent_QID d) # le_bytes 4 (QID_Version (Dirent_QID d))
     @ le_bytes 8 (QID_Path (Dirent_QID d)) @ le_bytes 8 (Dirent_Offset d)
     @ Dirent_Type d # le_bytes 2 (of_nat (length (Dirent_Name d)) :: u16) @ Dirent_Name d"

text \<open>Stores into a slice at an offset, as \<^verbatim>\<open>PutUint*\<close> and \<^verbatim>\<open>copy\<close> do; the length
  of the slice never changes.\<close>

definition store_at :: "bytes \<Rightarrow> nat \<Rightarrow> bytes \<Rightarrow> bytes" where
  "store_at dst off b = take off dst @ b @ drop (off + length b) dst"

primrec dirents_loop :: "Dirent list \<Rightarrow> bytes \<Rightarrow> nat \<Rightarrow> nat \<Rightarrow> bytes \<times> nat \<times> nat" where
  "dirents_loop [] dst off count = (dst, off, count)"
| "dirents_loop (d # ds) dst off count =
     (if length (Dirent_Name d) > 0xFFFF then dirents_loop ds dst off count
      else let entrySize = QIDSize + 8 + 1 + 2 + length (Dirent_Name d)
           in if off + entrySize > length dst then (dst, off, count)
              else dirents_loop ds (store_at dst off (dirent_bytes d)) (off + entrySize) (count + 1))"

definition EncodeDirentsInto :: "bytes \<Rightarrow> Dirent list \<Rightarrow> bytes \<times> nat \<times> nat" where
  "EncodeDirentsInto dst dirents = dirents_loop dirents dst 0 0"

text \<open>\<^verbatim>\<open>buf\<close> is the pooled buffer, at least \<^verbatim>\<open>maxBytes\<close> long with stale content.\<close>

definition EncodeDirents :: "bytes \<Rightarrow> Dirent list \<Rightarrow> u32 \<Rightarrow> bytes \<times> nat" where
  "EncodeDirents buf dirents maxBytes =
     (if dirents = [] then ([], 0)
      else case EncodeDirentsInto (take (unat maxBytes) buf) dirents of
        (dst, n, count) \<Rightarrow> (take n dst, count))"

section \<open>Parsing\<close>

definition minEntrySize :: nat where
  "minEntrySize = QIDSize + 8 + 1 + 2"

definition parse_header :: "bytes \<Rightarrow> gostring \<Rightarrow> Dirent" where
  "parse_header data name =
     \<lparr>Dirent_QID = \<lparr>QID_Type = data ! 0, QID_Version = le_word (take 4 (drop 1 data)),
        QID_Path = le_word (take 8 (drop 5 data))\<rparr>,
      Dirent_Offset = le_word (take 8 (drop QIDSize data)),
      Dirent_Type = data ! (QIDSize + 8),
      Dirent_Name = name\<rparr>"

function ParseDirents :: "bytes \<Rightarrow> Dirent list \<times> error option" where
  "ParseDirents data =
     (if data = [] then ([], None)
      else if length data < minEntrySize then ([], Some ErrDirentTruncated)
      else let nameLen = unat (le_word (take 2 (drop (QIDSize + 9) data)) :: u16)
           in if nameLen > length data - minEntrySize then ([], Some ErrDirentTruncated)
              else let d = parse_header data (take nameLen (drop minEntrySize data));
                       (out, err) = ParseDirents (drop (minEntrySize + nameLen) data)
                   in (d # out, err))"
  by pat_completeness auto
termination
  by (relation "measure length") (auto simp: minEntrySize_def QIDSize_def)

declare ParseDirents.simps [simp del]

section \<open>The packer against a list-level specification\<close>

abbreviation "nameable d \<equiv> length (Dirent_Name d) \<le> 0xFFFF"

text \<open>The longest prefix of the nameable entries that fits in \<^verbatim>\<open>room\<close> bytes.\<close>

fun packed :: "nat \<Rightarrow> Dirent list \<Rightarrow> Dirent list" where
  "packed room [] = []"
| "packed room (d # ds) =
     (if \<not> nameable d then packed room ds
      else if 24 + length (Dirent_Name d) > room then []
      else d # packed (room - (24 + length (Dirent_Name d))) ds)"

lemma length_dirent_bytes [simp, codec_len]: "length (dirent_bytes d) = 24 + length (Dirent_Name d)"
  by (simp add: dirent_bytes_def)

lemma dirent_bytes_not_Nil [simp]: "dirent_bytes d \<noteq> []"
  by (simp add: dirent_bytes_def)

lemma length_store_at [simp]:
  "off + length b \<le> length dst \<Longrightarrow> length (store_at dst off b) = length dst"
  by (simp add: store_at_def)

lemma take_store_at:
  "off + length b \<le> length dst \<Longrightarrow> take (off + length b) (store_at dst off b) = take off dst @ b"
  by (simp add: store_at_def)

lemma dirents_loop_spec:
  assumes "off \<le> length dst"
  shows "\<exists>dst'. dirents_loop ds dst off count =
      (dst', off + length (concat (map dirent_bytes (packed (length dst - off) ds))),
       count + length (packed (length dst - off) ds))
    \<and> length dst' = length dst
    \<and> take (off + length (concat (map dirent_bytes (packed (length dst - off) ds)))) dst'
       = take off dst @ concat (map dirent_bytes (packed (length dst - off) ds))"
  using assms
proof (induction ds arbitrary: dst off count)
  case (Cons d ds)
  let ?n = "24 + length (Dirent_Name d)"
  show ?case
  proof (cases "nameable d \<and> off + ?n \<le> length dst")
    case False
    then show ?thesis using Cons by (auto simp: QIDSize_def not_le Let_def)
  next
    case True
    let ?dst = "store_at dst off (dirent_bytes d)"
    have len: "length ?dst = length dst" using True by simp
    have room: "length ?dst - (off + ?n) = length dst - off - ?n" using len by simp
    have ts: "take (off + ?n) ?dst = take off dst @ dirent_bytes d"
      using take_store_at [of off "dirent_bytes d" dst] True by simp
    obtain dst' where "dirents_loop ds ?dst (off + ?n) (count + 1) =
        (dst', off + ?n + length (concat (map dirent_bytes (packed (length dst - off - ?n) ds))),
         count + 1 + length (packed (length dst - off - ?n) ds))"
      "length dst' = length dst"
      "take (off + ?n + length (concat (map dirent_bytes (packed (length dst - off - ?n) ds)))) dst'
         = take (off + ?n) ?dst @ concat (map dirent_bytes (packed (length dst - off - ?n) ds))"
      using Cons.IH [of "off + ?n" ?dst "count + 1"] True len unfolding room by auto
    then show ?thesis
      using True unfolding ts by (auto simp: QIDSize_def Let_def add.assoc)
  qed
qed simp

lemma EncodeDirentsInto_spec:
  obtains dst' where
    "EncodeDirentsInto dst ds =
       (dst', length (concat (map dirent_bytes (packed (length dst) ds))), length (packed (length dst) ds))"
    "length dst' = length dst"
    "take (length (concat (map dirent_bytes (packed (length dst) ds)))) dst'
       = concat (map dirent_bytes (packed (length dst) ds))"
  using dirents_loop_spec [of 0 dst ds 0] by (auto simp: EncodeDirentsInto_def)

lemma packed_fits: "length (concat (map dirent_bytes (packed room ds))) \<le> room"
  by (induction room ds rule: packed.induct) auto

lemma packed_nameable: "d \<in> set (packed room ds) \<Longrightarrow> nameable d"
  by (induction room ds rule: packed.induct) (auto split: if_splits)

lemma packed_prefix: "packed room ds = take (length (packed room ds)) (filter nameable ds)"
  by (induction room ds rule: packed.induct) auto

lemma packed_maximal:
  assumes "length (packed room ds) < length (filter nameable ds)"
  shows "room < length (concat (map dirent_bytes (packed room ds)))
           + length (dirent_bytes (filter nameable ds ! length (packed room ds)))"
  using assms by (induction room ds rule: packed.induct) (auto split: if_splits)

section \<open>The parser inverts the packer\<close>

lemma le_word_prefix:
  "LENGTH('a::len) = 8 * n \<Longrightarrow> le_word (take n (le_bytes n (w :: 'a word) @ r)) = w"
  by simp

lemma ParseDirents_Cons:
  assumes "nameable d"
  shows "ParseDirents (dirent_bytes d @ rest) =
     (let (out, err) = ParseDirents rest in (d # out, err))"
proof -
  let ?data = "dirent_bytes d @ rest"
  have h: "take 4 (drop 1 ?data) = le_bytes 4 (QID_Version (Dirent_QID d))"
    "take 8 (drop 5 ?data) = le_bytes 8 (QID_Path (Dirent_QID d))"
    "take 8 (drop QIDSize ?data) = le_bytes 8 (Dirent_Offset d)"
    "?data ! 0 = QID_Type (Dirent_QID d)"
    "?data ! (QIDSize + 8) = Dirent_Type d"
    "take 2 (drop (QIDSize + 9) ?data) = le_bytes 2 (of_nat (length (Dirent_Name d)) :: u16)"
    "drop minEntrySize ?data = Dirent_Name d @ rest"
    by (simp_all add: dirent_bytes_def QIDSize_def minEntrySize_def nth_append)
  then have hd: "parse_header ?data (Dirent_Name d) = d"
    by (simp add: parse_header_def)
  have "length ?data = 24 + length (Dirent_Name d) + length rest" by simp
  moreover have "drop (minEntrySize + length (Dirent_Name d)) ?data = rest"
    using h(7) by (metis add.commute append_eq_conv_conj drop_drop)
  ultimately show ?thesis
    using h(6,7) hd assms
    by (subst ParseDirents.simps) (auto simp: Let_def minEntrySize_def QIDSize_def split: prod.splits)
qed

lemma ParseDirents_concat:
  "(\<And>d. d \<in> set ds \<Longrightarrow> nameable d) \<Longrightarrow> ParseDirents (concat (map dirent_bytes ds)) = (ds, None)"
  by (induction ds) (simp_all add: ParseDirents.simps [of "[]"] ParseDirents_Cons)

text \<open>Conversely, whatever the parser returns was really in the data: the data are
  the packed entries it returned, followed by what it could not parse.\<close>

lemma dirent_bytes_header:
  assumes "minEntrySize + nameLen \<le> length data"
    and "nameLen = unat (le_word (take 2 (drop (QIDSize + 9) data)) :: u16)"
  shows "dirent_bytes (parse_header data (take nameLen (drop minEntrySize data)))
       = take (minEntrySize + nameLen) data"
proof -
  have le: "le_bytes 4 (le_word (take 4 (drop 1 data)) :: u32) = take 4 (drop 1 data)"
    "le_bytes 8 (le_word (take 8 (drop 5 data)) :: u64) = take 8 (drop 5 data)"
    "le_bytes 8 (le_word (take 8 (drop 13 data)) :: u64) = take 8 (drop 13 data)"
    "le_bytes 2 (le_word (take 2 (drop 22 data)) :: u16) = take 2 (drop 22 data)"
    using assms(1) le_bytes_le_word [of "take 4 (drop 1 data)", where 'a = 32]
      le_bytes_le_word [of "take 8 (drop 5 data)", where 'a = 64]
      le_bytes_le_word [of "take 8 (drop 13 data)", where 'a = 64]
      le_bytes_le_word [of "take 2 (drop 22 data)", where 'a = 16]
    by (simp_all add: minEntrySize_def QIDSize_def)
  have split: "take (24 + nameLen) data = data ! 0 # take 4 (drop 1 data) @ take 8 (drop 5 data)
      @ take 8 (drop 13 data) @ data ! 21 # take 2 (drop 22 data) @ take nameLen (drop 24 data)"
    using assms(1)
    by (simp add: minEntrySize_def QIDSize_def list_eq_iff_nth_eq nth_append nth_Cons')
      (clarify, rule arg_cong [where f = "(!) data"], presburger)
  have "length (take nameLen (drop 24 data)) = nameLen"
    using assms(1) by (simp add: minEntrySize_def QIDSize_def)
  then show ?thesis
    using assms le split
    by (simp add: dirent_bytes_def parse_header_def minEntrySize_def QIDSize_def)
qed

lemma ParseDirents_sound:
  "ParseDirents data = (out, err) \<Longrightarrow>
     \<exists>junk. data = concat (map dirent_bytes out) @ junk \<and> (err = None \<longleftrightarrow> junk = [])"
proof (induction data arbitrary: out rule: ParseDirents.induct)
  case (1 data)
  let ?nl = "unat (le_word (take 2 (drop (QIDSize + 9) data)) :: u16)"
  show ?case
  proof (cases "data = [] \<or> length data < minEntrySize \<or> ?nl > length data - minEntrySize")
    case True
    then show ?thesis using 1(2)
      by (subst (asm) ParseDirents.simps) (auto simp: Let_def split: if_splits)
  next
    case False
    obtain out' where p: "ParseDirents (drop (minEntrySize + ?nl) data) = (out', err)"
      and out: "out = parse_header data (take ?nl (drop minEntrySize data)) # out'"
      using False 1(2) by (subst (asm) ParseDirents.simps) (auto simp: Let_def split: prod.splits)
    obtain junk where "drop (minEntrySize + ?nl) data = concat (map dirent_bytes out') @ junk"
      "err = None \<longleftrightarrow> junk = []"
      using 1(1) [OF _ _ refl _ refl p] False by auto
    moreover have "minEntrySize + ?nl \<le> length data" using False by arith
    then have "dirent_bytes (hd out) = take (minEntrySize + ?nl) data"
      unfolding out list.sel by (intro dirent_bytes_header refl)
    ultimately show ?thesis
      by (intro exI [of _ junk]) (simp add: out, metis append_take_drop_id)
  qed
qed

section \<open>Properties\<close>

text \<open>C26. What the server packs is what the client parses: with a pooled buffer of
  any content, the packed bytes parse without error to the first \<^verbatim>\<open>count\<close>
  representable entries, they fit in \<^verbatim>\<open>maxBytes\<close>, and the packer stops only when
  the next representable entry does not fit.\<close>

theorem EncodeDirents_ParseDirents:
  assumes "unat maxBytes \<le> length buf" and "EncodeDirents buf ds maxBytes = (b, count)"
  shows "ParseDirents b = (take count (filter nameable ds), None)
    \<and> length b \<le> unat maxBytes
    \<and> count \<le> length (filter nameable ds)
    \<and> (count < length (filter nameable ds) \<longrightarrow>
         unat maxBytes < length b + length (dirent_bytes (filter nameable ds ! count)))"
proof -
  let ?dst = "take (unat maxBytes) buf"
  let ?p = "packed (unat maxBytes) ds"
  have len: "length ?dst = unat maxBytes" using assms(1) by simp
  obtain dst' where "EncodeDirentsInto ?dst ds = (dst', length (concat (map dirent_bytes ?p)), length ?p)"
    "take (length (concat (map dirent_bytes ?p))) dst' = concat (map dirent_bytes ?p)"
    using EncodeDirentsInto_spec [of ?dst ds] unfolding len by metis
  then have res: "b = concat (map dirent_bytes ?p)" "count = length ?p"
    using assms(2) by (auto simp: EncodeDirents_def split: if_splits)
  have parse: "ParseDirents b = (?p, None)"
    unfolding res by (rule ParseDirents_concat) (rule packed_nameable)
  have prefix: "?p = take count (filter nameable ds)"
    unfolding res by (rule packed_prefix)
  have "count \<le> length (filter nameable ds)"
    using prefix unfolding res by (metis length_take min.cobounded1)
  then show ?thesis
    using parse prefix packed_fits [of "unat maxBytes" ds] packed_maximal [of "unat maxBytes" ds]
    unfolding res by metis
qed

abbreviation "sample_dirent \<equiv> \<lparr>Dirent_QID = \<lparr>QID_Type = 0, QID_Version = 1, QID_Path = 2\<rparr>,
  Dirent_Offset = 1, Dirent_Type = 8, Dirent_Name = [97]\<rparr>"

theorem EncodeDirents_ParseDirents_witness:
  "ParseDirents (fst (EncodeDirents (replicate 40 7) [sample_dirent, sample_dirent] 32))
     = ([sample_dirent], None)"
proof -
  have e: "snd (EncodeDirents (replicate 40 7) [sample_dirent, sample_dirent] 32) = 1"
    by (simp add: EncodeDirents_def EncodeDirentsInto_def QIDSize_def Let_def)
  obtain b where b: "EncodeDirents (replicate 40 7) [sample_dirent, sample_dirent] 32 = (b, 1)"
    using e by (cases "EncodeDirents (replicate 40 7) [sample_dirent, sample_dirent] 32") auto
  show ?thesis
    using EncodeDirents_ParseDirents [OF _ b] by (simp add: b)
qed


end
