(* ===== verification/Inflight.thy ===== *)
theory Inflight
  imports Prelude "HOL-Library.Monad_Syntax"
begin

text \<open>
  The server's table of in-flight requests (\<^verbatim>\<open>src/server/flush.go\<close>). Channels are
  numbers with a set of closed ones, so that closing a closed channel is a
  panic (\<^verbatim>\<open>None\<close>); a request context is a number as well, reused through its
  pool. The second half is the system around the table: requests running
  through \<^verbatim>\<open>dispatchInline\<close>, \<^verbatim>\<open>Tflush\<close> handlers and drains interleaving freely.
\<close>

section \<open>The table\<close>

record inflightEntry =
  ent_rctx :: "nat option"
  ent_done :: "nat option"
  ent_committed :: bool

record inflightMap =
  entries :: "u16 \<rightharpoonup> inflightEntry"
  count :: int
  drained :: "nat option"
  chans :: nat
  closed :: "nat set"
  flushed :: "nat set"

definition newInflightMap :: inflightMap where
  "newInflightMap = \<lparr>entries = Map.empty, count = 0, drained = None, chans = 0,
     closed = {}, flushed = {}\<rparr>"

abbreviation "fresh_entry rctx \<equiv> \<lparr>ent_rctx = Some rctx, ent_done = None, ent_committed = False\<rparr>"
abbreviation "zero_entry \<equiv> \<lparr>ent_rctx = None, ent_done = None, ent_committed = False\<rparr>"

text \<open>Go's \<^verbatim>\<open>close\<close>, on a channel that may be nil where the source tests for it.\<close>

definition close_chan :: "nat \<Rightarrow> inflightMap \<Rightarrow> inflightMap option" where
  "close_chan c im = (if c \<in> closed im then None else Some (im\<lparr>closed := insert c (closed im)\<rparr>))"

primrec close_opt :: "nat option \<Rightarrow> inflightMap \<Rightarrow> inflightMap option" where
  "close_opt None im = Some im"
| "close_opt (Some c) im = close_chan c im"

definition start :: "u16 \<Rightarrow> nat \<Rightarrow> inflightMap \<Rightarrow> (bool \<times> inflightMap) option" where
  "start tag rctx im = (case entries im tag of
     Some entry \<Rightarrow>
       if \<not> ent_committed entry then Some (False, im)
       else do {
         im \<leftarrow> close_opt (ent_done entry) im;
         Some (True, im\<lparr>entries := (entries im)(tag \<mapsto> fresh_entry rctx)\<rparr>)
       }
   | None \<Rightarrow> Some (True, im\<lparr>entries := (entries im)(tag \<mapsto> fresh_entry rctx), count := count im + 1\<rparr>))"

text \<open>The drain signal shared by \<^verbatim>\<open>remove\<close> and \<^verbatim>\<open>completeCommit\<close>.\<close>

definition signal_drained :: "inflightMap \<Rightarrow> inflightMap option" where
  "signal_drained im =
     (if count im = 0 \<and> drained im \<noteq> None then do {
        im \<leftarrow> close_opt (drained im) im;
        Some (im\<lparr>drained := None\<rparr>)
      } else Some im)"

definition remove :: "u16 \<Rightarrow> inflightMap \<Rightarrow> (nat option \<times> inflightMap) option" where
  "remove tag im = do {
     let entry = (case entries im tag of Some e \<Rightarrow> e | None \<Rightarrow> zero_entry);
     im \<leftarrow> signal_drained (im\<lparr>entries := (entries im)(tag := None), count := count im - 1\<rparr>);
     Some (ent_done entry, im)
   }"

definition finish :: "u16 \<Rightarrow> inflightMap \<Rightarrow> inflightMap option" where
  "finish tag im = do { (d, im) \<leftarrow> remove tag im; close_opt d im }"

definition commit :: "u16 \<Rightarrow> inflightMap \<Rightarrow> inflightMap" where
  "commit tag im =
     (let entry = (case entries im tag of Some e \<Rightarrow> e | None \<Rightarrow> zero_entry)
      in im\<lparr>entries := (entries im)(tag \<mapsto> entry\<lparr>ent_committed := True\<rparr>)\<rparr>)"

definition completeCommit :: "u16 \<Rightarrow> nat \<Rightarrow> inflightMap \<Rightarrow> (nat option \<times> inflightMap) option" where
  "completeCommit tag rctx im = (case entries im tag of
     None \<Rightarrow> Some (None, im)
   | Some entry \<Rightarrow>
       if ent_rctx entry \<noteq> Some rctx then Some (None, im)
       else do {
         im \<leftarrow> signal_drained (im\<lparr>entries := (entries im)(tag := None), count := count im - 1\<rparr>);
         Some (ent_done entry, im)
       })"

definition drainChan :: "inflightMap \<Rightarrow> nat option \<times> inflightMap" where
  "drainChan im =
     (if count im = 0 then (None, im)
      else case drained im of
        Some d \<Rightarrow> (Some d, im)
      | None \<Rightarrow> (Some (chans im), im\<lparr>drained := Some (chans im), chans := chans im + 1\<rparr>))"

text \<open>\<^verbatim>\<open>flushWait\<close> dereferences the entry's request context: a nil one is a panic.\<close>

definition flushWait :: "u16 \<Rightarrow> inflightMap \<Rightarrow> (nat option \<times> inflightMap) option" where
  "flushWait tag im = (case entries im tag of
     None \<Rightarrow> Some (None, im)
   | Some entry \<Rightarrow> (case ent_rctx entry of
       None \<Rightarrow> None
     | Some rctx \<Rightarrow>
         let im = im\<lparr>flushed := insert rctx (flushed im)\<rparr>
         in case ent_done entry of
              Some c \<Rightarrow> Some (Some c, im)
            | None \<Rightarrow> Some (Some (chans im),
                im\<lparr>entries := (entries im)(tag \<mapsto> entry\<lparr>ent_done := Some (chans im)\<rparr>),
                   chans := chans im + 1\<rparr>)))"

definition cancelAll :: "inflightMap \<Rightarrow> inflightMap" where
  "cancelAll im = im\<lparr>flushed := flushed im \<union> {r. \<exists>tag e. entries im tag = Some e \<and> ent_rctx e = Some r}\<rparr>"

definition im_len :: "inflightMap \<Rightarrow> nat" where
  "im_len im = card (dom (entries im))"

section \<open>The requests around the table\<close>

text \<open>Where a request stands in \<^verbatim>\<open>dispatchInline\<close>: its handler runs; it panicked and
  the recovery wrote an error response; it committed and writes its response; it
  left the table and is about to close the channel it took from its entry.\<close>

datatype phase = Running | Panicked | Writing | Closing "nat option"

text \<open>\<^verbatim>\<open>live\<close> gives for each request context in use its tag, phase and serial
  number; \<^verbatim>\<open>waiting\<close> the channels \<^verbatim>\<open>Tflush\<close> handlers wait on with the serial
  number of the request flushed; \<^verbatim>\<open>draining\<close> the channels drains wait on;
  \<^verbatim>\<open>settled\<close> the requests whose response is written (or that have none), or whose
  tag the client has reused.\<close>

record sys =
  im :: inflightMap
  live :: "nat \<rightharpoonup> u16 \<times> phase \<times> nat"
  serial :: nat
  waiting :: "(nat \<times> nat) set"
  draining :: "nat set"
  settled :: "nat set"

definition sys_init :: sys where
  "sys_init = \<lparr>im = newInflightMap, live = Map.empty, serial = 0, waiting = {}, draining = {}, settled = {}\<rparr>"

text \<open>The serial number of the request an entry stands for.\<close>

definition owner :: "sys \<Rightarrow> u16 \<Rightarrow> nat set" where
  "owner s tag = (case entries (im s) tag of None \<Rightarrow> {} | Some e \<Rightarrow>
     (case ent_rctx e of None \<Rightarrow> {} | Some r \<Rightarrow>
        (case live s r of None \<Rightarrow> {} | Some (t, ph, n) \<Rightarrow> {n})))"

text \<open>The step relation follows \<^verbatim>\<open>handleRequest\<close>, \<^verbatim>\<open>dispatchInline\<close>,
  \<^verbatim>\<open>handleFlush\<close>, \<^verbatim>\<open>handleReVersion\<close> and \<^verbatim>\<open>cleanup\<close>; every step is one critical
  section of the table's mutex or the close of one channel.\<close>

inductive step :: "sys \<Rightarrow> sys \<Rightarrow> bool" where
  begin_request:
    "live s r = None \<Longrightarrow> start tag r (im s) = Some (True, im') \<Longrightarrow>
     step s (s\<lparr>im := im', live := (live s)(r \<mapsto> (tag, Running, serial s)), serial := serial s + 1,
               settled := settled s \<union> owner s tag\<rparr>)"
| panic_reply:
    "live s r = Some (tag, Running, n) \<Longrightarrow>
     step s (s\<lparr>live := (live s)(r \<mapsto> (tag, Panicked, n))\<rparr>)"
| finish_remove:
    "live s r = Some (tag, ph, n) \<Longrightarrow> ph = Running \<or> ph = Panicked \<Longrightarrow>
     remove tag (im s) = Some (d, im') \<Longrightarrow>
     step s (s\<lparr>im := im', live := (live s)(r \<mapsto> (tag, Closing d, n)), settled := insert n (settled s)\<rparr>)"
| begin_write:
    "live s r = Some (tag, Running, n) \<Longrightarrow>
     step s (s\<lparr>im := commit tag (im s), live := (live s)(r \<mapsto> (tag, Writing, n))\<rparr>)"
| end_write:
    "live s r = Some (tag, Writing, n) \<Longrightarrow> completeCommit tag r (im s) = Some (d, im') \<Longrightarrow>
     step s (s\<lparr>im := im', live := (live s)(r \<mapsto> (tag, Closing d, n)), settled := insert n (settled s)\<rparr>)"
| close_done:
    "live s r = Some (tag, Closing d, n) \<Longrightarrow> close_opt d (im s) = Some im' \<Longrightarrow>
     step s (s\<lparr>im := im'\<lparr>flushed := flushed im' - {r}\<rparr>, live := (live s)(r := None)\<rparr>)"
| flush:
    "flushWait tag (im s) = Some (Some c, im') \<Longrightarrow>
     step s (s\<lparr>im := im', waiting := waiting s \<union> ({c} \<times> owner s tag)\<rparr>)"
| cancel_all:
    "step s (s\<lparr>im := cancelAll (im s)\<rparr>)"
| drain:
    "drainChan (im s) = (Some d, im') \<Longrightarrow>
     step s (s\<lparr>im := im', draining := insert d (draining s)\<rparr>)"

inductive reachable :: "sys \<Rightarrow> bool" where
  reach_init: "reachable sys_init"
| reach_step: "reachable s \<Longrightarrow> step s s' \<Longrightarrow> reachable s'"

inductive_cases stepE: "step s s'"

section \<open>The invariant\<close>

text \<open>Who may close a channel: the entry of a tag, the drain slot, or the request
  that took the channel out of its entry.\<close>

datatype holder = HEntry u16 | HDrain | HClosing nat

primrec holds :: "sys \<Rightarrow> holder \<Rightarrow> nat \<Rightarrow> bool" where
  "holds s (HEntry t) c \<longleftrightarrow> (\<exists>e. entries (im s) t = Some e \<and> ent_done e = Some c)"
| "holds s HDrain c \<longleftrightarrow> drained (im s) = Some c"
| "holds s (HClosing r) c \<longleftrightarrow> (\<exists>t n. live s r = Some (t, Closing (Some c), n))"

declare holds.simps [simp del]

text \<open>Request \<^verbatim>\<open>n\<close>, in context \<^verbatim>\<open>r\<close>, is about to close channel \<^verbatim>\<open>c\<close>.\<close>

definition closes :: "sys \<Rightarrow> nat \<Rightarrow> nat \<Rightarrow> nat \<Rightarrow> bool" where
  "closes s r c n \<longleftrightarrow> (\<exists>t. live s r = Some (t, Closing (Some c), n))"

lemma closes_cong: "live s' = live s \<Longrightarrow> closes s' = closes s"
  by (simp add: closes_def fun_eq_iff)

text \<open>The request an entry stands for, and whether that request is in the phase
  the entry says.\<close>

definition occupies :: "sys \<Rightarrow> nat \<Rightarrow> u16 \<Rightarrow> bool \<Rightarrow> bool" where
  "occupies s r t b \<longleftrightarrow> (\<exists>n. live s r = Some (t, Writing, n)) \<and> b
     \<or> (\<exists>n. live s r = Some (t, Running, n) \<or> live s r = Some (t, Panicked, n)) \<and> \<not> b"

text \<open>What the table says of a tag, channels apart.\<close>

definition view :: "sys \<Rightarrow> u16 \<rightharpoonup> nat option \<times> bool" where
  "view s t = map_option (\<lambda>e. (ent_rctx e, ent_committed e)) (entries (im s) t)"

definition inv_table :: "sys \<Rightarrow> bool" where
  "inv_table s \<longleftrightarrow>
     finite (dom (view s)) \<and> count (im s) = int (card (dom (view s)))
     \<and> (\<forall>r t. occupies s r t False \<longrightarrow> view s t = Some (Some r, False))
     \<and> (\<forall>t x b. view s t = Some (x, b) \<longrightarrow> (\<exists>r. x = Some r \<and> occupies s r t b))"

definition inv_chan :: "sys \<Rightarrow> bool" where
  "inv_chan s \<longleftrightarrow>
     (\<forall>h c. holds s h c \<longrightarrow> c < chans (im s) \<and> c \<notin> closed (im s))
     \<and> (\<forall>h h' c. holds s h c \<longrightarrow> holds s h' c \<longrightarrow> h = h')
     \<and> (\<forall>c \<in> closed (im s). c < chans (im s))
     \<and> (drained (im s) \<noteq> None \<longrightarrow> count (im s) \<noteq> 0)"

definition inv_wait :: "sys \<Rightarrow> bool" where
  "inv_wait s \<longleftrightarrow>
     (\<forall>c n. (c, n) \<in> waiting s \<longrightarrow>
        c \<in> closed (im s) \<and> n \<in> settled s
        \<or> (\<exists>t. holds s (HEntry t) c \<and> n \<in> owner s t)
        \<or> (\<exists>r. closes s r c n \<and> n \<in> settled s))
     \<and> (\<forall>d \<in> draining s. d \<in> closed (im s) \<or> drained (im s) = Some d)"

definition inv_flushed :: "sys \<Rightarrow> bool" where
  "inv_flushed s \<longleftrightarrow> flushed (im s) \<subseteq> dom (live s)"

definition inv :: "sys \<Rightarrow> bool" where
  "inv s \<longleftrightarrow> inv_table s \<and> inv_chan s \<and> inv_wait s \<and> inv_flushed s"

lemmas inv_defs = inv_def inv_table_def inv_chan_def inv_wait_def inv_flushed_def

lemma all_holder: "(\<forall>h. P h) \<longleftrightarrow> (\<forall>t. P (HEntry t)) \<and> P HDrain \<and> (\<forall>r. P (HClosing r))"
  by (metis holder.exhaust)

lemma inv_init: "inv sys_init"
  by (auto simp: inv_defs sys_init_def newInflightMap_def all_holder occupies_def view_def holds.simps)

lemma inv_tableD:
  assumes "inv_table s"
  shows "occupies s r t False \<Longrightarrow> \<exists>e. entries (im s) t = Some e \<and> ent_rctx e = Some r \<and> \<not> ent_committed e"
    and "entries (im s) t = Some e \<Longrightarrow> \<exists>r. ent_rctx e = Some r \<and> occupies s r t (ent_committed e)"
  using assms by (fastforce simp: inv_table_def view_def)+

lemma inv_tableI:
  assumes "finite (dom (view s))" "count (im s) = int (card (dom (view s)))"
    and "\<And>r t. occupies s r t False \<Longrightarrow> view s t = Some (Some r, False)"
    and "\<And>t x b. view s t = Some (x, b) \<Longrightarrow> \<exists>r. x = Some r \<and> occupies s r t b"
  shows "inv_table s"
  using assms unfolding inv_table_def by blast

lemma viewD:
  assumes "inv_table s"
  shows "finite (dom (view s))" "count (im s) = int (card (dom (view s)))"
    and "occupies s r t False \<Longrightarrow> view s t = Some (Some r, False)"
    and "view s t = Some (x, b) \<Longrightarrow> \<exists>r. x = Some r \<and> occupies s r t b"
  using assms unfolding inv_table_def by blast+

lemma close_opt_iff:
  "close_opt d m = Some m' \<longleftrightarrow>
     set_option d \<inter> closed m = {} \<and> m' = m\<lparr>closed := set_option d \<union> closed m\<rparr>"
  by (cases d) (auto simp: close_chan_def)

lemma signal_drained_iff:
  "signal_drained m = Some m' \<longleftrightarrow>
     (if count m = 0 then set_option (drained m) \<inter> closed m = {} \<and>
        m' = m\<lparr>closed := set_option (drained m) \<union> closed m, drained := None\<rparr>
      else m' = m)"
  by (cases "drained m") (auto simp: signal_drained_def close_chan_def)

lemma inv_chanD:
  assumes "inv_chan s"
  shows "holds s h c \<Longrightarrow> c < chans (im s)" "holds s h c \<Longrightarrow> c \<notin> closed (im s)"
    and "holds s h c \<Longrightarrow> holds s h' c \<Longrightarrow> h = h'"
    and "drained (im s) \<noteq> None \<Longrightarrow> count (im s) \<noteq> 0"
    and "c \<in> closed (im s) \<Longrightarrow> c < chans (im s)"
  using assms unfolding inv_chan_def by blast+

lemma inv_chanI:
  assumes "\<And>h c. holds s h c \<Longrightarrow> c < chans (im s) \<and> c \<notin> closed (im s)"
    and "\<And>h h' c. holds s h c \<Longrightarrow> holds s h' c \<Longrightarrow> h = h'"
    and "\<And>c. c \<in> closed (im s) \<Longrightarrow> c < chans (im s)"
    and "drained (im s) \<noteq> None \<Longrightarrow> count (im s) \<noteq> 0"
  shows "inv_chan s"
  using assms unfolding inv_chan_def by blast

lemma inv_waitE:
  assumes "inv_wait s" "(c, n) \<in> waiting s"
  obtains (is_closed) "c \<in> closed (im s)" "n \<in> settled s"
    | (entry) t where "holds s (HEntry t) c" "n \<in> owner s t"
    | (closing) r where "closes s r c n" "n \<in> settled s"
  using assms unfolding inv_wait_def by blast

lemma inv_waitI:
  assumes "\<And>c n. (c, n) \<in> waiting s \<Longrightarrow>
      c \<in> closed (im s) \<and> n \<in> settled s \<or> (\<exists>t. holds s (HEntry t) c \<and> n \<in> owner s t)
      \<or> (\<exists>r. closes s r c n \<and> n \<in> settled s)"
    and "\<And>d. d \<in> draining s \<Longrightarrow> d \<in> closed (im s) \<or> drained (im s) = Some d"
  shows "inv_wait s"
  using assms unfolding inv_wait_def by blast

lemma inv_count: "inv s \<Longrightarrow> 0 \<le> count (im s)"
  by (simp add: inv_def inv_table_def)

lemma inv_drainingD: "inv_wait s \<Longrightarrow> d \<in> draining s \<Longrightarrow> d \<in> closed (im s) \<or> drained (im s) = Some d"
  unfolding inv_wait_def by blast

lemma running_occupies:
  "live s r = Some (t, Running, n) \<Longrightarrow> occupies s r t False"
  "live s r = Some (t, Panicked, n) \<Longrightarrow> occupies s r t False"
  by (auto simp: occupies_def)

lemma owner_cong: "entries (im s') t = entries (im s) t \<Longrightarrow> live s' = live s \<Longrightarrow> owner s' t = owner s t"
  by (simp add: owner_def split: option.split)

lemma view_cong: "entries (im s') = entries (im s) \<Longrightarrow> view s' = view s"
  by (simp add: view_def fun_eq_iff)

lemma occupies_cong: "live s' = live s \<Longrightarrow> occupies s' = occupies s"
  by (simp add: occupies_def fun_eq_iff)

subsection \<open>Steps that leave the table's shape alone\<close>

lemma panic_reply_inv:
  assumes "inv s" "live s r = Some (tag, Running, n)"
  shows "inv (s\<lparr>live := (live s)(r \<mapsto> (tag, Panicked, n))\<rparr>)" (is "inv ?s")
proof -
  have occ: "occupies ?s = occupies s"
    using assms(2) by (auto simp: occupies_def fun_eq_iff)
  have own: "owner ?s = owner s"
    using assms(2) by (auto simp: owner_def fun_eq_iff split: option.splits)
  have hold: "holds ?s h c = holds s h c" for h c
    using assms(2) by (cases h) (auto simp: holds.simps)
  have vis: "view ?s = view s" by (rule view_cong) simp
  have clo: "closes ?s = closes s" using assms(2) by (auto simp: closes_def fun_eq_iff)
  show ?thesis
    using assms unfolding inv_defs occ own hold vis clo by auto
qed

lemma cancel_all_inv:
  assumes "inv s"
  shows "inv (s\<lparr>im := cancelAll (im s)\<rparr>)" (is "inv ?s")
proof -
  have occ: "occupies ?s = occupies s" by (auto simp: occupies_def fun_eq_iff)
  have own: "owner ?s = owner s" by (intro ext owner_cong) (simp_all add: cancelAll_def)
  have hold: "holds ?s h c = holds s h c" for h c
    by (cases h) (auto simp: cancelAll_def holds.simps)
  have vis: "view ?s = view s" by (rule view_cong) (simp add: cancelAll_def)
  have clo: "closes ?s = closes s" by (rule closes_cong) simp
  have "r \<in> dom (live s)" if "entries (im s) tag = Some e" "ent_rctx e = Some r" for tag e r
    using inv_tableD(2) [of s tag e] assms that by (auto simp: inv_def occupies_def)
  then show ?thesis
    using assms unfolding inv_defs occ own hold vis clo by (auto simp: cancelAll_def)
qed

lemma drain_inv:
  assumes "inv s" "drainChan (im s) = (Some d, im')"
  shows "inv (s\<lparr>im := im', draining := insert d (draining s)\<rparr>)" (is "inv ?s")
proof (cases "drained (im s)")
  case (Some d')
  then have eq: "im' = im s" "d' = d"
    using assms(2) by (auto simp: drainChan_def split: if_splits)
  have occ: "occupies ?s = occupies s" and clo: "closes ?s = closes s"
    by (rule occupies_cong closes_cong; simp)+
  have own: "owner ?s t = owner s t" for t by (intro owner_cong) (simp_all add: eq)
  have hold: "holds ?s h c = holds s h c" for h c by (cases h) (simp_all add: eq holds.simps)
  have vis: "view ?s = view s" by (rule view_cong) (simp add: eq)
  show ?thesis
    using assms(1) Some unfolding inv_defs occ own hold vis clo by (auto simp: eq)
next
  case None
  then have im': "im' = im s\<lparr>drained := Some (chans (im s)), chans := chans (im s) + 1\<rparr>"
    and d: "d = chans (im s)" and cnt: "count (im s) \<noteq> 0"
    using assms(2) by (auto simp: drainChan_def split: if_splits)
  have occ: "occupies ?s = occupies s" and clo: "closes ?s = closes s"
    by (rule occupies_cong closes_cong; simp)+
  have own: "owner ?s t = owner s t" for t by (intro owner_cong) (simp_all add: im')
  have hold: "holds ?s h c \<longleftrightarrow> holds s h c \<or> (h = HDrain \<and> c = chans (im s))" for h c
    using None by (cases h) (auto simp: im' holds.simps)
  have vis: "view ?s = view s" by (rule view_cong) (simp add: im')
  show ?thesis
    using assms(1) cnt unfolding inv_defs occ own hold vis clo
    by (auto simp: im' d None less_Suc_eq)
qed

lemma flush_inv:
  assumes "inv s" "flushWait tag (im s) = Some (Some c, im')"
  shows "inv (s\<lparr>im := im', waiting := waiting s \<union> ({c} \<times> owner s tag)\<rparr>)" (is "inv ?s")
proof -
  obtain e r where e: "entries (im s) tag = Some e" "ent_rctx e = Some r"
    using assms(2) by (auto simp: flushWait_def split: option.splits)
  have r: "r \<in> dom (live s)"
    using inv_tableD(2) [of s tag e] assms(1) e by (auto simp: inv_def occupies_def)
  have occ: "occupies ?s = occupies s" and clo: "closes ?s = closes s"
    by (rule occupies_cong closes_cong; simp)+
  show ?thesis
  proof (cases "ent_done e")
    case (Some c')
    then have eq: "c' = c" "im' = im s\<lparr>flushed := insert r (flushed (im s))\<rparr>"
      using assms(2) e by (auto simp: flushWait_def)
    have own: "owner ?s t = owner s t" for t by (intro owner_cong) (simp_all add: eq)
    have hold: "holds ?s h c = holds s h c" for h c by (cases h) (simp_all add: eq holds.simps)
    have vis: "view ?s = view s" by (rule view_cong) (simp add: eq)
    have "holds s (HEntry tag) c" using e Some eq by (simp add: holds.simps)
    then show ?thesis
      using assms(1) r unfolding inv_defs occ own hold vis clo by (auto simp: eq)
  next
    case None
    then have eq: "c = chans (im s)"
      "im' = im s\<lparr>flushed := insert r (flushed (im s)),
         entries := (entries (im s))(tag \<mapsto> e\<lparr>ent_done := Some (chans (im s))\<rparr>), chans := chans (im s) + 1\<rparr>"
      using assms(2) e by (auto simp: flushWait_def Let_def)
    have own: "owner ?s t = owner s t" for t
      using e by (simp add: owner_def eq split: option.split)
    have hold: "holds ?s h c \<longleftrightarrow> holds s h c \<or> (h = HEntry tag \<and> c = chans (im s))" for h c
      using None e by (cases h) (auto simp: eq holds.simps)
    have vis: "view ?s = view s" using e by (auto simp: view_def eq fun_eq_iff)
    have "inv_table ?s"
      using assms(1) unfolding inv_def inv_table_def occ vis by (simp add: eq)
    moreover have "inv_chan ?s"
      using assms(1) unfolding inv_def inv_chan_def hold by (auto simp: eq less_Suc_eq)
    moreover have "inv_wait ?s"
      using assms(1) unfolding inv_def inv_wait_def hold own clo by (simp add: eq) blast
    moreover have "inv_flushed ?s"
      using assms(1) r by (auto simp: inv_def inv_flushed_def eq)
    ultimately show ?thesis by (simp add: inv_def)
  qed
qed

subsection \<open>A request enters the table\<close>

lemma begin_request_inv:
  assumes "inv s" "live s r = None" "start tag r (im s) = Some (True, im')"
  shows "inv (s\<lparr>im := im', live := (live s)(r \<mapsto> (tag, Running, serial s)), serial := serial s + 1,
               settled := settled s \<union> owner s tag\<rparr>)"
proof -
  define d where "d = (case entries (im s) tag of None \<Rightarrow> None | Some e \<Rightarrow> ent_done e)"
  have im': "im' = im s\<lparr>entries := (entries (im s))(tag \<mapsto> fresh_entry r),
      count := count (im s) + (if view s tag = None then 1 else 0), closed := set_option d \<union> closed (im s)\<rparr>"
    using assms(3) unfolding start_def d_def
    by (auto simp: view_def close_opt_iff split: option.splits if_splits bind_splits)
  define s' where "s' = s\<lparr>im := im', live := (live s)(r \<mapsto> (tag, Running, serial s)),
      serial := serial s + 1, settled := settled s \<union> owner s tag\<rparr>"
  have s' [simp]: "entries (im s') = (entries (im s))(tag \<mapsto> fresh_entry r)"
    "count (im s') = count (im s) + (if view s tag = None then 1 else 0)"
    "closed (im s') = set_option d \<union> closed (im s)" "chans (im s') = chans (im s)"
    "drained (im s') = drained (im s)" "flushed (im s') = flushed (im s)"
    "live s' = (live s)(r \<mapsto> (tag, Running, serial s))" "settled s' = settled s \<union> owner s tag"
    "waiting s' = waiting s" "draining s' = draining s"
    by (simp_all add: s'_def im')
  have chan: "inv_chan s" and wait: "inv_wait s" using assms(1) by (simp_all add: inv_def)
  have rne: "r' \<noteq> r" if "entries (im s) t = Some e" "ent_rctx e = Some r'" for t e r'
    using inv_tableD(2) [of s t e] assms(1,2) that by (auto simp: inv_def occupies_def)
  have occ: "occupies s' r' t b \<longleftrightarrow> occupies s r' t b \<or> (r' = r \<and> t = tag \<and> \<not> b)" for r' t b
    using assms(2) by (auto simp: occupies_def)
  have vis: "view s' = (view s)(tag \<mapsto> (Some r, False))"
    by (auto simp: view_def fun_eq_iff)
  have own: "t \<noteq> tag \<Longrightarrow> owner s' t = owner s t" for t
    using rne by (auto simp: owner_def split: option.splits)
  have hold: "holds s' h c \<longleftrightarrow> holds s h c \<and> h \<noteq> HEntry tag" for h c
    using assms(2) by (cases h) (auto simp: holds.simps)
  have d: "d = Some c \<longleftrightarrow> holds s (HEntry tag) c" for c
    by (auto simp: d_def holds.simps split: option.splits)
  have clo: "closes s' r' c n = closes s r' c n" for r' c n
    using assms(2) by (auto simp: closes_def)
  have nocc: "\<not> occupies s r' tag False" for r'
    using inv_tableD(1) [of s r' tag] assms(1,3)
    by (auto simp: inv_def start_def split: if_splits)
  have "inv_table s'"
    using assms(1) nocc unfolding inv_def inv_table_def occ vis
    by (auto simp: insert_absorb domI card_insert_if)
  moreover have "inv_chan s'"
  proof (rule inv_chanI)
    fix h c assume "holds s' h c"
    then have "holds s h c" "d \<noteq> Some c" using hold d inv_chanD(3) [OF chan] by metis+
    then show "c < chans (im s') \<and> c \<notin> closed (im s')"
      using inv_chanD(1,2) [OF chan] by simp
  next
    fix h h' c assume "holds s' h c" "holds s' h' c"
    then show "h = h'" using hold inv_chanD(3) [OF chan] by blast
  next
    fix c assume "c \<in> closed (im s')"
    then show "c < chans (im s')"
      using d [of c] inv_chanD(1) [OF chan, of "HEntry tag" c] inv_chanD(5) [OF chan, of c]
      by (auto)
  next
    show "drained (im s') \<noteq> None \<Longrightarrow> count (im s') \<noteq> 0"
      using inv_chanD(4) [OF chan] inv_count [OF assms(1)] by auto
  qed
  moreover have "inv_wait s'"
  proof (rule inv_waitI)
    fix c n assume "(c, n) \<in> waiting s'"
    then have cn: "(c, n) \<in> waiting s" by simp
    show "c \<in> closed (im s') \<and> n \<in> settled s' \<or> (\<exists>t. holds s' (HEntry t) c \<and> n \<in> owner s' t)
        \<or> (\<exists>r. closes s' r c n \<and> n \<in> settled s')"
    proof (rule inv_waitE [OF _ cn])
      fix t assume t: "holds s (HEntry t) c" "n \<in> owner s t"
      then show ?thesis using d [of c] own [of t] hold [of "HEntry t" c] by (cases "t = tag") auto
    qed (use wait clo in auto)
  next
    fix d' assume "d' \<in> draining s'"
    then show "d' \<in> closed (im s') \<or> drained (im s') = Some d'"
      using inv_drainingD [OF wait, of d'] by auto
  qed
  moreover have "inv_flushed s'"
    using assms(1) by (auto simp: inv_def inv_flushed_def)
  ultimately show ?thesis unfolding s'_def [symmetric] inv_def by blast
qed

lemma begin_write_inv:
  assumes "inv s" "live s r = Some (tag, Running, n)"
  shows "inv (s\<lparr>im := commit tag (im s), live := (live s)(r \<mapsto> (tag, Writing, n))\<rparr>)"
proof -
  obtain e where e: "entries (im s) tag = Some e" "ent_rctx e = Some r" "\<not> ent_committed e"
    using inv_tableD(1) [of s r tag] running_occupies(1) [OF assms(2)] assms(1) by (auto simp: inv_def)
  define s' where "s' = s\<lparr>im := commit tag (im s), live := (live s)(r \<mapsto> (tag, Writing, n))\<rparr>"
  have s' [simp]: "entries (im s') = (entries (im s))(tag \<mapsto> e\<lparr>ent_committed := True\<rparr>)"
    "count (im s') = count (im s)" "closed (im s') = closed (im s)" "chans (im s') = chans (im s)"
    "drained (im s') = drained (im s)" "flushed (im s') = flushed (im s)"
    "live s' = (live s)(r \<mapsto> (tag, Writing, n))" "settled s' = settled s"
    "waiting s' = waiting s" "draining s' = draining s"
    by (simp_all add: s'_def commit_def e)
  have occ: "occupies s' r' t b \<longleftrightarrow> (if r' = r then t = tag \<and> b else occupies s r' t b)" for r' t b
    by (auto simp: occupies_def)
  have occr: "occupies s r t b \<longleftrightarrow> t = tag \<and> \<not> b" for t b
    using assms(2) by (auto simp: occupies_def)
  have vis: "view s' = (view s)(tag \<mapsto> (Some r, True))"
    using e by (auto simp: view_def fun_eq_iff)
  have vtag: "view s tag = Some (Some r, False)" using e by (simp add: view_def)
  have own: "owner s' t = owner s t" for t
    using assms(2) e by (auto simp: owner_def split: option.splits)
  have hold: "holds s' h c = holds s h c" for h c
    using assms(2) e by (cases h) (auto simp: holds.simps)
  have clo: "closes s' r' c m = closes s r' c m" for r' c m
    using assms(2) by (auto simp: closes_def)
  have tab: "inv_table s" using assms(1) by (simp add: inv_def)
  have "inv_table s'"
  proof (rule inv_tableI)
    have "dom (view s') = dom (view s)" using vtag by (auto simp: vis)
    then show "finite (dom (view s'))" "count (im s') = int (card (dom (view s')))"
      using viewD(1,2) [OF tab] by simp_all
  next
    fix r' t assume "occupies s' r' t False"
    then have "occupies s r' t False" "r' \<noteq> r" by (auto simp: occ split: if_splits)
    then show "view s' t = Some (Some r', False)"
      using viewD(3) [OF tab, of r' t] vtag by (auto simp: vis)
  next
    fix t x b assume "view s' t = Some (x, b)"
    then show "\<exists>r. x = Some r \<and> occupies s' r t b"
      using viewD(4) [OF tab, of t x b] occr unfolding vis occ by (metis fun_upd_apply option.inject prod.inject)
  qed
  moreover have "inv_chan s'" "inv_wait s'" "inv_flushed s'"
    using assms unfolding inv_defs hold own clo by auto
  ultimately show ?thesis unfolding s'_def [symmetric] inv_def by blast
qed

subsection \<open>A request leaves the table\<close>

lemma leave_inv:
  assumes "inv s" "live s r = Some (tag, ph, n)" "\<And>d. ph \<noteq> Closing d"
    and e: "entries (im s) tag = Some e" "ent_rctx e = Some r"
    and sig: "signal_drained ((im s)\<lparr>entries := (entries (im s))(tag := None), count := count (im s) - 1\<rparr>)
       = Some im'"
  shows "inv (s\<lparr>im := im', live := (live s)(r \<mapsto> (tag, Closing (ent_done e), n)),
                settled := insert n (settled s)\<rparr>)"
proof -
  define dr where "dr = (if count (im s) = 1 then drained (im s) else None)"
  define s' where "s' = s\<lparr>im := im', live := (live s)(r \<mapsto> (tag, Closing (ent_done e), n)),
      settled := insert n (settled s)\<rparr>"
  have s' [simp]: "entries (im s') = (entries (im s))(tag := None)" "count (im s') = count (im s) - 1"
    "closed (im s') = set_option dr \<union> closed (im s)" "chans (im s') = chans (im s)"
    "drained (im s') = (if count (im s) = 1 then None else drained (im s))"
    "flushed (im s') = flushed (im s)"
    "live s' = (live s)(r \<mapsto> (tag, Closing (ent_done e), n))" "settled s' = insert n (settled s)"
    "waiting s' = waiting s" "draining s' = draining s"
    using sig by (auto simp: s'_def signal_drained_iff dr_def split: if_splits)
  have chan: "inv_chan s" and wait: "inv_wait s" using assms(1) by (simp_all add: inv_def)
  have uniq: "r' = r \<Longrightarrow> t = tag" if "entries (im s) t = Some e'" "ent_rctx e' = Some r'" for t e' r'
    using inv_tableD(2) [of s t e'] assms(1,2) that by (auto simp: inv_def occupies_def)
  have occ: "occupies s' r' t b \<longleftrightarrow> r' \<noteq> r \<and> occupies s r' t b" for r' t b
    by (auto simp: occupies_def)
  have occr: "r' = r" if "occupies s r' tag False" for r'
    using inv_tableD(1) [of s r' tag] that assms(1) e by (auto simp: inv_def)
  have occt: "t = tag" if "occupies s r t b" for t b
    using that assms(2) by (auto simp: occupies_def)
  have vis: "view s' = (view s)(tag := None)" by (auto simp: view_def fun_eq_iff)
  have vtag: "view s tag \<noteq> None" using e by (simp add: view_def)
  have own: "t \<noteq> tag \<Longrightarrow> owner s' t = owner s t" for t
    using uniq by (auto simp: owner_def split: option.splits)
  have ownr: "owner s tag = {n}" using e assms(2) by (simp add: owner_def)
  define src where "src h = (if h = HClosing r then HEntry tag else h)" for h
  have hold: "holds s' h c \<longleftrightarrow> h \<noteq> HEntry tag \<and> (h = HDrain \<longrightarrow> count (im s) \<noteq> 1) \<and> holds s (src h) c" for h c
    using e by (cases h) (auto simp: holds.simps src_def)
  have drh: "dr = Some c \<longleftrightarrow> count (im s) = 1 \<and> holds s HDrain c" for c
    by (simp add: dr_def holds.simps)
  have tab: "inv_table s" using assms(1) by (simp add: inv_def)
  have "inv_table s'"
  proof (rule inv_tableI)
    have dom: "dom (view s') = dom (view s) - {tag}" by (auto simp: vis)
    then show "finite (dom (view s'))" using viewD(1) [OF tab] by simp
    have "tag \<in> dom (view s)" using vtag by auto
    then have "card (dom (view s)) \<noteq> 0" "card (dom (view s')) = card (dom (view s)) - 1"
      using viewD(1) [OF tab] unfolding dom by (auto simp: card_Diff_singleton)
    then show "count (im s') = int (card (dom (view s')))"
      using viewD(2) [OF tab] unfolding s' by linarith
  next
    fix r' t assume "occupies s' r' t False"
    then have "occupies s r' t False" "r' \<noteq> r" "t \<noteq> tag" using occr by (auto simp: occ)
    then show "view s' t = Some (Some r', False)"
      using viewD(3) [OF tab, of r' t] by (simp add: vis)
  next
    fix t x b assume "view s' t = Some (x, b)"
    then have "t \<noteq> tag" "view s t = Some (x, b)" by (auto simp: vis split: if_splits)
    then show "\<exists>r. x = Some r \<and> occupies s' r t b"
      using viewD(4) [OF tab, of t x b] occt by (auto simp: occ)
  qed
  moreover have "inv_chan s'"
  proof (rule inv_chanI)
    fix h c assume h: "holds s' h c"
    then have "holds s (src h) c" "dr \<noteq> Some c"
      using hold drh inv_chanD(3) [OF chan, of "src h" c HDrain] by (auto simp: src_def split: if_splits)
    then show "c < chans (im s') \<and> c \<notin> closed (im s')"
      using inv_chanD(1,2) [OF chan] by simp
  next
    fix h h' c assume "holds s' h c" "holds s' h' c"
    then have "h \<noteq> HEntry tag" "h' \<noteq> HEntry tag" "src h = src h'"
      using hold inv_chanD(3) [OF chan] by blast+
    then show "h = h'" by (auto simp: src_def split: if_splits)
  next
    fix c assume "c \<in> closed (im s')"
    then show "c < chans (im s')"
      using drh [of c] inv_chanD(1) [OF chan, of HDrain c] inv_chanD(5) [OF chan, of c] by auto
  next
    show "drained (im s') \<noteq> None \<Longrightarrow> count (im s') \<noteq> 0" by (auto split: if_splits)
  qed
  moreover have "inv_wait s'"
  proof (rule inv_waitI)
    fix c m assume "(c, m) \<in> waiting s'"
    then have cm: "(c, m) \<in> waiting s" by simp
    show "c \<in> closed (im s') \<and> m \<in> settled s' \<or> (\<exists>t. holds s' (HEntry t) c \<and> m \<in> owner s' t)
        \<or> (\<exists>r. closes s' r c m \<and> m \<in> settled s')"
    proof (rule inv_waitE [OF wait cm])
      fix t assume t: "holds s (HEntry t) c" "m \<in> owner s t"
      show ?thesis
      proof (cases "t = tag")
        case True
        then have "closes s' r c m" "m = n" using t e ownr by (auto simp: closes_def holds.simps)
        then show ?thesis by auto
      next
        case False
        then show ?thesis using t own hold [of "HEntry t" c] by (auto simp: src_def)
      qed
    next
      fix r' assume r': "closes s r' c m" "m \<in> settled s"
      then have "closes s' r' c m" using assms(2) assms(3) [of "Some c"] by (auto simp: closes_def)
      then show ?thesis using r' by auto
    qed auto
  next
    fix d' assume "d' \<in> draining s'"
    then show "d' \<in> closed (im s') \<or> drained (im s') = Some d'"
      using inv_drainingD [OF wait, of d'] by (auto simp: dr_def)
  qed
  moreover have "inv_flushed s'"
    using assms(1) by (auto simp: inv_def inv_flushed_def)
  ultimately show ?thesis unfolding s'_def [symmetric] inv_def by blast
qed

lemma finish_remove_inv:
  assumes "inv s" "live s r = Some (tag, ph, n)" "ph = Running \<or> ph = Panicked"
    and "remove tag (im s) = Some (d, im')"
  shows "inv (s\<lparr>im := im', live := (live s)(r \<mapsto> (tag, Closing d, n)), settled := insert n (settled s)\<rparr>)"
proof -
  have "occupies s r tag False" using assms(2,3) by (auto simp: occupies_def)
  then obtain e where e: "entries (im s) tag = Some e" "ent_rctx e = Some r"
    using inv_tableD(1) [of s r tag] assms(1) by (auto simp: inv_def)
  then have "signal_drained ((im s)\<lparr>entries := (entries (im s))(tag := None), count := count (im s) - 1\<rparr>)
       = Some im'" "d = ent_done e"
    using assms(4) by (auto simp: remove_def split: bind_splits)
  then show ?thesis using leave_inv [OF assms(1,2) _ e] assms(3) by auto
qed

lemma end_write_inv:
  assumes "inv s" "live s r = Some (tag, Writing, n)" "completeCommit tag r (im s) = Some (d, im')"
  shows "inv (s\<lparr>im := im', live := (live s)(r \<mapsto> (tag, Closing d, n)), settled := insert n (settled s)\<rparr>)"
proof (cases "\<exists>e. entries (im s) tag = Some e \<and> ent_rctx e = Some r")
  case True
  then obtain e where e: "entries (im s) tag = Some e" "ent_rctx e = Some r" by blast
  then have "signal_drained ((im s)\<lparr>entries := (entries (im s))(tag := None), count := count (im s) - 1\<rparr>)
       = Some im'" "d = ent_done e"
    using assms(3) by (auto simp: completeCommit_def split: bind_splits)
  then show ?thesis using leave_inv [OF assms(1,2) _ e] by auto
next
  case False
  then have im': "im' = im s" "d = None"
    using assms(3) by (auto simp: completeCommit_def split: option.splits if_splits)
  define s' where "s' = s\<lparr>im := im', live := (live s)(r \<mapsto> (tag, Closing d, n)), settled := insert n (settled s)\<rparr>"
  have s' [simp]: "im s' = im s" "live s' = (live s)(r \<mapsto> (tag, Closing None, n))"
    "settled s' = insert n (settled s)" "waiting s' = waiting s" "draining s' = draining s"
    by (simp_all add: s'_def im')
  have tab: "inv_table s" using assms(1) by (simp add: inv_def)
  have rne: "r' \<noteq> r" if "entries (im s) t = Some e" "ent_rctx e = Some r'" for t e r'
    using inv_tableD(2) [OF tab, of t e] assms(2) that False by (auto simp: occupies_def)
  have occ: "occupies s' r' t b \<longleftrightarrow> r' \<noteq> r \<and> occupies s r' t b" for r' t b
    by (auto simp: occupies_def)
  have vis: "view s' = view s" by (rule view_cong) simp
  have clo: "closes s' r' c m = closes s r' c m" for r' c m
    using assms(2) by (auto simp: closes_def)
  have own: "owner s' t = owner s t" for t
    using rne by (auto simp: owner_def split: option.splits)
  have hold: "holds s' h c = holds s h c" for h c
    using assms(2) by (cases h) (auto simp: holds.simps)
  have "inv_table s'"
  proof (rule inv_tableI)
    fix t x b assume v: "view s' t = Some (x, b)"
    then obtain e where "entries (im s) t = Some e" "ent_rctx e = x" by (auto simp: vis view_def)
    then show "\<exists>r. x = Some r \<and> occupies s' r t b"
      using viewD(4) [OF tab, of t x b] v rne by (auto simp: vis occ)
  qed (use viewD [OF tab] in \<open>auto simp: vis occ\<close>)
  moreover have "inv_chan s'" "inv_wait s'" "inv_flushed s'"
    using assms(1) unfolding inv_defs hold own clo by auto
  ultimately show ?thesis unfolding s'_def [symmetric] inv_def by blast
qed

lemma close_done_inv:
  assumes "inv s" "live s r = Some (tag, Closing d, n)" "close_opt d (im s) = Some im'"
  shows "inv (s\<lparr>im := im'\<lparr>flushed := flushed im' - {r}\<rparr>, live := (live s)(r := None)\<rparr>)"
proof -
  define s' where "s' = s\<lparr>im := im'\<lparr>flushed := flushed im' - {r}\<rparr>, live := (live s)(r := None)\<rparr>"
  have s' [simp]: "entries (im s') = entries (im s)" "count (im s') = count (im s)"
    "closed (im s') = set_option d \<union> closed (im s)" "chans (im s') = chans (im s)"
    "drained (im s') = drained (im s)" "flushed (im s') = flushed (im s) - {r}"
    "live s' = (live s)(r := None)" "settled s' = settled s" "waiting s' = waiting s"
    "draining s' = draining s"
    using assms(3) by (simp_all add: s'_def close_opt_iff)
  have tab: "inv_table s" and chan: "inv_chan s" and wait: "inv_wait s"
    using assms(1) by (simp_all add: inv_def)
  have rne: "r' \<noteq> r" if "entries (im s) t = Some e" "ent_rctx e = Some r'" for t e r'
    using inv_tableD(2) [OF tab, of t e] assms(2) that by (auto simp: occupies_def)
  have occ: "occupies s' r' t b = occupies s r' t b" for r' t b
    using assms(2) by (auto simp: occupies_def)
  have vis: "view s' = view s" by (rule view_cong) simp
  have own: "owner s' t = owner s t" for t
    using rne by (auto simp: owner_def split: option.splits)
  have hold: "holds s' h c \<longleftrightarrow> h \<noteq> HClosing r \<and> holds s h c" for h c
    by (cases h) (auto simp: holds.simps)
  have d: "d = Some c \<longleftrightarrow> holds s (HClosing r) c" for c
    using assms(2) by (auto simp: holds.simps)
  have "inv_table s'"
    using tab unfolding inv_table_def occ vis by simp
  moreover have "inv_chan s'"
  proof (rule inv_chanI)
    fix h c assume "holds s' h c"
    then have "holds s h c" "d \<noteq> Some c" using hold d inv_chanD(3) [OF chan] by metis+
    then show "c < chans (im s') \<and> c \<notin> closed (im s')"
      using inv_chanD(1,2) [OF chan] by simp
  next
    fix c assume "c \<in> closed (im s')"
    then show "c < chans (im s')"
      using d [of c] inv_chanD(1) [OF chan, of "HClosing r" c] inv_chanD(5) [OF chan, of c] by auto
  qed (use hold inv_chanD(3,4) [OF chan] in \<open>simp_all, blast\<close>)
  moreover have "inv_wait s'"
  proof (rule inv_waitI)
    fix c m assume "(c, m) \<in> waiting s'"
    then have cm: "(c, m) \<in> waiting s" by simp
    show "c \<in> closed (im s') \<and> m \<in> settled s' \<or> (\<exists>t. holds s' (HEntry t) c \<and> m \<in> owner s' t)
        \<or> (\<exists>r. closes s' r c m \<and> m \<in> settled s')"
    proof (rule inv_waitE [OF wait cm])
      fix r' assume "closes s r' c m" "m \<in> settled s"
      then show ?thesis using assms(2) by (cases "r' = r") (auto simp: closes_def)
    qed (use own hold in auto)
  qed (use inv_drainingD [OF wait] in auto)
  moreover have "inv_flushed s'"
    using assms(1) by (auto simp: inv_def inv_flushed_def)
  ultimately show ?thesis unfolding s'_def [symmetric] inv_def by blast
qed

lemma step_inv: "step s s' \<Longrightarrow> inv s \<Longrightarrow> inv s'"
  by (induction rule: step.induct)
    (simp_all add: begin_request_inv [simplified] panic_reply_inv finish_remove_inv begin_write_inv
      end_write_inv close_done_inv flush_inv cancel_all_inv drain_inv)

lemma reachable_inv: "reachable s \<Longrightarrow> inv s"
  by (induction rule: reachable.induct) (auto intro: inv_init step_inv)

section \<open>A sample run\<close>

text \<open>A request with tag 5 starts and is flushed while it runs.\<close>

lemma sample_flushed:
  "\<exists>s. reachable s \<and> live s = [0 \<mapsto> (5, Running, 0)] \<and> waiting s = {(0, 0)}
     \<and> im s = newInflightMap\<lparr>entries := [5 \<mapsto> \<lparr>ent_rctx = Some 0, ent_done = Some 0, ent_committed = False\<rparr>],
         count := 1, chans := 1, flushed := {0}\<rparr> \<and> settled s = {}"
proof -
  let ?m1 = "newInflightMap\<lparr>entries := [5 \<mapsto> fresh_entry 0], count := 1\<rparr>"
  let ?s1 = "sys_init\<lparr>im := ?m1, live := [0 \<mapsto> (5, Running, 0)], serial := 1\<rparr>"
  have "step sys_init ?s1"
    using begin_request [of sys_init 0 5 ?m1]
    by (simp add: sys_init_def newInflightMap_def start_def owner_def)
  then have r1: "reachable ?s1" by (rule reach_step [OF reach_init])
  let ?m2 = "?m1\<lparr>entries := [5 \<mapsto> \<lparr>ent_rctx = Some 0, ent_done = Some 0, ent_committed = False\<rparr>],
     chans := 1, flushed := {0}\<rparr>"
  have "step ?s1 (?s1\<lparr>im := ?m2, waiting := {(0, 0)}\<rparr>)"
    using flush [of 5 ?s1 0 ?m2]
    by (simp add: sys_init_def newInflightMap_def flushWait_def owner_def)
  then have "reachable (?s1\<lparr>im := ?m2, waiting := {(0, 0)}\<rparr>)" by (rule reach_step [OF r1])
  then show ?thesis
    by (intro exI [of _ "?s1\<lparr>im := ?m2, waiting := {(0, 0)}\<rparr>"]) (simp add: sys_init_def newInflightMap_def)
qed

text \<open>It then commits, writes its response and releases the waiting \<^verbatim>\<open>Tflush\<close>.\<close>

lemma sample_done:
  "\<exists>s. reachable s \<and> live s = Map.empty \<and> waiting s = {(0, 0)} \<and> closed (im s) = {0} \<and> settled s = {0}"
proof -
  obtain s where s: "reachable s" "live s = [0 \<mapsto> (5, Running, 0)]" "waiting s = {(0, 0)}"
    "im s = newInflightMap\<lparr>entries := [5 \<mapsto> \<lparr>ent_rctx = Some 0, ent_done = Some 0, ent_committed = False\<rparr>],
         count := 1, chans := 1, flushed := {0}\<rparr>" "settled s = {}"
    using sample_flushed by blast
  let ?s1 = "s\<lparr>im := commit 5 (im s), live := [0 \<mapsto> (5, Writing, 0)]\<rparr>"
  have r1: "reachable ?s1"
    using reach_step [OF s(1) begin_write [of s 0 5 0]] s(2) by simp
  let ?m2 = "newInflightMap\<lparr>chans := 1, flushed := {0}\<rparr>"
  let ?s2 = "?s1\<lparr>im := ?m2, live := [0 \<mapsto> (5, Closing (Some 0), 0)], settled := {0}\<rparr>"
  have "completeCommit 5 0 (im ?s1) = Some (Some 0, ?m2)"
    by (simp add: s(4) commit_def completeCommit_def signal_drained_def newInflightMap_def)
  then have "step ?s1 ?s2"
    using end_write [of ?s1 0 5 0 "Some 0" ?m2] s(5) by simp
  then have r2: "reachable ?s2" by (rule reach_step [OF r1])
  let ?m3 = "?m2\<lparr>closed := {0}\<rparr>"
  have "close_opt (Some 0) (im ?s2) = Some ?m3"
    by (simp add: close_chan_def newInflightMap_def)
  then have "step ?s2 (?s2\<lparr>im := ?m3\<lparr>flushed := {}\<rparr>, live := Map.empty\<rparr>)"
    using close_done [of ?s2 0 5 "Some 0" 0 ?m3] by simp
  then have "reachable (?s2\<lparr>im := ?m3\<lparr>flushed := {}\<rparr>, live := Map.empty\<rparr>)" by (rule reach_step [OF r2])
  then show ?thesis using s
    by (intro exI [of _ "?s2\<lparr>im := ?m3\<lparr>flushed := {}\<rparr>, live := Map.empty\<rparr>"]) simp
qed

section \<open>Properties\<close>

text \<open>C8. However requests, flushes, drains and tag reuse interleave, no operation of
  the in-flight table panics: no channel is closed twice and no nil request
  context is dereferenced.\<close>

theorem inflight_no_panic:
  assumes "reachable s"
  shows "start tag r (im s) \<noteq> None \<and> flushWait tag (im s) \<noteq> None
    \<and> (\<forall>ph n. live s r = Some (tag, ph, n) \<longrightarrow>
         (ph = Running \<or> ph = Panicked \<longrightarrow> remove tag (im s) \<noteq> None)
         \<and> (ph = Writing \<longrightarrow> completeCommit tag r (im s) \<noteq> None)
         \<and> (\<forall>d. ph = Closing d \<longrightarrow> close_opt d (im s) \<noteq> None))"
proof -
  have inv: "inv_table s" "inv_chan s" using reachable_inv [OF assms] by (simp_all add: inv_def)
  have open_entry: "close_opt (ent_done e) (im s) \<noteq> None" if "entries (im s) tag = Some e" for e
    using inv_chanD(2) [OF inv(2), of "HEntry tag"] that
    by (cases "ent_done e") (auto simp: close_chan_def holds.simps)
  have "signal_drained ((im s)\<lparr>entries := (entries (im s))(tag := None),
      count := count (im s) - 1\<rparr>) \<noteq> None"
    using inv_chanD(2) [OF inv(2), of HDrain]
    by (cases "drained (im s)") (auto simp: signal_drained_def close_chan_def holds.simps)
  then obtain x where sig: "signal_drained ((im s)\<lparr>entries := (entries (im s))(tag := None),
      count := count (im s) - 1\<rparr>) = Some x" by blast
  have "close_opt d (im s) \<noteq> None" if "live s r = Some (tag, Closing d, n)" for d n
    using inv_chanD(2) [OF inv(2), of "HClosing r"] that
    by (cases d) (auto simp: close_chan_def holds.simps)
  moreover have "start tag r (im s) \<noteq> None"
    using open_entry by (auto simp: start_def split: option.splits bind_splits)
  moreover have "flushWait tag (im s) \<noteq> None"
    using inv_tableD(2) [OF inv(1), of tag]
    by (auto simp: flushWait_def Let_def split: option.splits)
  ultimately show ?thesis
    by (auto simp: remove_def completeCommit_def sig split: option.splits)
qed

theorem inflight_no_panic_witness: "\<exists>s. reachable s \<and> start 5 1 (im s) \<noteq> None \<and> flushWait 5 (im s) \<noteq> None"
proof -
  obtain s where s: "reachable s" using sample_flushed by blast
  then show ?thesis using inflight_no_panic [OF s, of 5 1] by blast
qed









text \<open>C39. The panic path does not commit: after a handler panic the recovery writes the
  error response while the entry is still uncommitted, so a client that reuses the
  tag on seeing that response is treated as a duplicate and loses its connection.\<close>

theorem panic_reply_tag_reuse_refused:
  assumes "reachable s" "live s r = Some (t, Panicked, n)"
  shows "start t r' (im s) = Some (False, im s)"
proof -
  obtain e where "entries (im s) t = Some e" "\<not> ent_committed e"
    using inv_tableD(1) [of s r t] running_occupies(2) [OF assms(2)] reachable_inv [OF assms(1)]
    by (auto simp: inv_def)
  then show ?thesis by (simp add: start_def)
qed

theorem panic_reply_tag_reuse_refused_witness:
  "\<exists>s. reachable s \<and> live s 0 = Some (5, Panicked, 0) \<and> start 5 1 (im s) = Some (False, im s)"
proof -
  obtain s where s: "reachable s" "live s = [0 \<mapsto> (5, Running, 0)]" using sample_flushed by blast
  then have "reachable (s\<lparr>live := [0 \<mapsto> (5, Panicked, 0)]\<rparr>)"
    using reach_step [OF s(1) panic_reply [of s 0 5 0]] by simp
  then show ?thesis using panic_reply_tag_reuse_refused [of "s\<lparr>live := [0 \<mapsto> (5, Panicked, 0)]\<rparr>" 0 5 0 1] by auto
qed

end
