(* ===== verification/Errno.thy ===== *)
theory Errno
  imports Prelude
begin

text \<open>
  Error numbers (\<^verbatim>\<open>src/proto/errno.go\<close>, \<^verbatim>\<open>errno_linux.go\<close>): the constants the
  server and the in-memory file system return, the table of messages, and the
  \<^verbatim>\<open>Error\<close> method whose text a 9P2000.u \<^verbatim>\<open>Rerror\<close> carries. A Go \<^verbatim>\<open>error\<close> value that
  reaches the server is modelled by what \<^verbatim>\<open>errnoFromError\<close> can tell apart.
\<close>

section \<open>Constants\<close>

definition ENOENT :: u32 where "ENOENT = 2"
definition EIO :: u32 where "EIO = 5"
definition EBADF :: u32 where "EBADF = 9"
definition EEXIST :: u32 where "EEXIST = 17"
definition ENOTDIR :: u32 where "ENOTDIR = 20"
definition EISDIR :: u32 where "EISDIR = 21"
definition EINVAL :: u32 where "EINVAL = 22"
definition EMFILE :: u32 where "EMFILE = 24"
definition EFBIG :: u32 where "EFBIG = 27"
definition ENOSPC :: u32 where "ENOSPC = 28"
definition ENOSYS :: u32 where "ENOSYS = 38"
definition ENOTEMPTY :: u32 where "ENOTEMPTY = 39"

lemmas errno_defs = ENOENT_def EIO_def EBADF_def EEXIST_def ENOTDIR_def EISDIR_def EINVAL_def EMFILE_def EFBIG_def ENOSPC_def ENOSYS_def ENOTEMPTY_def

section \<open>Messages\<close>

text \<open>A Go string literal as its bytes.\<close>

definition gostr :: "string \<Rightarrow> gostring" where
  "gostr s = map of_char s"

definition errnoNames :: "(u32 \<times> string) list" where
  "errnoNames =
    [(1, ''operation not permitted''),
     (2, ''no such file or directory''),
     (3, ''no such process''),
     (4, ''interrupted system call''),
     (5, ''input/output error''),
     (6, ''no such device or address''),
     (7, ''argument list too long''),
     (8, ''exec format error''),
     (9, ''bad file descriptor''),
     (10, ''no child processes''),
     (11, ''resource temporarily unavailable''),
     (12, ''cannot allocate memory''),
     (13, ''permission denied''),
     (14, ''bad address''),
     (15, ''block device required''),
     (16, ''device or resource busy''),
     (17, ''file exists''),
     (18, ''invalid cross-device link''),
     (19, ''no such device''),
     (20, ''not a directory''),
     (21, ''is a directory''),
     (22, ''invalid argument''),
     (23, ''too many open files in system''),
     (24, ''too many open files''),
     (25, ''inappropriate ioctl for device''),
     (26, ''text file busy''),
     (27, ''file too large''),
     (28, ''no space left on device''),
     (29, ''illegal seek''),
     (30, ''read-only file system''),
     (31, ''too many links''),
     (32, ''broken pipe''),
     (33, ''numerical argument out of domain''),
     (34, ''numerical result out of range''),
     (35, ''resource deadlock avoided''),
     (36, ''file name too long''),
     (37, ''no locks available''),
     (38, ''function not implemented''),
     (39, ''directory not empty''),
     (40, ''too many levels of symbolic links''),
     (42, ''no message of desired type''),
     (43, ''identifier removed''),
     (44, ''channel number out of range''),
     (45, ''level 2 not synchronized''),
     (46, ''level 3 halted''),
     (47, ''level 3 reset''),
     (48, ''link number out of range''),
     (49, ''protocol driver not attached''),
     (50, ''no CSI structure available''),
     (51, ''level 2 halted''),
     (52, ''invalid exchange''),
     (53, ''invalid request descriptor''),
     (54, ''exchange full''),
     (55, ''no anode''),
     (56, ''invalid request code''),
     (57, ''invalid slot''),
     (59, ''bad font file format''),
     (60, ''device not a stream''),
     (61, ''no data available''),
     (62, ''timer expired''),
     (63, ''out of streams resources''),
     (64, ''machine is not on the network''),
     (65, ''package not installed''),
     (66, ''object is remote''),
     (67, ''link has been severed''),
     (68, ''advertise error''),
     (69, ''srmount error''),
     (70, ''communication error on send''),
     (71, ''protocol error''),
     (72, ''multihop attempted''),
     (73, ''RFS specific error''),
     (74, ''bad message''),
     (75, ''value too large for defined data type''),
     (76, ''name not unique on network''),
     (77, ''file descriptor in bad state''),
     (78, ''remote address changed''),
     (79, ''can not access a needed shared library''),
     (80, ''accessing a corrupted shared library''),
     (81, ''.lib section in a.out corrupted''),
     (82, ''attempting to link in too many shared libraries''),
     (83, ''cannot exec a shared library directly''),
     (84, ''invalid or incomplete multibyte or wide character''),
     (85, ''interrupted system call should be restarted''),
     (86, ''streams pipe error''),
     (87, ''too many users''),
     (88, ''socket operation on non-socket''),
     (89, ''destination address required''),
     (90, ''message too long''),
     (91, ''protocol wrong type for socket''),
     (92, ''protocol not available''),
     (93, ''protocol not supported''),
     (94, ''socket type not supported''),
     (95, ''operation not supported''),
     (96, ''protocol family not supported''),
     (97, ''address family not supported by protocol''),
     (98, ''address already in use''),
     (99, ''cannot assign requested address''),
     (100, ''network is down''),
     (101, ''network is unreachable''),
     (102, ''network dropped connection on reset''),
     (103, ''software caused connection abort''),
     (104, ''connection reset by peer''),
     (105, ''no buffer space available''),
     (106, ''transport endpoint is already connected''),
     (107, ''transport endpoint is not connected''),
     (108, ''cannot send after transport endpoint shutdown''),
     (109, ''too many references: cannot splice''),
     (110, ''connection timed out''),
     (111, ''connection refused''),
     (112, ''host is down''),
     (113, ''no route to host''),
     (114, ''operation already in progress''),
     (115, ''operation now in progress''),
     (116, ''stale file handle''),
     (117, ''structure needs cleaning''),
     (118, ''not a XENIX named type file''),
     (119, ''no XENIX semaphores available''),
     (120, ''is a named type file''),
     (121, ''remote I/O error''),
     (122, ''disk quota exceeded''),
     (123, ''no medium found''),
     (124, ''wrong medium type''),
     (125, ''operation canceled''),
     (126, ''required key not available''),
     (127, ''key has expired''),
     (128, ''key has been revoked''),
     (129, ''key was rejected by service''),
     (130, ''owner died''),
     (131, ''state not recoverable''),
     (132, ''operation not possible due to RF-kill''),
     (133, ''memory page has hardware error''),
     (524, ''operation not supported (kernel)'')]"

text \<open>The verb \<^verbatim>\<open>%d\<close> of \<^verbatim>\<open>fmt.Sprintf\<close> on a non-negative number.\<close>

fun decimal :: "nat \<Rightarrow> string" where
  "decimal n = (if n < 10 then [char_of (48 + n)] else decimal (n div 10) @ [char_of (48 + n mod 10)])"

declare decimal.simps [simp del]

definition Errno_Error :: "u32 \<Rightarrow> gostring" where
  "Errno_Error e = (case map_of errnoNames e of
       Some name \<Rightarrow> gostr name
     | None \<Rightarrow> gostr (''errno '' @ decimal (unat e)))"

section \<open>Go errors\<close>

datatype go_error = ProtoErrno u32 | SyscallErrno u32 | OtherError

definition ErrnoFromUnix :: "u32 \<Rightarrow> u32" where
  "ErrnoFromUnix e = e"

primrec errnoFromError :: "go_error \<Rightarrow> u32" where
  "errnoFromError (ProtoErrno e) = e"
| "errnoFromError (SyscallErrno e) = ErrnoFromUnix e"
| "errnoFromError OtherError = EIO"

end
