(* ===== verification/FidTable.thy ===== *)
theory FidTable
  imports Wire
begin

text \<open>
  Server fids (\<^verbatim>\<open>src/server/fid.go\<close>): the state of one fid, the table, and the
  protocol by which \<^verbatim>\<open>Tclunk\<close> hands the release of a fid's handle and node to the
  last I/O call still running on it.

  The source keeps \<^verbatim>\<open>*fidState\<close> pointers in the table and handlers go on using
  a pointer after the fid has left it. The table is therefore modelled with an
  explicit store: \<^verbatim>\<open>fids\<close> maps fid numbers to addresses and an address is a
  position of the list \<^verbatim>\<open>store\<close>; allocation appends.

  Type parameters: \<^verbatim>\<open>'n\<close> nodes, \<^verbatim>\<open>'h\<close> file handles, \<^verbatim>\<open>'x\<close> xattr writers, all
  supplied by the file system the server exports.
\<close>

section \<open>The state of a fid\<close>

datatype fidStatus = fidAllocated | fidOpened | fidXattrRead | fidXattrWrite

record ('n, 'h, 'x) fidState =
  fs_node :: 'n
  fs_path :: gostring
  fs_state :: fidStatus
  fs_handle :: "'h option"
  fs_dirCache :: "Dirent list"
  fs_dirCached :: bool
  fs_ioRefs :: int
  fs_closing :: bool
  fs_closeNode :: bool
  fs_xattrNode :: "'n option"
  fs_xattrName :: gostring
  fs_xattrData :: bytes
  fs_xattrSize :: u64
  fs_xattrFlags :: u32
  fs_xattrWriter :: "'x option"

text \<open>The composite literal \<^verbatim>\<open>&fidState{node: n, path: p, state: st}\<close>: the other
  fields have their zero values.\<close>

definition new_fidState :: "'n \<Rightarrow> gostring \<Rightarrow> fidStatus \<Rightarrow> ('n, 'h, 'x) fidState" where
  "new_fidState n p st = \<lparr>fs_node = n, fs_path = p, fs_state = st, fs_handle = None,
     fs_dirCache = [], fs_dirCached = False, fs_ioRefs = 0, fs_closing = False, fs_closeNode = False,
     fs_xattrNode = None, fs_xattrName = [], fs_xattrData = [], fs_xattrSize = 0, fs_xattrFlags = 0,
     fs_xattrWriter = None\<rparr>"

lemma new_fidState_simps [simp]:
  "fs_node (new_fidState n p st) = n" "fs_path (new_fidState n p st) = p"
  "fs_state (new_fidState n p st) = st" "fs_handle (new_fidState n p st) = None"
  "fs_closing (new_fidState n p st) = False" "fs_ioRefs (new_fidState n p st) = 0"
  by (simp_all add: new_fidState_def)

definition beginIO :: "('n, 'h, 'x) fidState \<Rightarrow> bool \<times> ('n, 'h, 'x) fidState" where
  "beginIO fs = (if fs_closing fs then (False, fs) else (True, fs\<lparr>fs_ioRefs := fs_ioRefs fs + 1\<rparr>))"

text \<open>\<^verbatim>\<open>endIO\<close> and \<^verbatim>\<open>finishClunk\<close> decide under the lock and release after it: the
  first component is \<^verbatim>\<open>Some closeNode\<close> when the caller goes on to call
  \<^verbatim>\<open>releaseNow\<close>.\<close>

definition endIO :: "('n, 'h, 'x) fidState \<Rightarrow> bool option \<times> ('n, 'h, 'x) fidState" where
  "endIO fs = (let fs' = fs\<lparr>fs_ioRefs := fs_ioRefs fs - 1\<rparr> in
     (if fs_closing fs' \<and> fs_ioRefs fs' = 0 then Some (fs_closeNode fs') else None, fs'))"

definition finishClunk :: "bool \<Rightarrow> ('n, 'h, 'x) fidState \<Rightarrow> bool option \<times> ('n, 'h, 'x) fidState" where
  "finishClunk closeNode fs = (let fs' = fs\<lparr>fs_closing := True, fs_closeNode := closeNode\<rparr> in
     (if fs_ioRefs fs' = 0 then Some closeNode else None, fs'))"

section \<open>The table\<close>

datatype fid_error = ErrFidLimitExceeded | ErrFidInUse

record ('n, 'h, 'x) fidTable =
  fids :: "u32 \<rightharpoonup> nat"
  store :: "('n, 'h, 'x) fidState list"

definition newFidTable :: "('n, 'h, 'x) fidTable" where
  "newFidTable = \<lparr>fids = Map.empty, store = []\<rparr>"

text \<open>\<^verbatim>\<open>&fidState{...}\<close>: a fresh address.\<close>

definition alloc :: "('n, 'h, 'x) fidState \<Rightarrow> ('n, 'h, 'x) fidTable \<Rightarrow> nat \<times> ('n, 'h, 'x) fidTable" where
  "alloc fs ft = (length (store ft), ft\<lparr>store := store ft @ [fs]\<rparr>)"

definition deref :: "('n, 'h, 'x) fidTable \<Rightarrow> nat \<Rightarrow> ('n, 'h, 'x) fidState" where
  "deref ft a = store ft ! a"

definition assign :: "nat \<Rightarrow> ('n, 'h, 'x) fidState \<Rightarrow> ('n, 'h, 'x) fidTable \<Rightarrow> ('n, 'h, 'x) fidTable" where
  "assign a fs ft = ft\<lparr>store := (store ft)[a := fs]\<rparr>"

definition get :: "('n, 'h, 'x) fidTable \<Rightarrow> u32 \<Rightarrow> nat option" where
  "get ft fid = fids ft fid"

definition ft_len :: "('n, 'h, 'x) fidTable \<Rightarrow> nat" where
  "ft_len ft = card (dom (fids ft))"

definition add :: "u32 \<Rightarrow> nat \<Rightarrow> int \<Rightarrow> ('n, 'h, 'x) fidTable \<Rightarrow> fid_error option \<times> ('n, 'h, 'x) fidTable" where
  "add fid a maxFids ft =
     (if maxFids > 0 \<and> int (ft_len ft) \<ge> maxFids then (Some ErrFidLimitExceeded, ft)
      else if fids ft fid \<noteq> None then (Some ErrFidInUse, ft)
      else (None, ft\<lparr>fids := (fids ft)(fid \<mapsto> a)\<rparr>))"

definition clunk :: "u32 \<Rightarrow> ('n, 'h, 'x) fidTable \<Rightarrow> nat option \<times> ('n, 'h, 'x) fidTable" where
  "clunk fid ft = (case fids ft fid of
       None \<Rightarrow> (None, ft)
     | Some a \<Rightarrow> (Some a, ft\<lparr>fids := (fids ft)(fid := None)\<rparr>))"

text \<open>The source returns the values in the map's iteration order, which Go leaves
  open: the model returns the set, and a caller's loop runs over any
  enumeration of it.\<close>

definition clunkAll :: "('n, 'h, 'x) fidTable \<Rightarrow> nat set \<times> ('n, 'h, 'x) fidTable" where
  "clunkAll ft = (ran (fids ft), ft\<lparr>fids := Map.empty\<rparr>)"

definition setPath :: "u32 \<Rightarrow> gostring \<Rightarrow> ('n, 'h, 'x) fidTable \<Rightarrow> ('n, 'h, 'x) fidTable" where
  "setPath fid p ft = (case get ft fid of
       None \<Rightarrow> ft
     | Some a \<Rightarrow> assign a ((deref ft a)\<lparr>fs_path := p\<rparr>) ft)"

definition getPath :: "u32 \<Rightarrow> ('n, 'h, 'x) fidTable \<Rightarrow> gostring" where
  "getPath fid ft = (case get ft fid of None \<Rightarrow> [] | Some a \<Rightarrow> fs_path (deref ft a))"

definition ft_update :: "u32 \<Rightarrow> 'n \<Rightarrow> gostring \<Rightarrow> ('n, 'h, 'x) fidTable \<Rightarrow> 'n option \<times> ('n, 'h, 'x) fidTable" where
  "ft_update fid n p ft = (case fids ft fid of
       None \<Rightarrow> (None, ft)
     | Some a \<Rightarrow> let fs = deref ft a in
         (Some (fs_node fs), assign a (fs\<lparr>fs_node := n, fs_path := p\<rparr>) ft))"

definition markOpenedWithHandle :: "u32 \<Rightarrow> 'h option \<Rightarrow> ('n, 'h, 'x) fidTable \<Rightarrow> bool \<times> ('n, 'h, 'x) fidTable" where
  "markOpenedWithHandle fid h ft = (case fids ft fid of
       None \<Rightarrow> (False, ft)
     | Some a \<Rightarrow> let fs = deref ft a in
         if fs_state fs \<noteq> fidAllocated then (False, ft)
         else (True, assign a (fs\<lparr>fs_state := fidOpened, fs_handle := h\<rparr>) ft))"

definition updateAndOpen :: "u32 \<Rightarrow> 'n \<Rightarrow> 'h option \<Rightarrow> ('n, 'h, 'x) fidTable \<Rightarrow> 'n option \<times> ('n, 'h, 'x) fidTable" where
  "updateAndOpen fid n h ft = (case fids ft fid of
       None \<Rightarrow> (None, ft)
     | Some a \<Rightarrow> let fs = deref ft a in
         if fs_state fs \<noteq> fidAllocated then (None, ft)
         else (Some (fs_node fs), assign a (fs\<lparr>fs_node := n, fs_state := fidOpened, fs_handle := h\<rparr>) ft))"

section \<open>Table invariant\<close>

text \<open>Distinct fids have distinct states and every address is allocated.\<close>

definition ft_ok :: "('n, 'h, 'x) fidTable \<Rightarrow> bool" where
  "ft_ok ft \<longleftrightarrow> inj_on (fids ft) (dom (fids ft)) \<and> (\<forall>f a. fids ft f = Some a \<longrightarrow> a < length (store ft))"

lemma ft_ok_addr: "ft_ok ft \<Longrightarrow> fids ft f = Some a \<Longrightarrow> a < length (store ft)"
  by (simp add: ft_ok_def)

lemma ft_ok_inj: "ft_ok ft \<Longrightarrow> fids ft f = Some a \<Longrightarrow> fids ft g = Some a \<Longrightarrow> f = g"
  by (auto simp: ft_ok_def inj_on_def dom_def)

lemma ft_ok_new [simp]: "ft_ok newFidTable"
  by (simp add: ft_ok_def newFidTable_def)

lemma ft_okI:
  assumes "\<And>f a. fids ft f = Some a \<Longrightarrow> a < length (store ft)"
    and "\<And>f g a. fids ft f = Some a \<Longrightarrow> fids ft g = Some a \<Longrightarrow> f = g"
  shows "ft_ok ft"
  using assms by (fastforce simp: ft_ok_def inj_on_def dom_def)

lemma assign_simps [simp]:
  "fids (assign a fs ft) = fids ft" "length (store (assign a fs ft)) = length (store ft)"
  by (simp_all add: assign_def)

lemma deref_assign:
  "a < length (store ft) \<Longrightarrow> deref (assign a fs ft) b = (if a = b then fs else deref ft b)"
  by (simp add: deref_def assign_def)

lemma ft_ok_assign [simp]: "ft_ok (assign a fs ft) = ft_ok ft"
  by (simp add: ft_ok_def)

lemma ft_ok_fids:
  "ft_ok ft \<Longrightarrow> fids ft' \<subseteq>\<^sub>m fids ft \<Longrightarrow> length (store ft) \<le> length (store ft') \<Longrightarrow> ft_ok ft'"
  by (rule ft_okI)
    (metis ft_ok_addr domI map_le_def order_less_le_trans, metis ft_ok_inj domI map_le_def)

lemma alloc_add_ok:
  assumes "ft_ok ft" "alloc fs ft = (a, ft1)" "add fid a m ft1 = (e, ft2)"
  shows "ft_ok ft2"
proof (rule ft_okI)
  have st: "store ft2 = store ft @ [fs]" and ad: "a = length (store ft)"
    using assms(2,3) by (auto simp: alloc_def add_def split: if_splits)
  have fd: "fids ft2 g = Some b \<Longrightarrow> fids ft g = Some b \<or> g = fid \<and> b = a" for g b
    using assms(2,3) by (auto simp: alloc_def add_def split: if_splits)
  fix f b assume f: "fids ft2 f = Some b"
  then show "b < length (store ft2)"
    using fd [OF f] ft_ok_addr [OF assms(1)] by (auto simp: st ad less_Suc_eq)
  fix g assume g: "fids ft2 g = Some b"
  show "f = g"
    using fd [OF f] fd [OF g] ft_ok_inj [OF assms(1)] ft_ok_addr [OF assms(1)] ad by blast
qed

text \<open>A clunked state is out of the table for good: only a fresh address is ever
  added, so no later \<^verbatim>\<open>clunk\<close> returns the same state again.\<close>

lemma clunk_unreachable:
  assumes "ft_ok ft" "clunk fid ft = (Some a, ft')"
  shows "a \<notin> ran (fids ft') \<and> a < length (store ft') \<and> ft_ok ft'"
proof -
  have f: "fids ft fid = Some a" and ft': "ft' = ft\<lparr>fids := (fids ft)(fid := None)\<rparr>"
    using assms(2) by (auto simp: clunk_def split: option.splits)
  have "ft_ok ft'" by (rule ft_ok_fids [OF assms(1)]) (auto simp: ft' map_le_def)
  then show ?thesis
    using ft_ok_inj [OF assms(1) f] ft_ok_addr [OF assms(1) f] by (auto simp: ft' ran_def)
qed

section \<open>Clunk against I/O in flight\<close>

text \<open>One fid's state from its opening on, with the goroutines that use it: the
  number of I/O calls between \<^verbatim>\<open>beginIO\<close> and \<^verbatim>\<open>endIO\<close>, the releases that have
  been decided under the lock and not yet carried out, and those carried out,
  each with its \<^verbatim>\<open>closeNode\<close>.\<close>

record ('n, 'h, 'x) fid_run =
  run_fs :: "('n, 'h, 'x) fidState"
  run_active :: nat
  run_clunked :: "bool option"
  run_pending :: "bool list"
  run_released :: "bool list"

definition fid_run_init :: "'n \<Rightarrow> gostring \<Rightarrow> fidStatus \<Rightarrow> ('n, 'h, 'x) fid_run" where
  "fid_run_init n p st = \<lparr>run_fs = new_fidState n p st, run_active = 0, run_clunked = None,
     run_pending = [], run_released = []\<rparr>"

primrec decided :: "bool option \<Rightarrow> bool list" where
  "decided None = []"
| "decided (Some b) = [b]"

text \<open>The steps of the handlers, each one critical section: an I/O handler enters
  or is refused, an I/O handler leaves, the one \<^verbatim>\<open>Tclunk\<close> or \<^verbatim>\<open>Tremove\<close> that took
  the state out of the table finishes, a decided release is carried out.\<close>

inductive fid_step :: "('n, 'h, 'x) fid_run \<Rightarrow> ('n, 'h, 'x) fid_run \<Rightarrow> bool" where
  io_begin: "beginIO (run_fs r) = (True, fs') \<Longrightarrow>
     fid_step r (r\<lparr>run_fs := fs', run_active := Suc (run_active r)\<rparr>)"
| io_refused: "beginIO (run_fs r) = (False, fs') \<Longrightarrow> fid_step r (r\<lparr>run_fs := fs'\<rparr>)"
| io_end: "run_active r = Suc k \<Longrightarrow> endIO (run_fs r) = (d, fs') \<Longrightarrow>
     fid_step r (r\<lparr>run_fs := fs', run_active := k, run_pending := run_pending r @ decided d\<rparr>)"
| clunk: "run_clunked r = None \<Longrightarrow> finishClunk b (run_fs r) = (d, fs') \<Longrightarrow>
     fid_step r (r\<lparr>run_fs := fs', run_clunked := Some b, run_pending := run_pending r @ decided d\<rparr>)"
| release: "run_pending r = b # ps \<Longrightarrow>
     fid_step r (r\<lparr>run_pending := ps, run_released := run_released r @ [b]\<rparr>)"

inductive fid_reachable :: "('n, 'h, 'x) fid_run \<Rightarrow> bool" where
  fid_init: "fid_reachable (fid_run_init n p st)"
| fid_more: "fid_reachable r \<Longrightarrow> fid_step r r' \<Longrightarrow> fid_reachable r'"

definition run_inv :: "('n, 'h, 'x) fid_run \<Rightarrow> bool" where
  "run_inv r \<longleftrightarrow> fs_ioRefs (run_fs r) = int (run_active r)
     \<and> (case run_clunked r of
          None \<Rightarrow> \<not> fs_closing (run_fs r) \<and> run_pending r = [] \<and> run_released r = []
        | Some b \<Rightarrow> fs_closing (run_fs r) \<and> fs_closeNode (run_fs r) = b
            \<and> run_released r @ run_pending r = (if run_active r = 0 then [b] else []))"

lemma fid_step_inv: "fid_step r r' \<Longrightarrow> run_inv r \<Longrightarrow> run_inv r'"
  by (induction rule: fid_step.induct)
    (auto simp: run_inv_def beginIO_def endIO_def finishClunk_def Let_def
      dest: sym [of "Some _"] split: option.splits if_splits)

lemma fid_reachable_inv: "fid_reachable r \<Longrightarrow> run_inv r"
proof (induction rule: fid_reachable.induct)
  case fid_init
  show ?case by (simp add: run_inv_def fid_run_init_def)
qed (rule fid_step_inv)

lemma sample_fid_run:
  obtains r :: "('n, 'h, 'x) fid_run" where "fid_reachable r" "run_clunked r = Some True" "run_active r = 1"
proof -
  let ?fs = "new_fidState undefined [] fidOpened :: ('n, 'h, 'x) fidState"
  let ?r0 = "fid_run_init undefined [] fidOpened :: ('n, 'h, 'x) fid_run"
  have "fid_reachable (?r0\<lparr>run_fs := ?fs\<lparr>fs_ioRefs := 1\<rparr>, run_active := 1\<rparr>)"
    using fid_more [OF fid_init io_begin [of ?r0]] by (simp add: beginIO_def fid_run_init_def)
  from fid_more [OF this fid_step.clunk [where b = True]] that show ?thesis
    by (auto simp: fid_run_init_def finishClunk_def)
qed

section \<open>Properties\<close>



lemma add_respects_limit:
  assumes "0 < maxFids" "int (ft_len ft) \<le> maxFids" "add fid a maxFids ft = (e, ft')"
  shows "int (ft_len ft') \<le> maxFids \<and> (e = None \<longrightarrow> ft_len ft' = Suc (ft_len ft) \<and> fids ft' fid = Some a)
    \<and> (e \<noteq> None \<longrightarrow> ft' = ft)"
  using assms by (auto simp: add_def ft_len_def domIff split: if_splits)

end
