(* ===== verification/GoPath.thy ===== *)
theory GoPath
  imports Errno
begin

text \<open>
  Slash-separated paths: what the sources use of Go's \<^verbatim>\<open>strings\<close> and \<^verbatim>\<open>path\<close>
  packages (\<^verbatim>\<open>Split\<close>, \<^verbatim>\<open>Join\<close>, \<^verbatim>\<open>Clean\<close>, \<^verbatim>\<open>Base\<close>), the name checks of the server
  (\<^verbatim>\<open>validatePathElement\<close> in \<^verbatim>\<open>src/server/dispatch.go\<close>, \<^verbatim>\<open>validName\<close> in
  \<^verbatim>\<open>src/server/bridge.go\<close>) and the client's \<^verbatim>\<open>splitPath\<close> (\<^verbatim>\<open>src/client/path.go\<close>).
\<close>

section \<open>The Go packages strings and path\<close>

abbreviation slash :: byte where "slash \<equiv> 47"
abbreviation dot :: gostring where "dot \<equiv> [46]"
abbreviation dotdot :: gostring where "dotdot \<equiv> [46, 46]"

fun split_slash :: "gostring \<Rightarrow> gostring list" where
  "split_slash [] = [[]]"
| "split_slash (c # cs) = (if c = slash then [] # split_slash cs
     else (c # hd (split_slash cs)) # tl (split_slash cs))"

fun join_slash :: "gostring list \<Rightarrow> gostring" where
  "join_slash [] = []"
| "join_slash [x] = x"
| "join_slash (x # xs) = x @ slash # join_slash xs"

text \<open>\<^verbatim>\<open>path.Clean\<close> on the components of a path: empty components and \<^verbatim>\<open>.\<close> go away,
  \<^verbatim>\<open>..\<close> removes the component before it; at the root it is dropped, at the start
  of a relative path it stays.\<close>

fun clean_step :: "bool \<Rightarrow> gostring list \<Rightarrow> gostring \<Rightarrow> gostring list" where
  "clean_step rooted st c =
     (if c = [] \<or> c = dot then st
      else if c = dotdot then
        (if st \<noteq> [] \<and> last st \<noteq> dotdot then butlast st else if rooted then st else st @ [c])
      else st @ [c])"

definition clean_parts :: "gostring \<Rightarrow> gostring list" where
  "clean_parts p = foldl (clean_step (take 1 p = [slash])) [] (split_slash p)"

definition path_Clean :: "gostring \<Rightarrow> gostring" where
  "path_Clean p =
     (if take 1 p = [slash] then slash # join_slash (clean_parts p)
      else if clean_parts p = [] then dot else join_slash (clean_parts p))"

text \<open>\<^verbatim>\<open>path.Base\<close>: the last component after trailing slashes are stripped.\<close>

definition path_Base :: "gostring \<Rightarrow> gostring" where
  "path_Base p =
     (if p = [] then dot
      else let q = rev (dropWhile (\<lambda>c. c = slash) (rev p)) in
        if q = [] then [slash] else last (split_slash q))"

section \<open>Name checks and splitPath\<close>

definition validatePathElement :: "gostring \<Rightarrow> bool" where
  "validatePathElement name \<longleftrightarrow> name \<noteq> [] \<and> slash \<notin> set name \<and> 0 \<notin> set name"

definition validName :: "gostring \<Rightarrow> bool" where
  "validName name \<longleftrightarrow> name \<noteq> [] \<and> name \<noteq> dot \<and> name \<noteq> dotdot \<and> (\<forall>b \<in> set name. b \<noteq> slash \<and> b \<noteq> 0)"

definition splitPath :: "gostring \<Rightarrow> gostring list" where
  "splitPath p0 =
     (let p = path_Clean p0 in
      if p = dot \<or> p = [slash] then []
      else let q = (if take 1 p = [slash] then drop 1 p else p) in
        filter (\<lambda>s. s \<noteq> []) (split_slash q))"

section \<open>Lemmas\<close>

lemma split_slash_not_Nil [simp]: "split_slash p \<noteq> []"
  by (cases p) auto

lemma split_slash_no_slash: "x \<in> set (split_slash p) \<Longrightarrow> slash \<notin> set x"
proof (induction p arbitrary: x)
  case (Cons c cs)
  have "set (tl (split_slash cs)) \<subseteq> set (split_slash cs)" by (cases "split_slash cs") auto
  then show ?case
    using Cons.prems Cons.IH hd_in_set [of "split_slash cs"] by (auto split: if_splits)
qed simp

lemma split_slash_id: "slash \<notin> set x \<Longrightarrow> split_slash x = [x]"
  by (induction x) auto

lemma split_slash_append: "slash \<notin> set x \<Longrightarrow> split_slash (x @ slash # y) = x # split_slash y"
  by (induction x) auto

lemma split_join: "xs \<noteq> [] \<Longrightarrow> \<forall>x \<in> set xs. slash \<notin> set x \<Longrightarrow> split_slash (join_slash xs) = xs"
  by (induction xs rule: join_slash.induct) (auto simp: split_slash_id split_slash_append)

text \<open>The components a clean path is built from.\<close>

definition clean_ok :: "bool \<Rightarrow> gostring list \<Rightarrow> bool" where
  "clean_ok rooted st \<longleftrightarrow> (\<forall>c \<in> set st. c \<noteq> [] \<and> c \<noteq> dot \<and> slash \<notin> set c \<and> (rooted \<longrightarrow> c \<noteq> dotdot))"

lemma clean_ok_step:
  "clean_ok rooted st \<Longrightarrow> slash \<notin> set c \<Longrightarrow> clean_ok rooted (clean_step rooted st c)"
  by (auto simp: clean_ok_def dest: in_set_butlastD)

lemma clean_ok_foldl:
  "clean_ok rooted st \<Longrightarrow> \<forall>c \<in> set cs. slash \<notin> set c \<Longrightarrow> clean_ok rooted (foldl (clean_step rooted) st cs)"
  by (induction cs arbitrary: st) (simp_all del: clean_step.simps add: clean_ok_step)

lemma clean_ok_parts: "clean_ok (take 1 p = [slash]) (clean_parts p)"
  unfolding clean_parts_def
  by (rule clean_ok_foldl) (auto simp: clean_ok_def dest: split_slash_no_slash)

lemma join_slash_empty: "clean_ok r st \<Longrightarrow> join_slash st = [] \<longleftrightarrow> st = []"
  by (induction st rule: join_slash.induct) (auto simp: clean_ok_def)

lemma join_slash_hd: "clean_ok r st \<Longrightarrow> take 1 (join_slash st) \<noteq> [slash]"
proof (induction st rule: join_slash.induct)
  case (3 x y ys)
  then show ?case by (cases x) (auto simp: clean_ok_def)
next
  case (2 x)
  then show ?case by (cases x) (auto simp: clean_ok_def)
qed simp

lemma join_slash_dot: "clean_ok r st \<Longrightarrow> join_slash st \<noteq> dot"
  by (cases st rule: join_slash.cases) (auto simp: clean_ok_def append_eq_Cons_conv)

text \<open>\<^verbatim>\<open>splitPath\<close> returns exactly the components of the clean path.\<close>

lemma splitPath_clean: "splitPath p = clean_parts p"
proof -
  let ?r = "take 1 p = [slash]" and ?st = "clean_parts p"
  have ok: "clean_ok ?r ?st" by (rule clean_ok_parts)
  show ?thesis
  proof (cases "?st = []")
    case True
    then show ?thesis by (simp add: splitPath_def path_Clean_def)
  next
    case False
    have "split_slash (join_slash ?st) = ?st"
      using ok False by (intro split_join) (auto simp: clean_ok_def)
    moreover have "filter (\<lambda>s. s \<noteq> []) ?st = ?st"
      using ok by (auto simp: clean_ok_def filter_id_conv)
    ultimately show ?thesis
      using False ok join_slash_hd [OF ok] join_slash_dot [OF ok] join_slash_empty [OF ok]
      by (auto simp: splitPath_def path_Clean_def Let_def)
  qed
qed

section \<open>Properties\<close>





end
