(* ===== verification/InodeTree.thy ===== *)
theory InodeTree
  imports Wire Errno "HOL-Library.AList"
begin

text \<open>
  The server's inode tree (\<^verbatim>\<open>src/server/inode.go\<close>): parent and child links, the
  count of fids that reference a node, and the pruning of an entry whose last
  reference goes away. An \<^verbatim>\<open>*Inode\<close> is an address of the heap, a function from
  addresses to inodes; the children map is an association list whose order
  stands for Go's (unspecified) iteration order.

  An operation that would take a mutex its own goroutine already holds, as
  \<^verbatim>\<open>AddChild\<close> does when an inode is added below itself, never returns: it has
  the value \<^verbatim>\<open>None\<close>.
\<close>

section \<open>Inodes\<close>

record 'n inode =
  i_qid :: QID
  i_parent :: "nat option"
  i_children :: "(gostring \<times> nat) list"
  i_node :: "'n option"
  i_refs :: "32 word"
  i_prunable :: bool

type_synonym 'n inodes = "nat \<Rightarrow> 'n inode"

definition upd_inode :: "nat \<Rightarrow> ('n inode \<Rightarrow> 'n inode) \<Rightarrow> 'n inodes \<Rightarrow> 'n inodes" where
  "upd_inode i f H = H(i := f (H i))"

lemma upd_inode_apply: "upd_inode i f H j = (if j = i then f (H i) else H j)"
  by (simp add: upd_inode_def)

text \<open>\<^verbatim>\<open>Init\<close> with a non-nil node (a nil one makes the inode its own node, which
  no code of the repository uses); the panic on a value that is not a \<^verbatim>\<open>Node\<close> is
  excluded by the type.\<close>

definition Init :: "nat \<Rightarrow> QID \<Rightarrow> 'n \<Rightarrow> 'n inodes \<Rightarrow> 'n inodes" where
  "Init i qid n = upd_inode i (\<lambda>x. x\<lparr>i_qid := qid, i_node := Some n\<rparr>)"

definition SetPrunable :: "nat \<Rightarrow> 'n inodes \<Rightarrow> 'n inodes" where
  "SetPrunable i = upd_inode i (\<lambda>x. x\<lparr>i_prunable := True\<rparr>)"

definition Parent :: "nat \<Rightarrow> 'n inodes \<Rightarrow> nat option" where
  "Parent i H = i_parent (H i)"

definition Children :: "nat \<Rightarrow> 'n inodes \<Rightarrow> (gostring \<times> nat) list" where
  "Children i H = i_children (H i)"

section \<open>References\<close>

definition incRef :: "nat \<Rightarrow> 'n inodes \<Rightarrow> 'n inodes" where
  "incRef i = upd_inode i (\<lambda>x. x\<lparr>i_refs := i_refs x + 1\<rparr>)"

text \<open>The scan of \<^verbatim>\<open>decRef\<close>, \<^verbatim>\<open>removeViaInodeTree\<close> and \<^verbatim>\<open>handleRename\<close>: the first
  name whose entry is the given inode.\<close>

fun name_of :: "nat \<Rightarrow> (gostring \<times> nat) list \<Rightarrow> gostring option" where
  "name_of i [] = None"
| "name_of i ((name, child) # cs) = (if child = i then Some name else name_of i cs)"

definition decRef :: "nat \<Rightarrow> 'n inodes \<Rightarrow> bool \<times> 'n inodes" where
  "decRef i H =
     (let H1 = upd_inode i (\<lambda>x. x\<lparr>i_refs := i_refs x - 1\<rparr>) H in
      if i_refs (H1 i) \<noteq> 0 then (False, H1)
      else case (i_prunable (H1 i), i_parent (H1 i)) of
        (True, Some p) \<Rightarrow>
          (True, case name_of i (i_children (H1 p)) of
             None \<Rightarrow> H1
           | Some name \<Rightarrow> upd_inode p (\<lambda>x. x\<lparr>i_children := AList.delete name (i_children x)\<rparr>) H1)
      | _ \<Rightarrow> (True, H1))"

section \<open>The children map\<close>

definition AddChild :: "nat \<Rightarrow> gostring \<Rightarrow> nat \<Rightarrow> 'n inodes \<Rightarrow> 'n inodes option" where
  "AddChild i name child H =
     (if child = i then None
      else Some (upd_inode i (\<lambda>x. x\<lparr>i_children := AList.update name child (i_children x)\<rparr>)
             (upd_inode child (\<lambda>x. x\<lparr>i_parent := Some i\<rparr>) H)))"

definition TryAddChild :: "nat \<Rightarrow> gostring \<Rightarrow> nat \<Rightarrow> 'n inodes \<Rightarrow> (bool \<times> 'n inodes) option" where
  "TryAddChild i name child H =
     (if map_of (i_children (H i)) name \<noteq> None then Some (False, H)
      else map_option (Pair True) (AddChild i name child H))"

definition RemoveChild :: "nat \<Rightarrow> gostring \<Rightarrow> 'n inodes \<Rightarrow> 'n inodes" where
  "RemoveChild i name = upd_inode i (\<lambda>x. x\<lparr>i_children := AList.delete name (i_children x)\<rparr>)"

definition RemoveChildIf :: "nat \<Rightarrow> gostring \<Rightarrow> ('n \<Rightarrow> nat \<Rightarrow> go_error option) \<Rightarrow> 'n inodes
    \<Rightarrow> (go_error option \<times> 'n inodes) option" where
  "RemoveChildIf i name check H =
     (case map_of (i_children (H i)) name of
        None \<Rightarrow> Some (Some (ProtoErrno ENOENT), H)
      | Some child \<Rightarrow>
          if child = i then None
          else case i_node (H child) of
            None \<Rightarrow> Some (Some (ProtoErrno EIO), H)
          | Some n \<Rightarrow> (case check n (length (i_children (H child))) of
              Some e \<Rightarrow> Some (Some e, H)
            | None \<Rightarrow> Some (None, upd_inode child (\<lambda>x. x\<lparr>i_parent := None\<rparr>) (RemoveChild i name H))))"

definition Inode_Lookup :: "nat \<Rightarrow> gostring \<Rightarrow> 'n inodes \<Rightarrow> go_error + 'n" where
  "Inode_Lookup i name H =
     (case map_of (i_children (H i)) name of
        None \<Rightarrow> Inl (ProtoErrno ENOENT)
      | Some child \<Rightarrow> (case i_node (H child) of None \<Rightarrow> Inl (ProtoErrno ENOENT) | Some n \<Rightarrow> Inr n))"

section \<open>Lemmas\<close>

text \<open>What the operations leave alone: reference counts outside \<^verbatim>\<open>incRef\<close> and
  \<^verbatim>\<open>decRef\<close>.\<close>

lemma refs_simps [simp]:
  "i_refs (Init i q n H j) = i_refs (H j)"
  "i_refs (SetPrunable i H j) = i_refs (H j)"
  "i_refs (RemoveChild i name H j) = i_refs (H j)"
  "i_refs (incRef i H j) = i_refs (H j) + (if j = i then 1 else 0)"
  "i_refs (snd (decRef i H) j) = i_refs (H j) - (if j = i then 1 else 0)"
  by (auto simp: Init_def SetPrunable_def RemoveChild_def incRef_def decRef_def upd_inode_apply Let_def
      split: option.splits bool.splits)

lemma refs_AddChild: "AddChild i name c H = Some H' \<Longrightarrow> i_refs (H' j) = i_refs (H j)"
  by (auto simp: AddChild_def upd_inode_apply split: if_splits)

lemma refs_TryAddChild: "TryAddChild i name c H = Some (b, H') \<Longrightarrow> i_refs (H' j) = i_refs (H j)"
  by (auto simp: TryAddChild_def refs_AddChild split: if_splits)

lemma refs_RemoveChildIf: "RemoveChildIf i name ch H = Some (e, H') \<Longrightarrow> i_refs (H' j) = i_refs (H j)"
  by (auto simp: RemoveChildIf_def upd_inode_apply split: option.splits if_splits)

lemma decRef_last: "fst (decRef i H) \<longleftrightarrow> i_refs (H i) = 1"
  by (auto simp: decRef_def upd_inode_apply Let_def split: option.splits bool.splits)

lemma name_of_Some: "name_of i cs = Some name \<Longrightarrow> (name, i) \<in> set cs"
  by (induction i cs rule: name_of.induct) (auto split: if_splits)

lemma name_of_None: "name_of i cs = None \<longleftrightarrow> i \<notin> snd ` set cs"
  by (induction i cs rule: name_of.induct) auto

lemma map_of_delete: "map_of (AList.delete k xs) x = (if x = k then None else map_of xs x)"
  by (simp add: delete_conv')

text \<open>Well-formed trees: names within a directory are distinct.\<close>

definition names_ok :: "'n inodes \<Rightarrow> bool" where
  "names_ok H \<longleftrightarrow> (\<forall>i. distinct (map fst (i_children (H i))))"

lemma names_okD: "names_ok H \<Longrightarrow> distinct (map fst (i_children (H i)))"
  by (simp add: names_ok_def)

lemma names_ok_upd:
  "names_ok H \<Longrightarrow> (distinct (map fst (i_children (H i))) \<Longrightarrow> distinct (map fst (i_children (f (H i)))))
   \<Longrightarrow> names_ok (upd_inode i f H)"
  by (simp add: names_ok_def upd_inode_apply)

lemma names_ok_ops:
  assumes "names_ok H"
  shows "names_ok (incRef i H)" "names_ok (snd (decRef i H))" "names_ok (RemoveChild i name H)"
    "names_ok (Init i q n H)" "names_ok (SetPrunable i H)"
    "AddChild i name c H = Some H' \<Longrightarrow> names_ok H'"
    "TryAddChild i name c H = Some (b, H') \<Longrightarrow> names_ok H'"
    "RemoveChildIf i name ch H = Some (e, H') \<Longrightarrow> names_ok H'"
proof -
  have upd: "distinct (map fst (AList.update k v xs))" if "distinct (map fst xs)" for k v and xs :: "(gostring \<times> nat) list"
    using that by (rule distinct_update)
  have del: "distinct (map fst (AList.delete k xs))" if "distinct (map fst xs)" for k and xs :: "(gostring \<times> nat) list"
    using that by (rule distinct_delete)
  show "names_ok (incRef i H)" "names_ok (RemoveChild i name H)" "names_ok (Init i q n H)" "names_ok (SetPrunable i H)"
    unfolding incRef_def RemoveChild_def Init_def SetPrunable_def by (auto intro!: names_ok_upd assms del)
  show "names_ok (snd (decRef i H))"
    unfolding decRef_def Let_def by (auto intro!: names_ok_upd assms del split: option.splits bool.splits)
  show add: "AddChild i name c H = Some H' \<Longrightarrow> names_ok H'" for H'
    by (auto simp: AddChild_def intro!: names_ok_upd assms upd split: if_splits)
  show "TryAddChild i name c H = Some (b, H') \<Longrightarrow> names_ok H'"
    using assms by (auto simp: TryAddChild_def dest: add split: if_splits)
  show "RemoveChildIf i name ch H = Some (e, H') \<Longrightarrow> names_ok H'"
    using assms by (auto simp: RemoveChildIf_def RemoveChild_def intro!: names_ok_upd del split: option.splits if_splits)
qed

end
