(* ===== verification/Effects.thy ===== *)
theory Effects
  imports "HOL-Library.State_Monad"
begin

text \<open>
  Rules for stateful code in the state monad. \<^verbatim>\<open>valid P m Q\<close> says that from a
  state with \<^verbatim>\<open>P\<close> the run of \<^verbatim>\<open>m\<close> ends with a result and a state related by
  \<^verbatim>\<open>Q\<close>; \<^verbatim>\<open>keeps P m\<close> that \<^verbatim>\<open>m\<close> preserves \<^verbatim>\<open>P\<close>; \<^verbatim>\<open>yields Q m\<close> that every result
  satisfies \<^verbatim>\<open>Q\<close>. The collections \<^verbatim>\<open>keeps_intro\<close> and \<^verbatim>\<open>yields_intro\<close> hold one
  rule per statement form, so that the proof for a handler follows its text.
\<close>

abbreviation ret :: "'a \<Rightarrow> ('s, 'a) state" where
  "ret \<equiv> State_Monad.return"

definition gets :: "('s \<Rightarrow> 'a) \<Rightarrow> ('s, 'a) state" where
  "gets f = State (\<lambda>s. (f s, s))"

definition modify :: "('s \<Rightarrow> 's) \<Rightarrow> ('s, unit) state" where
  "modify f = State (\<lambda>s. ((), f s))"

lemma run_gets [simp]: "run_state (gets f) s = (f s, s)"
  by (simp add: gets_def)

lemma run_modify [simp]: "run_state (modify f) s = ((), f s)"
  by (simp add: modify_def)

section \<open>Triples\<close>

definition valid :: "('s \<Rightarrow> bool) \<Rightarrow> ('s, 'a) state \<Rightarrow> ('a \<Rightarrow> 's \<Rightarrow> bool) \<Rightarrow> bool" where
  "valid P m Q \<longleftrightarrow> (\<forall>s. P s \<longrightarrow> (case run_state m s of (a, s') \<Rightarrow> Q a s'))"

lemma validI: "(\<And>s a s'. P s \<Longrightarrow> run_state m s = (a, s') \<Longrightarrow> Q a s') \<Longrightarrow> valid P m Q"
  by (auto simp: valid_def)

lemma validD: "valid P m Q \<Longrightarrow> P s \<Longrightarrow> run_state m s = (a, s') \<Longrightarrow> Q a s'"
  by (auto simp: valid_def)

lemma valid_weaken:
  "valid P m Q \<Longrightarrow> (\<And>s. P' s \<Longrightarrow> P s) \<Longrightarrow> (\<And>a s. Q a s \<Longrightarrow> Q' a s) \<Longrightarrow> valid P' m Q'"
  by (fastforce simp: valid_def)

lemma valid_bind: "valid P m R \<Longrightarrow> (\<And>a. valid (R a) (f a) Q) \<Longrightarrow> valid P (State_Monad.bind m f) Q"
  by (fastforce simp: valid_def split: prod.splits)

lemma valid_return: "(\<And>s. P s \<Longrightarrow> Q a s) \<Longrightarrow> valid P (ret a) Q"
  by (simp add: valid_def)

section \<open>Preservation\<close>

definition keeps :: "('s \<Rightarrow> bool) \<Rightarrow> ('s, 'a) state \<Rightarrow> bool" where
  "keeps P m \<longleftrightarrow> (\<forall>s. P s \<longrightarrow> P (snd (run_state m s)))"

named_theorems keeps_intro \<open>preservation through the statement forms and the primitive operations\<close>

lemma keepsI: "(\<And>s. P s \<Longrightarrow> P (snd (run_state m s))) \<Longrightarrow> keeps P m"
  by (simp add: keeps_def)

lemma keepsD: "keeps P m \<Longrightarrow> P s \<Longrightarrow> P (snd (run_state m s))"
  by (simp add: keeps_def)

lemma keeps_valid: "keeps P m \<longleftrightarrow> valid P m (\<lambda>_. P)"
  by (simp add: keeps_def valid_def case_prod_beta)

lemma keeps_return [keeps_intro]: "keeps P (ret a)"
  by (simp add: keeps_def)

lemma keeps_bind [keeps_intro]:
  "keeps P m \<Longrightarrow> (\<And>a. keeps P (f a)) \<Longrightarrow> keeps P (State_Monad.bind m f)"
  by (simp add: keeps_def split: prod.splits) (metis sndI)

lemma keeps_gets [keeps_intro]: "keeps P (gets f)"
  by (simp add: keeps_def)

lemma keeps_if [keeps_intro]:
  "(c \<Longrightarrow> keeps P m) \<Longrightarrow> (\<not> c \<Longrightarrow> keeps P m') \<Longrightarrow> keeps P (if c then m else m')"
  by simp

lemma keeps_option [keeps_intro]:
  "(x = None \<Longrightarrow> keeps P m) \<Longrightarrow> (\<And>y. x = Some y \<Longrightarrow> keeps P (f y))
   \<Longrightarrow> keeps P (case x of None \<Rightarrow> m | Some y \<Rightarrow> f y)"
  by (cases x) simp_all

lemma keeps_sum [keeps_intro]:
  "(\<And>y. x = Inl y \<Longrightarrow> keeps P (f y)) \<Longrightarrow> (\<And>z. x = Inr z \<Longrightarrow> keeps P (g z))
   \<Longrightarrow> keeps P (case x of Inl y \<Rightarrow> f y | Inr z \<Rightarrow> g z)"
  by (cases x) simp_all

lemma keeps_prod [keeps_intro]:
  "(\<And>y z. x = (y, z) \<Longrightarrow> keeps P (f y z)) \<Longrightarrow> keeps P (case x of (y, z) \<Rightarrow> f y z)"
  by (cases x) simp

lemma keeps_let [keeps_intro]: "(\<And>y. y = x \<Longrightarrow> keeps P (f y)) \<Longrightarrow> keeps P (let y = x in f y)"
  by simp

section \<open>Rules that follow the program text\<close>

named_theorems valid_intro \<open>triples through the statement forms\<close>

lemma valid_keeps_bind:
  "keeps P m \<Longrightarrow> (\<And>a. valid P (f a) Q) \<Longrightarrow> valid P (State_Monad.bind m f) Q"
  by (rule valid_bind) (simp_all add: keeps_valid)

lemma valid_pure: "(R \<Longrightarrow> valid P m Q) \<Longrightarrow> valid (\<lambda>s. P s \<and> R) m Q"
  by (simp add: valid_def)

lemma valid_if [valid_intro]:
  "(c \<Longrightarrow> valid P m Q) \<Longrightarrow> (\<not> c \<Longrightarrow> valid P m' Q) \<Longrightarrow> valid P (if c then m else m') Q"
  by simp

lemma valid_option [valid_intro]:
  "(x = None \<Longrightarrow> valid P m Q) \<Longrightarrow> (\<And>y. x = Some y \<Longrightarrow> valid P (f y) Q)
   \<Longrightarrow> valid P (case x of None \<Rightarrow> m | Some y \<Rightarrow> f y) Q"
  by (cases x) simp_all

lemma valid_sum [valid_intro]:
  "(\<And>y. x = Inl y \<Longrightarrow> valid P (f y) Q) \<Longrightarrow> (\<And>z. x = Inr z \<Longrightarrow> valid P (g z) Q)
   \<Longrightarrow> valid P (case x of Inl y \<Rightarrow> f y | Inr z \<Rightarrow> g z) Q"
  by (cases x) simp_all

lemma valid_prod [valid_intro]:
  "(\<And>y z. x = (y, z) \<Longrightarrow> valid P (f y z) Q) \<Longrightarrow> valid P (case x of (y, z) \<Rightarrow> f y z) Q"
  by (cases x) simp

lemma valid_let [valid_intro]: "(\<And>y. y = x \<Longrightarrow> valid P (f y) Q) \<Longrightarrow> valid P (let y = x in f y) Q"
  by simp

section \<open>Results\<close>

definition yields :: "('a \<Rightarrow> bool) \<Rightarrow> ('s, 'a) state \<Rightarrow> bool" where
  "yields Q m \<longleftrightarrow> (\<forall>s. Q (fst (run_state m s)))"

named_theorems yields_intro \<open>results through the statement forms\<close>

lemma yieldsD: "yields Q m \<Longrightarrow> Q (fst (run_state m s))"
  by (simp add: yields_def)

lemma yields_return [yields_intro]: "Q a \<Longrightarrow> yields Q (ret a)"
  by (simp add: yields_def)

lemma yields_bind [yields_intro]: "(\<And>a. yields Q (f a)) \<Longrightarrow> yields Q (State_Monad.bind m f)"
  by (simp add: yields_def split: prod.splits)

lemma yields_bind_with:
  "yields R m \<Longrightarrow> (\<And>a. R a \<Longrightarrow> yields Q (f a)) \<Longrightarrow> yields Q (State_Monad.bind m f)"
  by (simp add: yields_def split: prod.splits) (metis fst_conv)

lemma yields_if [yields_intro]:
  "(c \<Longrightarrow> yields Q m) \<Longrightarrow> (\<not> c \<Longrightarrow> yields Q m') \<Longrightarrow> yields Q (if c then m else m')"
  by simp

lemma yields_option [yields_intro]:
  "(x = None \<Longrightarrow> yields Q m) \<Longrightarrow> (\<And>y. x = Some y \<Longrightarrow> yields Q (f y))
   \<Longrightarrow> yields Q (case x of None \<Rightarrow> m | Some y \<Rightarrow> f y)"
  by (cases x) simp_all

lemma yields_sum [yields_intro]:
  "(\<And>y. x = Inl y \<Longrightarrow> yields Q (f y)) \<Longrightarrow> (\<And>z. x = Inr z \<Longrightarrow> yields Q (g z))
   \<Longrightarrow> yields Q (case x of Inl y \<Rightarrow> f y | Inr z \<Rightarrow> g z)"
  by (cases x) simp_all

lemma yields_prod [yields_intro]:
  "(\<And>y z. x = (y, z) \<Longrightarrow> yields Q (f y z)) \<Longrightarrow> yields Q (case x of (y, z) \<Rightarrow> f y z)"
  by (cases x) simp

lemma yields_let [yields_intro]: "(\<And>y. y = x \<Longrightarrow> yields Q (f y)) \<Longrightarrow> yields Q (let y = x in f y)"
  by simp

lemma valid_yields: "keeps P m \<Longrightarrow> yields R m \<Longrightarrow> valid P m (\<lambda>r s. P s \<and> R r)"
  by (auto simp: keeps_def yields_def valid_def case_prod_beta)

lemma yields_weaken: "yields Q m \<Longrightarrow> (\<And>a. Q a \<Longrightarrow> Q' a) \<Longrightarrow> yields Q' m"
  by (simp add: yields_def)

end
