(* ===== verification/ServerState.thy ===== *)
theory ServerState
  imports Frame FidTable InodeTree Effects GoPath
begin

text \<open>
  What the request handlers of one connection work on: the connection's state,
  the file system it exports, and the helpers the handlers share
  (\<^verbatim>\<open>src/server/dispatch.go\<close>, \<^verbatim>\<open>node.go\<close>, \<^verbatim>\<open>filehandle.go\<close>, \<^verbatim>\<open>conn.go\<close>).

  The file system is code the server only calls: it is the parameter \<^verbatim>\<open>vfs\<close>,
  one field per capability interface, with \<^verbatim>\<open>None\<close> where a Go type assertion to
  the interface fails. Its operations act on the whole server state. They may
  maintain the inode tree, as real nodes do, and while a handler waits for one of
  them the other requests of the connection run: a call stands for the work of
  the node together with whatever happened meanwhile. The theorems about
  handlers say what they need of such calls.
\<close>

section \<open>Connection state and the exported file system\<close>

text \<open>The calls that end the life of a handle or a node, recorded in the order the
  server makes them.\<close>

datatype ('n, 'h) closing = Release 'h | Close 'n

record ('n, 'h, 'x, 'w) srv =
  s_tab :: "('n, 'h, 'x) fidTable"
  s_inodes :: "'n inodes"
  s_closed :: "('n, 'h) closing list"
  s_world :: 'w

type_synonym ('n, 'h, 'x, 'w, 'a) act = "(('n, 'h, 'x, 'w) srv, 'a) state"
type_synonym ('n, 'h, 'x, 'w, 'a) call = "(('n, 'h, 'x, 'w) srv, go_error + 'a) state"

text \<open>A \<^verbatim>\<open>Read\<close> into a buffer returns the count the implementation reports and the
  contents of the buffer. \<^verbatim>\<open>Lock\<close> and \<^verbatim>\<open>GetLock\<close>, the two methods of
  \<^verbatim>\<open>RawXattrer\<close> and those of \<^verbatim>\<open>XattrWriter\<close> are each one interface.\<close>

type_synonym ('n, 'h, 'x, 'w) reads = "u32 \<Rightarrow> u64 \<Rightarrow> ('n, 'h, 'x, 'w, int \<times> (nat \<Rightarrow> byte)) call"
type_synonym ('n, 'h, 'x, 'w) writes = "bytes \<Rightarrow> u64 \<Rightarrow> ('n, 'h, 'x, 'w, u32) call"
type_synonym ('n, 'h, 'x, 'w) locks =
  "(u8 \<Rightarrow> u32 \<Rightarrow> u64 \<Rightarrow> u64 \<Rightarrow> u32 \<Rightarrow> gostring \<Rightarrow> ('n, 'h, 'x, 'w, u8) call)
   \<times> (u8 \<Rightarrow> u64 \<Rightarrow> u64 \<Rightarrow> u32 \<Rightarrow> gostring \<Rightarrow> ('n, 'h, 'x, 'w, u8 \<times> u64 \<times> u64 \<times> u32 \<times> gostring) call)"

record ('n, 'h, 'x, 'w) vfs =
  v_QID :: "'n \<Rightarrow> ('n, 'h, 'x, 'w) srv \<Rightarrow> QID"
  v_EmbeddedInode :: "'n \<Rightarrow> nat option"
  n_Lookup :: "'n \<Rightarrow> (gostring \<Rightarrow> ('n, 'h, 'x, 'w, 'n) call) option"
  n_Open :: "'n \<Rightarrow> (u32 \<Rightarrow> ('n, 'h, 'x, 'w, 'h option \<times> u32) call) option"
  n_Read :: "'n \<Rightarrow> ('n, 'h, 'x, 'w) reads option"
  n_Write :: "'n \<Rightarrow> ('n, 'h, 'x, 'w) writes option"
  n_Getattr :: "'n \<Rightarrow> (u64 \<Rightarrow> ('n, 'h, 'x, 'w, Attr) call) option"
  n_Setattr :: "'n \<Rightarrow> (SetAttr \<Rightarrow> ('n, 'h, 'x, 'w, unit) call) option"
  n_Readdir :: "'n \<Rightarrow> ('n, 'h, 'x, 'w, Dirent list) call option"
  n_RawReaddir :: "'n \<Rightarrow> ('n, 'h, 'x, 'w) reads option"
  n_Create :: "'n \<Rightarrow> (gostring \<Rightarrow> u32 \<Rightarrow> u32 \<Rightarrow> u32 \<Rightarrow> ('n, 'h, 'x, 'w, 'n \<times> 'h option \<times> u32) call) option"
  n_Mkdir :: "'n \<Rightarrow> (gostring \<Rightarrow> u32 \<Rightarrow> u32 \<Rightarrow> ('n, 'h, 'x, 'w, 'n) call) option"
  n_Symlink :: "'n \<Rightarrow> (gostring \<Rightarrow> gostring \<Rightarrow> u32 \<Rightarrow> ('n, 'h, 'x, 'w, 'n) call) option"
  n_Link :: "'n \<Rightarrow> ('n \<Rightarrow> gostring \<Rightarrow> ('n, 'h, 'x, 'w, unit) call) option"
  n_Mknod :: "'n \<Rightarrow> (gostring \<Rightarrow> u32 \<Rightarrow> u32 \<Rightarrow> u32 \<Rightarrow> u32 \<Rightarrow> ('n, 'h, 'x, 'w, 'n) call) option"
  n_Readlink :: "'n \<Rightarrow> ('n, 'h, 'x, 'w, gostring) call option"
  n_Unlink :: "'n \<Rightarrow> (gostring \<Rightarrow> u32 \<Rightarrow> ('n, 'h, 'x, 'w, unit) call) option"
  n_Rename :: "'n \<Rightarrow> (gostring \<Rightarrow> 'n \<Rightarrow> gostring \<Rightarrow> ('n, 'h, 'x, 'w, unit) call) option"
  n_StatFS :: "'n \<Rightarrow> ('n, 'h, 'x, 'w, FSStat) call option"
  n_Fsync :: "'n \<Rightarrow> ('n, 'h, 'x, 'w, unit) call option"
  n_Locker :: "'n \<Rightarrow> ('n, 'h, 'x, 'w) locks option"
  n_Close :: "'n \<Rightarrow> ('n, 'h, 'x, 'w, unit) call option"
  n_GetXattr :: "'n \<Rightarrow> (gostring \<Rightarrow> ('n, 'h, 'x, 'w, bytes) call) option"
  n_SetXattr :: "'n \<Rightarrow> (gostring \<Rightarrow> bytes \<Rightarrow> u32 \<Rightarrow> ('n, 'h, 'x, 'w, unit) call) option"
  n_ListXattrs :: "'n \<Rightarrow> ('n, 'h, 'x, 'w, gostring list) call option"
  n_RemoveXattr :: "'n \<Rightarrow> (gostring \<Rightarrow> ('n, 'h, 'x, 'w, unit) call) option"
  n_RawXattr :: "'n \<Rightarrow> ((gostring \<Rightarrow> ('n, 'h, 'x, 'w, bytes) call)
                       \<times> (gostring \<Rightarrow> u64 \<Rightarrow> u32 \<Rightarrow> ('n, 'h, 'x, 'w, 'x) call)) option"
  x_Write :: "'x \<Rightarrow> bytes \<Rightarrow> ('n, 'h, 'x, 'w, int) call"
  x_Commit :: "'x \<Rightarrow> ('n, 'h, 'x, 'w, unit) call"
  h_Read :: "'h \<Rightarrow> ('n, 'h, 'x, 'w) reads option"
  h_Write :: "'h \<Rightarrow> ('n, 'h, 'x, 'w) writes option"
  h_Release :: "'h \<Rightarrow> ('n, 'h, 'x, 'w, unit) call option"
  h_Fsync :: "'h \<Rightarrow> ('n, 'h, 'x, 'w, unit) call option"
  h_Locker :: "'h \<Rightarrow> ('n, 'h, 'x, 'w) locks option"
  h_Readdir :: "'h \<Rightarrow> ('n, 'h, 'x, 'w, Dirent list) call option"
  h_RawReaddir :: "'h \<Rightarrow> ('n, 'h, 'x, 'w) reads option"

datatype protocol = protocolNone | protocolL | protocolU

record ('n, 'h, 'x, 'w) cfg =
  c_msize :: u32
  c_protocol :: protocol
  c_maxFids :: int
  c_attacher :: "(gostring \<Rightarrow> gostring \<Rightarrow> u32 \<Rightarrow> ('n, 'h, 'x, 'w, 'n) call) option"
  c_anames :: "(gostring \<rightharpoonup> 'n) option"
  c_root :: 'n

text \<open>A handler answers with a message, or blocks for ever on a mutex its own
  goroutine holds (see \<^verbatim>\<open>AddChild\<close>).\<close>

datatype outcome = Reply message | Deadlock

definition errorMsg :: "('n, 'h, 'x, 'w) cfg \<Rightarrow> u32 \<Rightarrow> message" where
  "errorMsg c errno = (case c_protocol c of
       protocolU \<Rightarrow> U (Rerror (Errno_Error errno) errno)
     | _ \<Rightarrow> L (Rlerror errno))"

abbreviation reply :: "message \<Rightarrow> ('n, 'h, 'x, 'w, outcome) act" where
  "reply m \<equiv> ret (Reply m)"

abbreviation fail :: "('n, 'h, 'x, 'w) cfg \<Rightarrow> u32 \<Rightarrow> ('n, 'h, 'x, 'w, outcome) act" where
  "fail c errno \<equiv> ret (Reply (errorMsg c errno))"

section \<open>Primitive operations\<close>

definition on_tab :: "(('n, 'h, 'x) fidTable \<Rightarrow> 'a \<times> ('n, 'h, 'x) fidTable) \<Rightarrow> ('n, 'h, 'x, 'w, 'a) act" where
  "on_tab f = State (\<lambda>s. case f (s_tab s) of (x, t) \<Rightarrow> (x, s\<lparr>s_tab := t\<rparr>))"

definition on_inodes :: "('n inodes \<Rightarrow> 'a \<times> 'n inodes) \<Rightarrow> ('n, 'h, 'x, 'w, 'a) act" where
  "on_inodes f = State (\<lambda>s. case f (s_inodes s) of (x, H) \<Rightarrow> (x, s\<lparr>s_inodes := H\<rparr>))"

definition fid_get :: "u32 \<Rightarrow> ('n, 'h, 'x, 'w, nat option) act" where
  "fid_get fid = gets (\<lambda>s. get (s_tab s) fid)"

definition fid_state :: "nat \<Rightarrow> ('n, 'h, 'x, 'w, ('n, 'h, 'x) fidState) act" where
  "fid_state a = gets (\<lambda>s. deref (s_tab s) a)"

definition fid_modify :: "nat \<Rightarrow> (('n, 'h, 'x) fidState \<Rightarrow> ('n, 'h, 'x) fidState) \<Rightarrow> ('n, 'h, 'x, 'w, unit) act" where
  "fid_modify a f = modify (\<lambda>s. s\<lparr>s_tab := assign a (f (deref (s_tab s) a)) (s_tab s)\<rparr>)"

definition currentNode :: "nat \<Rightarrow> ('n, 'h, 'x, 'w, 'n) act" where
  "currentNode a = gets (\<lambda>s. fs_node (deref (s_tab s) a))"

definition currentState :: "nat \<Rightarrow> ('n, 'h, 'x, 'w, fidStatus) act" where
  "currentState a = gets (\<lambda>s. fs_state (deref (s_tab s) a))"

definition currentPath :: "nat \<Rightarrow> ('n, 'h, 'x, 'w, gostring) act" where
  "currentPath a = gets (\<lambda>s. fs_path (deref (s_tab s) a))"

definition nodeAndPath :: "nat \<Rightarrow> ('n, 'h, 'x, 'w, 'n \<times> gostring) act" where
  "nodeAndPath a = gets (\<lambda>s. (fs_node (deref (s_tab s) a), fs_path (deref (s_tab s) a)))"

text \<open>Every \<^verbatim>\<open>Node\<close> has a \<^verbatim>\<open>QID\<close> method and so satisfies \<^verbatim>\<open>QIDer\<close>: the other
  branches of \<^verbatim>\<open>nodeQID\<close> are never reached.\<close>

definition nodeQID :: "('n, 'h, 'x, 'w) vfs \<Rightarrow> 'n \<Rightarrow> ('n, 'h, 'x, 'w, QID) act" where
  "nodeQID V n = gets (v_QID V n)"

definition incRefNode :: "('n, 'h, 'x, 'w) vfs \<Rightarrow> 'n \<Rightarrow> ('n, 'h, 'x, 'w, unit) act" where
  "incRefNode V n = (case v_EmbeddedInode V n of
       None \<Rightarrow> ret ()
     | Some i \<Rightarrow> on_inodes (\<lambda>H. ((), incRef i H)))"

definition decRefNode :: "('n, 'h, 'x, 'w) vfs \<Rightarrow> 'n \<Rightarrow> ('n, 'h, 'x, 'w, bool) act" where
  "decRefNode V n = (case v_EmbeddedInode V n of
       None \<Rightarrow> ret True
     | Some i \<Rightarrow> on_inodes (decRef i))"

definition note_closing :: "('n, 'h) closing \<Rightarrow> ('n, 'h, 'x, 'w, unit) act" where
  "note_closing e = modify (\<lambda>s. s\<lparr>s_closed := s_closed s @ [e]\<rparr>)"

definition releaseFileHandle :: "('n, 'h, 'x, 'w) vfs \<Rightarrow> 'h option \<Rightarrow> ('n, 'h, 'x, 'w, unit) act" where
  "releaseFileHandle V handle = (case handle of
       None \<Rightarrow> ret ()
     | Some h \<Rightarrow> (case h_Release V h of
         None \<Rightarrow> ret ()
       | Some release \<Rightarrow> do { note_closing (Release h); _ \<leftarrow> release; ret () }))"

definition closeOrphanNode :: "('n, 'h, 'x, 'w) vfs \<Rightarrow> 'n \<Rightarrow> ('n, 'h, 'x, 'w, unit) act" where
  "closeOrphanNode V n = (case n_Close V n of
       None \<Rightarrow> ret ()
     | Some close \<Rightarrow> do { note_closing (Close n); _ \<leftarrow> close; ret () })"

definition closeUnboundNode :: "('n, 'h, 'x, 'w) vfs \<Rightarrow> 'n \<Rightarrow> ('n, 'h, 'x, 'w, unit) act" where
  "closeUnboundNode V n = do {
     live \<leftarrow> gets (\<lambda>s. case v_EmbeddedInode V n of None \<Rightarrow> False | Some i \<Rightarrow> i_refs (s_inodes s i) \<noteq> 0);
     if live then ret () else closeOrphanNode V n }"

definition releaseNow :: "('n, 'h, 'x, 'w) vfs \<Rightarrow> nat \<Rightarrow> bool \<Rightarrow> ('n, 'h, 'x, 'w, unit) act" where
  "releaseNow V a closeNode = do {
     fs \<leftarrow> fid_state a;
     releaseFileHandle V (fs_handle fs);
     if \<not> closeNode then ret () else do { n \<leftarrow> currentNode a; closeOrphanNode V n } }"

text \<open>The critical sections of \<^verbatim>\<open>beginIO\<close>, \<^verbatim>\<open>endIO\<close> and \<^verbatim>\<open>finishClunk\<close> on an address,
  followed by the release they decided.\<close>

definition on_fid :: "nat \<Rightarrow> (('n, 'h, 'x) fidState \<Rightarrow> 'a \<times> ('n, 'h, 'x) fidState) \<Rightarrow> ('n, 'h, 'x, 'w, 'a) act" where
  "on_fid a f = on_tab (\<lambda>t. case f (deref t a) of (x, fs) \<Rightarrow> (x, assign a fs t))"

definition release_decided :: "('n, 'h, 'x, 'w) vfs \<Rightarrow> nat \<Rightarrow> bool option \<Rightarrow> ('n, 'h, 'x, 'w, unit) act" where
  "release_decided V a d = (case d of None \<Rightarrow> ret () | Some closeNode \<Rightarrow> releaseNow V a closeNode)"

definition begin_io :: "nat \<Rightarrow> ('n, 'h, 'x, 'w, bool) act" where
  "begin_io a = on_fid a beginIO"

definition end_io :: "('n, 'h, 'x, 'w) vfs \<Rightarrow> nat \<Rightarrow> ('n, 'h, 'x, 'w, unit) act" where
  "end_io V a = do { d \<leftarrow> on_fid a endIO; release_decided V a d }"

definition finish_clunk :: "('n, 'h, 'x, 'w) vfs \<Rightarrow> nat \<Rightarrow> bool \<Rightarrow> ('n, 'h, 'x, 'w, unit) act" where
  "finish_clunk V a closeNode = do { d \<leftarrow> on_fid a (finishClunk closeNode); release_decided V a d }"

text \<open>The statements every handler that binds a new fid ends with: allocate the
  state, add it under the limit, and count the reference only if the add
  succeeded.\<close>

definition bind_fid :: "('n, 'h, 'x, 'w) vfs \<Rightarrow> ('n, 'h, 'x, 'w) cfg \<Rightarrow> u32 \<Rightarrow> ('n, 'h, 'x) fidState
    \<Rightarrow> ('n, 'h, 'x, 'w, u32 option) act" where
  "bind_fid V c fid fs = do {
     a \<leftarrow> on_tab (alloc fs);
     e \<leftarrow> on_tab (add fid a (c_maxFids c));
     case e of
       Some ErrFidLimitExceeded \<Rightarrow> ret (Some EMFILE)
     | Some ErrFidInUse \<Rightarrow> ret (Some EBADF)
     | None \<Rightarrow> do { incRefNode V (fs_node fs); ret None } }"

text \<open>The swap of a fid's node and the transfer of its reference, from the node the
  swap displaced: the in-place walk, and the create handlers. The result says
  whether the fid was there.\<close>

definition transfer_ref :: "('n, 'h, 'x, 'w) vfs \<Rightarrow> 'n \<Rightarrow> 'n option \<Rightarrow> ('n, 'h, 'x, 'w, bool) act" where
  "transfer_ref V n prev = (case prev of
       None \<Rightarrow> ret False
     | Some p \<Rightarrow> do { incRefNode V n; _ \<leftarrow> decRefNode V p; ret True })"

definition rebind_walk :: "('n, 'h, 'x, 'w) vfs \<Rightarrow> u32 \<Rightarrow> 'n \<Rightarrow> gostring \<Rightarrow> ('n, 'h, 'x, 'w, bool) act" where
  "rebind_walk V fid n p = do { prev \<leftarrow> on_tab (ft_update fid n p); transfer_ref V n prev }"

definition rebind_create :: "('n, 'h, 'x, 'w) vfs \<Rightarrow> u32 \<Rightarrow> 'n \<Rightarrow> 'h option \<Rightarrow> ('n, 'h, 'x, 'w, bool) act" where
  "rebind_create V fid n h = do { prev \<leftarrow> on_tab (updateAndOpen fid n h); transfer_ref V n prev }"

text \<open>\<^verbatim>\<open>decRefNode(fs.currentNode())\<close>: a fid state that has left the table gives up its
  reference.\<close>

definition drop_ref :: "('n, 'h, 'x, 'w) vfs \<Rightarrow> nat \<Rightarrow> ('n, 'h, 'x, 'w, bool) act" where
  "drop_ref V a = do { n \<leftarrow> currentNode a; decRefNode V n }"

section \<open>A minimal file system and a fresh connection\<close>

text \<open>Nodes that implement \<^verbatim>\<open>Node\<close> and no capability; capabilities are added by
  record update.\<close>

definition bare_vfs :: "('n \<Rightarrow> QID) \<Rightarrow> ('n, 'h, 'x, 'w) vfs" where
  "bare_vfs qid = \<lparr>v_QID = (\<lambda>n s. qid n), v_EmbeddedInode = (\<lambda>_. None), n_Lookup = (\<lambda>_. None), n_Open =
     (\<lambda>_. None), n_Read = (\<lambda>_. None), n_Write = (\<lambda>_. None), n_Getattr = (\<lambda>_. None),
     n_Setattr = (\<lambda>_. None), n_Readdir = (\<lambda>_. None), n_RawReaddir = (\<lambda>_. None), n_Create =
     (\<lambda>_. None), n_Mkdir = (\<lambda>_. None), n_Symlink = (\<lambda>_. None), n_Link = (\<lambda>_. None),
     n_Mknod = (\<lambda>_. None), n_Readlink = (\<lambda>_. None), n_Unlink = (\<lambda>_. None), n_Rename =
     (\<lambda>_. None), n_StatFS = (\<lambda>_. None), n_Fsync = (\<lambda>_. None), n_Locker = (\<lambda>_.
     None), n_Close = (\<lambda>_. None), n_GetXattr = (\<lambda>_. None), n_SetXattr = (\<lambda>_. None),
     n_ListXattrs = (\<lambda>_. None), n_RemoveXattr = (\<lambda>_. None), n_RawXattr = (\<lambda>_. None),
     x_Write = (\<lambda>_ _. ret (Inl (ProtoErrno ENOSYS))), x_Commit = (\<lambda>_. ret (Inl (ProtoErrno
     ENOSYS))), h_Read = (\<lambda>_. None), h_Write = (\<lambda>_. None), h_Release = (\<lambda>_. None), h_Fsync
     = (\<lambda>_. None), h_Locker = (\<lambda>_. None), h_Readdir = (\<lambda>_. None), h_RawReaddir =
     (\<lambda>_. None)\<rparr>"

definition new_srv :: "'n inodes \<Rightarrow> 'w \<Rightarrow> ('n, 'h, 'x, 'w) srv" where
  "new_srv H w = \<lparr>s_tab = newFidTable, s_inodes = H, s_closed = [], s_world = w\<rparr>"

end
