(* ===== verification/Dispatch.thy ===== *)
theory Dispatch
  imports ServerState
begin

text \<open>
  Fid lifecycle handlers (\<^verbatim>\<open>src/server/dispatch.go\<close>): attach, walk, clunk and
  remove, and the shutdown loop of \<^verbatim>\<open>src/server/cleanup.go\<close>.
\<close>

section \<open>Attach\<close>

definition handleAttach :: "('n, 'h, 'x, 'w) vfs \<Rightarrow> ('n, 'h, 'x, 'w) cfg \<Rightarrow> u32 \<Rightarrow> u32 \<Rightarrow> gostring
    \<Rightarrow> gostring \<Rightarrow> u32 \<Rightarrow> ('n, 'h, 'x, 'w, outcome) act" where
  "handleAttach V c fid afid Uname Aname NUname =
     (if afid \<noteq> NoFid then fail c ENOSYS
      else do {
        r \<leftarrow> (case c_attacher c of
            Some attach \<Rightarrow> do {
              r \<leftarrow> attach Uname Aname NUname;
              ret (case r of Inl err \<Rightarrow> Inl (errnoFromError err) | Inr n \<Rightarrow> Inr n) }
          | None \<Rightarrow> (case c_anames c of
              Some anames \<Rightarrow>
                if Aname \<noteq> [] then ret (case anames Aname of None \<Rightarrow> Inl ENOENT | Some n \<Rightarrow> Inr n)
                else ret (Inr (c_root c))
            | None \<Rightarrow> ret (Inr (c_root c))));
        case r of
          Inl errno \<Rightarrow> fail c errno
        | Inr n \<Rightarrow> do {
            e \<leftarrow> bind_fid V c fid (new_fidState n (slash # Aname) fidAllocated);
            case e of
              Some errno \<Rightarrow> fail c errno
            | None \<Rightarrow> do { qid \<leftarrow> nodeQID V n; reply (Base (Rattach qid)) } } })"

section \<open>Walk\<close>

text \<open>The loop over the names: \<^verbatim>\<open>i\<close> is the number of steps taken. An error at the
  first step is the reply (\<^verbatim>\<open>Inl\<close>); later it ends a partial walk.\<close>

primrec walk_loop :: "('n, 'h, 'x, 'w) vfs \<Rightarrow> 'n \<Rightarrow> gostring list \<Rightarrow> nat \<Rightarrow> 'n \<Rightarrow> QID list
    \<Rightarrow> ('n, 'h, 'x, 'w, u32 + QID list \<times> 'n) act" where
  "walk_loop V walkStart [] i current qids = ret (Inr (qids, current))"
| "walk_loop V walkStart (name # names) i current qids = do {
     qid \<leftarrow> nodeQID V current;
     if QID_Type qid AND QTDIR = 0 then
       ret (if i = 0 then Inl ENOTDIR else Inr (qids, current))
     else case n_Lookup V current of
       None \<Rightarrow> ret (if i = 0 then Inl ENOTDIR else Inr (qids, current))
     | Some lookup \<Rightarrow> do {
         r \<leftarrow> lookup name;
         case r of
           Inl err \<Rightarrow> ret (if i = 0 then Inl (errnoFromError err) else Inr (qids, current))
         | Inr child \<Rightarrow> do {
             q \<leftarrow> nodeQID V child;
             (if current \<noteq> walkStart \<and> current \<noteq> child then closeUnboundNode V current else ret ());
             walk_loop V walkStart names (Suc i) child (qids @ [q]) } } }"

definition closeResolved :: "('n, 'h, 'x, 'w) vfs \<Rightarrow> 'n \<Rightarrow> 'n \<Rightarrow> ('n, 'h, 'x, 'w, unit) act" where
  "closeResolved V walkStart current =
     (if current \<noteq> walkStart then closeUnboundNode V current else ret ())"

definition handleWalk :: "('n, 'h, 'x, 'w) vfs \<Rightarrow> ('n, 'h, 'x, 'w) cfg \<Rightarrow> u32 \<Rightarrow> u32 \<Rightarrow> gostring list
    \<Rightarrow> ('n, 'h, 'x, 'w, outcome) act" where
  "handleWalk V c fid newfid Names = do {
     src \<leftarrow> fid_get fid;
     case src of
       None \<Rightarrow> fail c EBADF
     | Some a \<Rightarrow>
         if Names = [] then
           (if fid = newfid then reply (Base (Rwalk []))
            else do {
              (cloneNode, clonePath) \<leftarrow> nodeAndPath a;
              e \<leftarrow> bind_fid V c newfid (new_fidState cloneNode clonePath fidAllocated);
              case e of Some errno \<Rightarrow> fail c errno | None \<Rightarrow> reply (Base (Rwalk [])) })
         else if \<not> list_all validatePathElement Names then fail c EINVAL
         else do {
           walkStart \<leftarrow> currentNode a;
           r \<leftarrow> walk_loop V walkStart Names 0 walkStart [];
           case r of
             Inl errno \<Rightarrow> fail c errno
           | Inr (qids, current) \<Rightarrow>
               if length qids = length Names then do {
                 base \<leftarrow> currentPath a;
                 let newPath = path_Clean (base @ slash # join_slash Names) in
                 if fid = newfid then do {
                   ok \<leftarrow> rebind_walk V fid current newPath;
                   (if ok then ret () else closeResolved V walkStart current);
                   reply (Base (Rwalk qids)) }
                 else do {
                   e \<leftarrow> bind_fid V c newfid (new_fidState current newPath fidAllocated);
                   case e of
                     Some errno \<Rightarrow> do { closeResolved V walkStart current; fail c errno }
                   | None \<Rightarrow> reply (Base (Rwalk qids)) } }
               else do { closeResolved V walkStart current; reply (Base (Rwalk qids)) } } }"

section \<open>Clunk\<close>

text \<open>The commit of an extended attribute when its fid is clunked.\<close>

definition commit_xattr :: "('n, 'h, 'x, 'w) vfs \<Rightarrow> ('n, 'h, 'x, 'w) cfg \<Rightarrow> ('n, 'h, 'x) fidState
    \<Rightarrow> ('n, 'h, 'x, 'w, outcome) act" where
  "commit_xattr V c fs = (case fs_xattrWriter fs of
       Some writer \<Rightarrow> do {
         r \<leftarrow> x_Commit V writer;
         case r of Inl err \<Rightarrow> fail c (errnoFromError err) | Inr _ \<Rightarrow> reply (Base Rclunk) }
     | None \<Rightarrow>
         if fs_xattrSize fs = 0 then
           (case Option.bind (fs_xattrNode fs) (n_RemoveXattr V) of
              Some remover \<Rightarrow> do {
                r \<leftarrow> remover (fs_xattrName fs);
                case r of Inl err \<Rightarrow> fail c (errnoFromError err) | Inr _ \<Rightarrow> reply (Base Rclunk) }
            | None \<Rightarrow> reply (Base Rclunk))
         else if of_nat (length (fs_xattrData fs)) \<noteq> fs_xattrSize fs then fail c EIO
         else case Option.bind (fs_xattrNode fs) (n_SetXattr V) of
           None \<Rightarrow> fail c ENOSYS
         | Some setter \<Rightarrow> do {
             r \<leftarrow> setter (fs_xattrName fs) (fs_xattrData fs) (fs_xattrFlags fs);
             case r of Inl err \<Rightarrow> fail c (errnoFromError err) | Inr _ \<Rightarrow> reply (Base Rclunk) })"

definition handleClunk :: "('n, 'h, 'x, 'w) vfs \<Rightarrow> ('n, 'h, 'x, 'w) cfg \<Rightarrow> u32 \<Rightarrow> ('n, 'h, 'x, 'w, outcome) act" where
  "handleClunk V c fid = do {
     r \<leftarrow> on_tab (clunk fid);
     case r of
       None \<Rightarrow> fail c EBADF
     | Some a \<Rightarrow> do {
         lastRef \<leftarrow> drop_ref V a;
         fs \<leftarrow> fid_state a;
         if fs_state fs = fidXattrWrite then do {
           fid_modify a (\<lambda>fs. fs\<lparr>fs_closing := True\<rparr>);
           commit_xattr V c fs }
         else do {
           finish_clunk V a lastRef;
           reply (Base Rclunk) } } }"

section \<open>Remove\<close>

definition removeViaInodeTree :: "('n, 'h, 'x, 'w) vfs \<Rightarrow> 'n \<Rightarrow> ('n, 'h, 'x, 'w, go_error option) act" where
  "removeViaInodeTree V n = (case v_EmbeddedInode V n of
       None \<Rightarrow> ret (Some (ProtoErrno ENOSYS))
     | Some i \<Rightarrow> do {
         H \<leftarrow> gets s_inodes;
         case Parent i H of
           None \<Rightarrow> ret (Some (ProtoErrno ENOSYS))
         | Some p \<Rightarrow> (case name_of i (Children p H) of
             None \<Rightarrow> ret (Some (ProtoErrno EINVAL))
           | Some name \<Rightarrow>
               if name = [] then ret (Some (ProtoErrno EINVAL))
               else case Option.bind (i_node (H p)) (n_Unlink V) of
                 None \<Rightarrow> ret (Some (ProtoErrno ENOSYS))
               | Some unlink \<Rightarrow> do {
                   r \<leftarrow> unlink name 0;
                   case r of
                     Inl err \<Rightarrow> ret (Some err)
                   | Inr _ \<Rightarrow> do { on_inodes (\<lambda>H. ((), RemoveChild p name H)); ret None } }) })"

definition handleRemove :: "('n, 'h, 'x, 'w) vfs \<Rightarrow> ('n, 'h, 'x, 'w) cfg \<Rightarrow> u32 \<Rightarrow> ('n, 'h, 'x, 'w, outcome) act" where
  "handleRemove V c fid = do {
     r \<leftarrow> on_tab (clunk fid);
     case r of
       None \<Rightarrow> fail c EBADF
     | Some a \<Rightarrow> do {
         n \<leftarrow> currentNode a;
         removeErr \<leftarrow> removeViaInodeTree V n;
         lastRef \<leftarrow> drop_ref V a;
         finish_clunk V a lastRef;
         case removeErr of
           Some err \<Rightarrow> fail c (errnoFromError err)
         | None \<Rightarrow> reply (Base Rremove) } }"

section \<open>Shutdown\<close>

text \<open>Step 5 of \<^verbatim>\<open>cleanup\<close>: every fid leaves the table; handles and nodes are
  released only if the handlers have drained.\<close>

primrec release_all :: "('n, 'h, 'x, 'w) vfs \<Rightarrow> bool \<Rightarrow> nat list \<Rightarrow> ('n, 'h, 'x, 'w, unit) act" where
  "release_all V drained [] = ret ()"
| "release_all V drained (a # as) = do {
     lastRef \<leftarrow> drop_ref V a;
     (if drained then releaseNow V a lastRef else ret ());
     release_all V drained as }"

definition cleanup_fids :: "('n, 'h, 'x, 'w) vfs \<Rightarrow> bool \<Rightarrow> nat list \<Rightarrow> ('n, 'h, 'x, 'w, nat set) act" where
  "cleanup_fids V drained order = do {
     states \<leftarrow> on_tab clunkAll;
     release_all V drained order;
     ret states }"

end
