(* ===== verification/Bridge.thy ===== *)
theory Bridge
  imports ServerState Dirents
begin

text \<open>
  The handlers that translate requests on a fid into calls of the exported file
  system (\<^verbatim>\<open>src/server/bridge.go\<close>), in the order of the source.
\<close>

section \<open>Open\<close>

definition clampIOUnit :: "('n, 'h, 'x, 'w) cfg \<Rightarrow> u32 \<Rightarrow> u32" where
  "clampIOUnit c hint = (let maxIOUnit = c_msize c - of_nat HeaderSize - 4 in
     if hint = 0 \<or> hint > maxIOUnit then maxIOUnit else hint)"

definition openFlagsFromUMode :: "u8 \<Rightarrow> u32 option" where
  "openFlagsFromUMode mode = (if mode = 0 \<or> mode = 1 \<or> mode = 2 then Some (ucast mode) else None)"

definition openFid :: "('n, 'h, 'x, 'w) vfs \<Rightarrow> ('n, 'h, 'x, 'w) cfg \<Rightarrow> u32 \<Rightarrow> u32
    \<Rightarrow> ('n, 'h, 'x, 'w, u32 + QID \<times> u32) act" where
  "openFid V c fid flags = do {
     r \<leftarrow> fid_get fid;
     case r of
       None \<Rightarrow> ret (Inl EBADF)
     | Some a \<Rightarrow> do {
         st \<leftarrow> currentState a;
         if st \<noteq> fidAllocated then ret (Inl EBADF)
         else do {
           n \<leftarrow> currentNode a;
           case n_Open V n of
             None \<Rightarrow> ret (Inl ENOSYS)
           | Some opener \<Rightarrow> do {
               r \<leftarrow> opener flags;
               case r of
                 Inl err \<Rightarrow> ret (Inl (errnoFromError err))
               | Inr (handle, iounitHint) \<Rightarrow> do {
                   n' \<leftarrow> currentNode a;
                   qid \<leftarrow> nodeQID V n';
                   ok \<leftarrow> on_tab (markOpenedWithHandle fid handle);
                   if \<not> ok then do { releaseFileHandle V handle; ret (Inl EBADF) }
                   else ret (Inr (qid, clampIOUnit c iounitHint)) } } } } }"

definition handleLopen :: "('n, 'h, 'x, 'w) vfs \<Rightarrow> ('n, 'h, 'x, 'w) cfg \<Rightarrow> u32 \<Rightarrow> u32
    \<Rightarrow> ('n, 'h, 'x, 'w, outcome) act" where
  "handleLopen V c fid Flags = do {
     r \<leftarrow> openFid V c fid Flags;
     case r of Inl errno \<Rightarrow> fail c errno | Inr (qid, iounit) \<Rightarrow> reply (L (Rlopen qid iounit)) }"

definition handleUOpen :: "('n, 'h, 'x, 'w) vfs \<Rightarrow> ('n, 'h, 'x, 'w) cfg \<Rightarrow> u32 \<Rightarrow> u8
    \<Rightarrow> ('n, 'h, 'x, 'w, outcome) act" where
  "handleUOpen V c fid Mode = (case openFlagsFromUMode Mode of
       None \<Rightarrow> fail c ENOSYS
     | Some flags \<Rightarrow> do {
         r \<leftarrow> openFid V c fid flags;
         case r of Inl errno \<Rightarrow> fail c errno | Inr (qid, iounit) \<Rightarrow> reply (U (Ropen qid iounit)) })"

section \<open>Read and write\<close>

definition validReadCount :: "int \<Rightarrow> int \<Rightarrow> bool" where
  "validReadCount n len \<longleftrightarrow> n \<ge> 0 \<and> n \<le> len"

definition validWriteCount :: "int \<Rightarrow> nat \<Rightarrow> bool" where
  "validWriteCount count payloadLen \<longleftrightarrow> count \<ge> 0 \<and> nat count \<le> payloadLen"

text \<open>The buffer comes from a pool; on an error it goes back and the reply is the
  error, otherwise the reply carries the filled prefix.\<close>

definition fillPooled :: "u32 \<Rightarrow> (u32 \<Rightarrow> ('n, 'h, 'x, 'w, int \<times> (nat \<Rightarrow> byte)) call)
    \<Rightarrow> ('n, 'h, 'x, 'w, u32 + bytes) act" where
  "fillPooled count read = do {
     r \<leftarrow> read count;
     ret (case r of
         Inl err \<Rightarrow> Inl (errnoFromError err)
       | Inr (n, buf) \<Rightarrow>
           if \<not> validReadCount n (uint count) then Inl EIO
           else Inr (map buf [0..<nat n])) }"

definition clampCount :: "('n, 'h, 'x, 'w) cfg \<Rightarrow> u32 \<Rightarrow> u32" where
  "clampCount c count = (let maxData = c_msize c - of_nat HeaderSize - 4 in
     if count > maxData then maxData else count)"

definition xattr_slice :: "bytes \<Rightarrow> u64 \<Rightarrow> u32 \<Rightarrow> bytes" where
  "xattr_slice data offset count =
     (if offset \<ge> of_nat (length data) then []
      else let stop = min (offset + ucast count) (of_nat (length data))
        in take (unat (stop - offset)) (drop (unat offset) data))"

text \<open>\<^verbatim>\<open>beginIO\<close>, the call, and the deferred \<^verbatim>\<open>endIO\<close>.\<close>

definition with_io :: "('n, 'h, 'x, 'w) vfs \<Rightarrow> ('n, 'h, 'x, 'w) cfg \<Rightarrow> nat
    \<Rightarrow> ('n, 'h, 'x, 'w, outcome) act \<Rightarrow> ('n, 'h, 'x, 'w, outcome) act" where
  "with_io V c a body = do {
     ok \<leftarrow> begin_io a;
     if \<not> ok then fail c EBADF
     else do { r \<leftarrow> body; end_io V a; ret r } }"

definition handleRead :: "('n, 'h, 'x, 'w) vfs \<Rightarrow> ('n, 'h, 'x, 'w) cfg \<Rightarrow> u32 \<Rightarrow> u64 \<Rightarrow> u32
    \<Rightarrow> ('n, 'h, 'x, 'w, outcome) act" where
  "handleRead V c fid Offset Count0 = do {
     r \<leftarrow> fid_get fid;
     case r of
       None \<Rightarrow> fail c EBADF
     | Some a \<Rightarrow> do {
         fs \<leftarrow> fid_state a;
         let Count = clampCount c Count0 in
         if fs_state fs = fidXattrRead then
           reply (Base (Rread (xattr_slice (fs_xattrData fs) Offset Count)))
         else if fs_state fs \<noteq> fidOpened then fail c EBADF
         else with_io V c a (do {
           fs \<leftarrow> fid_state a;
           case Option.bind (fs_handle fs) (h_Read V) of
             Some reader \<Rightarrow> do {
               d \<leftarrow> fillPooled Count (\<lambda>n. reader n Offset);
               case d of Inl errno \<Rightarrow> fail c errno | Inr data \<Rightarrow> reply (Base (Rread data)) }
           | None \<Rightarrow> (case n_Read V (fs_node fs) of
               None \<Rightarrow> fail c ENOSYS
             | Some reader \<Rightarrow> do {
                 d \<leftarrow> fillPooled Count (\<lambda>n. reader n Offset);
                 case d of Inl errno \<Rightarrow> fail c errno | Inr data \<Rightarrow> reply (Base (Rread data)) }) }) } }"

definition write_reply :: "('n, 'h, 'x, 'w) cfg \<Rightarrow> bytes \<Rightarrow> go_error + u32 \<Rightarrow> message" where
  "write_reply c Data r = (case r of
       Inl err \<Rightarrow> errorMsg c (errnoFromError err)
     | Inr count \<Rightarrow>
         if \<not> validWriteCount (uint count) (length Data) then errorMsg c EIO
         else Base (Rwrite count))"

definition handleWrite :: "('n, 'h, 'x, 'w) vfs \<Rightarrow> ('n, 'h, 'x, 'w) cfg \<Rightarrow> u32 \<Rightarrow> u64 \<Rightarrow> bytes
    \<Rightarrow> ('n, 'h, 'x, 'w, outcome) act" where
  "handleWrite V c fid Offset Data = do {
     r \<leftarrow> fid_get fid;
     case r of
       None \<Rightarrow> fail c EBADF
     | Some a \<Rightarrow> do {
         fs \<leftarrow> fid_state a;
         if fs_state fs = fidXattrWrite then
           (if fs_closing fs then fail c EBADF
            else case fs_xattrWriter fs of
              Some writer \<Rightarrow> do {
                r \<leftarrow> x_Write V writer Data;
                case r of
                  Inl err \<Rightarrow> fail c (errnoFromError err)
                | Inr n \<Rightarrow>
                    if \<not> validWriteCount n (length Data) then fail c EIO
                    else reply (Base (Rwrite (word_of_int n))) }
            | None \<Rightarrow>
                if of_nat (length (fs_xattrData fs)) + of_nat (length Data) > fs_xattrSize fs then fail c ENOSPC
                else do {
                  fid_modify a (\<lambda>fs. fs\<lparr>fs_xattrData := fs_xattrData fs @ Data\<rparr>);
                  reply (Base (Rwrite (of_nat (length Data)))) })
         else if fs_state fs \<noteq> fidOpened then fail c EBADF
         else with_io V c a (do {
           fs \<leftarrow> fid_state a;
           case Option.bind (fs_handle fs) (h_Write V) of
             Some writer \<Rightarrow> do { r \<leftarrow> writer Data Offset; reply (write_reply c Data r) }
           | None \<Rightarrow> (case n_Write V (fs_node fs) of
               None \<Rightarrow> fail c ENOSYS
             | Some writer \<Rightarrow> do { r \<leftarrow> writer Data Offset; reply (write_reply c Data r) }) }) } }"

section \<open>Attributes\<close>

definition handleGetattr :: "('n, 'h, 'x, 'w) vfs \<Rightarrow> ('n, 'h, 'x, 'w) cfg \<Rightarrow> u32 \<Rightarrow> u64
    \<Rightarrow> ('n, 'h, 'x, 'w, outcome) act" where
  "handleGetattr V c fid RequestMask = do {
     r \<leftarrow> fid_get fid;
     case r of
       None \<Rightarrow> fail c EBADF
     | Some a \<Rightarrow> do {
         n \<leftarrow> currentNode a;
         case n_Getattr V n of
           None \<Rightarrow> fail c ENOSYS
         | Some getter \<Rightarrow> do {
             r \<leftarrow> getter RequestMask;
             case r of
               Inl err \<Rightarrow> fail c (errnoFromError err)
             | Inr attr \<Rightarrow> do {
                 n' \<leftarrow> currentNode a;
                 qid \<leftarrow> nodeQID V n';
                 reply (L (Rgetattr (attr\<lparr>Attr_QID := qid\<rparr>))) } } } }"

definition handleSetattr :: "('n, 'h, 'x, 'w) vfs \<Rightarrow> ('n, 'h, 'x, 'w) cfg \<Rightarrow> u32 \<Rightarrow> SetAttr
    \<Rightarrow> ('n, 'h, 'x, 'w, outcome) act" where
  "handleSetattr V c fid attr = do {
     r \<leftarrow> fid_get fid;
     case r of
       None \<Rightarrow> fail c EBADF
     | Some a \<Rightarrow> do {
         n \<leftarrow> currentNode a;
         case n_Setattr V n of
           None \<Rightarrow> fail c ENOSYS
         | Some setter \<Rightarrow> do {
             r \<leftarrow> setter attr;
             case r of
               Inl err \<Rightarrow> fail c (errnoFromError err)
             | Inr _ \<Rightarrow> reply (L Rsetattr) } } }"

definition DMDIR :: u32 where "DMDIR = 0x80000000"
definition DMSYMLINK :: u32 where "DMSYMLINK = 0x02000000"
definition DMDEVICE :: u32 where "DMDEVICE = 0x00800000"
definition DMNAMEDPIPE :: u32 where "DMNAMEDPIPE = 0x00200000"
definition DMSOCKET :: u32 where "DMSOCKET = 0x00100000"
definition AttrAll :: u64 where "AttrAll = 0x3fff"

definition statFromAttr :: "gostring \<Rightarrow> QID \<Rightarrow> Attr \<Rightarrow> Stat" where
  "statFromAttr fidPath qid attr =
     (let mode0 = Attr_Mode attr AND 0xFFF;
          mode = (if QID_Type qid = QTDIR then mode0 OR DMDIR
                  else if QID_Type qid = QTSYMLINK then mode0 OR DMSYMLINK else mode0);
          base = path_Base fidPath;
          name = (if fidPath = [] \<or> fidPath = [slash] \<or> base = dot \<or> base = [slash] then [] else base)
      in zero_Stat\<lparr>Stat_QID := qid, Stat_Mode := mode, Stat_Atime := ucast (Attr_ATimeSec attr),
           Stat_Mtime := ucast (Attr_MTimeSec attr), Stat_Length := Attr_Size attr, Stat_Name := name,
           Stat_NUid := Attr_UID attr, Stat_NGid := Attr_GID attr\<rparr>)"

definition handleUStat :: "('n, 'h, 'x, 'w) vfs \<Rightarrow> ('n, 'h, 'x, 'w) cfg \<Rightarrow> u32
    \<Rightarrow> ('n, 'h, 'x, 'w, outcome) act" where
  "handleUStat V c fid = do {
     r \<leftarrow> fid_get fid;
     case r of
       None \<Rightarrow> fail c EBADF
     | Some a \<Rightarrow> do {
         n \<leftarrow> currentNode a;
         case n_Getattr V n of
           None \<Rightarrow> fail c ENOSYS
         | Some getter \<Rightarrow> do {
             r \<leftarrow> getter AttrAll;
             case r of
               Inl err \<Rightarrow> fail c (errnoFromError err)
             | Inr attr \<Rightarrow> do {
                 n' \<leftarrow> currentNode a;
                 qid \<leftarrow> nodeQID V n';
                 p \<leftarrow> gets (\<lambda>s. getPath fid (s_tab s));
                 reply (U (Rstat (statFromAttr p qid attr))) } } } }"

section \<open>Directories\<close>

text \<open>Offset cookies are the positions counted from one.\<close>

definition assign_cookies :: "Dirent list \<Rightarrow> Dirent list" where
  "assign_cookies dirents =
     map (\<lambda>(i, d). d\<lparr>Dirent_Offset := of_nat (i + 1)\<rparr>) (List.enumerate 0 dirents)"

text \<open>The entries after the one with cookie \<^verbatim>\<open>offset\<close>, packed into a buffer of
  \<^verbatim>\<open>count\<close> bytes; the pool's stale contents do not show in the prefix returned.\<close>

definition readdir_page :: "Dirent list \<Rightarrow> u64 \<Rightarrow> u32 \<Rightarrow> bytes" where
  "readdir_page cache offset count =
     (let start = (if offset < of_nat (length cache) then unat offset else length cache) in
      case EncodeDirentsInto (replicate (unat count) 0) (drop start cache) of
        (buf, n, _) \<Rightarrow> take n buf)"

definition readdirSimple :: "('n, 'h, 'x, 'w) vfs \<Rightarrow> ('n, 'h, 'x, 'w) cfg \<Rightarrow> nat \<Rightarrow> u64 \<Rightarrow> u32
    \<Rightarrow> ('n, 'h, 'x, 'w, Dirent list) call \<Rightarrow> ('n, 'h, 'x, 'w, outcome) act" where
  "readdirSimple V c a Offset Count rd = do {
     fs \<leftarrow> fid_state a;
     if Offset = 0 \<or> \<not> fs_dirCached fs then do {
       fid_modify a (\<lambda>fs. fs\<lparr>fs_dirCache := [], fs_dirCached := False\<rparr>);
       r \<leftarrow> rd;
       case r of
         Inl err \<Rightarrow> fail c (errnoFromError err)
       | Inr dirents \<Rightarrow> do {
           fid_modify a (\<lambda>fs. fs\<lparr>fs_dirCache := assign_cookies dirents, fs_dirCached := True\<rparr>);
           reply (L (Rreaddir (readdir_page (assign_cookies dirents) Offset Count))) } }
     else reply (L (Rreaddir (readdir_page (fs_dirCache fs) Offset Count))) }"

definition raw_readdir :: "('n, 'h, 'x, 'w) cfg \<Rightarrow> u32 \<Rightarrow> u64 \<Rightarrow> ('n, 'h, 'x, 'w) reads
    \<Rightarrow> ('n, 'h, 'x, 'w, outcome) act" where
  "raw_readdir c Count Offset raw = do {
     d \<leftarrow> fillPooled Count (\<lambda>n. raw n Offset);
     case d of Inl errno \<Rightarrow> fail c errno | Inr data \<Rightarrow> reply (L (Rreaddir data)) }"

definition handleReaddir :: "('n, 'h, 'x, 'w) vfs \<Rightarrow> ('n, 'h, 'x, 'w) cfg \<Rightarrow> u32 \<Rightarrow> u64 \<Rightarrow> u32
    \<Rightarrow> ('n, 'h, 'x, 'w, outcome) act" where
  "handleReaddir V c fid Offset Count0 = do {
     r \<leftarrow> fid_get fid;
     case r of
       None \<Rightarrow> fail c EBADF
     | Some a \<Rightarrow> do {
         st \<leftarrow> currentState a;
         if st \<noteq> fidOpened then fail c EBADF
         else with_io V c a (do {
           fs \<leftarrow> fid_state a;
           let Count = clampCount c Count0 in
           case Option.bind (fs_handle fs) (h_RawReaddir V) of
             Some raw \<Rightarrow> raw_readdir c Count Offset raw
           | None \<Rightarrow> (case Option.bind (fs_handle fs) (h_Readdir V) of
               Some rd \<Rightarrow> readdirSimple V c a Offset Count rd
             | None \<Rightarrow> (case n_RawReaddir V (fs_node fs) of
                 Some raw \<Rightarrow> raw_readdir c Count Offset raw
               | None \<Rightarrow> (case n_Readdir V (fs_node fs) of
                   Some rd \<Rightarrow> readdirSimple V c a Offset Count rd
                 | None \<Rightarrow> fail c ENOSYS))) }) } }"

section \<open>Creation\<close>

text \<open>\<^verbatim>\<open>registerChild\<close> blocks for ever when parent and child are the same inode:
  the result says whether it returned.\<close>

definition add_child :: "nat \<Rightarrow> gostring \<Rightarrow> nat \<Rightarrow> ('n, 'h, 'x, 'w, bool) act" where
  "add_child p name i = on_inodes (\<lambda>H. case AddChild p name i H of None \<Rightarrow> (False, H) | Some H' \<Rightarrow> (True, H'))"

definition registerChild :: "('n, 'h, 'x, 'w) vfs \<Rightarrow> 'n \<Rightarrow> 'n \<Rightarrow> gostring \<Rightarrow> ('n, 'h, 'x, 'w, bool) act" where
  "registerChild V parent child name =
     (case (v_EmbeddedInode V parent, v_EmbeddedInode V child) of
        (Some p, Some i) \<Rightarrow> add_child p name i
      | _ \<Rightarrow> ret True)"

abbreviation reply_if :: "bool \<Rightarrow> message \<Rightarrow> ('n, 'h, 'x, 'w, outcome) act" where
  "reply_if returned m \<equiv> ret (if returned then Reply m else Deadlock)"

text \<open>The part \<^verbatim>\<open>handleLcreate\<close> and \<^verbatim>\<open>handleUCreate\<close> share, from the fid lookup to the
  registration of the child; \<^verbatim>\<open>answer\<close> builds the reply.\<close>

definition create_fid :: "('n, 'h, 'x, 'w) vfs \<Rightarrow> ('n, 'h, 'x, 'w) cfg \<Rightarrow> u32 \<Rightarrow> gostring \<Rightarrow> u32 \<Rightarrow> u32 \<Rightarrow> u32
    \<Rightarrow> (QID \<Rightarrow> u32 \<Rightarrow> message) \<Rightarrow> ('n, 'h, 'x, 'w, outcome) act" where
  "create_fid V c fid Name flags mode gid answer = do {
     r \<leftarrow> fid_get fid;
     case r of
       None \<Rightarrow> fail c EBADF
     | Some a \<Rightarrow> do {
         st \<leftarrow> currentState a;
         if st \<noteq> fidAllocated then fail c EBADF
         else if \<not> validName Name then fail c EINVAL
         else do {
           parentNode \<leftarrow> currentNode a;
           case n_Create V parentNode of
             None \<Rightarrow> fail c ENOSYS
           | Some creator \<Rightarrow> do {
               r \<leftarrow> creator Name flags mode gid;
               case r of
                 Inl err \<Rightarrow> fail c (errnoFromError err)
               | Inr (child, handle, iounitHint) \<Rightarrow> do {
                   bound \<leftarrow> rebind_create V fid child handle;
                   if \<not> bound then do {
                     releaseFileHandle V handle;
                     closeOrphanNode V child;
                     fail c EBADF }
                   else do {
                       ok \<leftarrow> registerChild V parentNode child Name;
                       qid \<leftarrow> nodeQID V child;
                       reply_if ok (answer qid (clampIOUnit c iounitHint)) } } } } } }"

definition handleLcreate :: "('n, 'h, 'x, 'w) vfs \<Rightarrow> ('n, 'h, 'x, 'w) cfg \<Rightarrow> u32 \<Rightarrow> gostring \<Rightarrow> u32 \<Rightarrow> u32 \<Rightarrow> u32
    \<Rightarrow> ('n, 'h, 'x, 'w, outcome) act" where
  "handleLcreate V c fid Name Flags Mode GID =
     create_fid V c fid Name Flags Mode GID (\<lambda>qid iounit. L (Rlcreate qid iounit))"

definition validUCreatePerm :: "u32 \<Rightarrow> gostring \<Rightarrow> bool" where
  "validUCreatePerm perm extension \<longleftrightarrow> extension = []
     \<and> perm AND (DMDIR OR DMSYMLINK OR DMDEVICE OR DMNAMEDPIPE OR DMSOCKET) = 0"

definition handleUCreate :: "('n, 'h, 'x, 'w) vfs \<Rightarrow> ('n, 'h, 'x, 'w) cfg \<Rightarrow> u32 \<Rightarrow> gostring \<Rightarrow> u32 \<Rightarrow> u8 \<Rightarrow> gostring
    \<Rightarrow> ('n, 'h, 'x, 'w, outcome) act" where
  "handleUCreate V c fid Name Perm Mode Extension = (case openFlagsFromUMode Mode of
       None \<Rightarrow> fail c ENOSYS
     | Some flags \<Rightarrow>
         if \<not> validUCreatePerm Perm Extension then fail c ENOSYS
         else create_fid V c fid Name flags Perm 0 (\<lambda>qid iounit. U (Rcreate qid iounit)))"

text \<open>\<^verbatim>\<open>handleMkdir\<close>, \<^verbatim>\<open>handleSymlink\<close> and \<^verbatim>\<open>handleMknod\<close> are the same statements
  around different capabilities: \<^verbatim>\<open>cap\<close> is the capability applied to the
  request's arguments.\<close>

definition make_child :: "('n, 'h, 'x, 'w) vfs \<Rightarrow> ('n, 'h, 'x, 'w) cfg \<Rightarrow> u32 \<Rightarrow> gostring
    \<Rightarrow> ('n \<Rightarrow> ('n, 'h, 'x, 'w, 'n) call option) \<Rightarrow> (QID \<Rightarrow> message) \<Rightarrow> ('n, 'h, 'x, 'w, outcome) act" where
  "make_child V c DirFid Name cap answer = do {
     r \<leftarrow> fid_get DirFid;
     case r of
       None \<Rightarrow> fail c EBADF
     | Some a \<Rightarrow>
         if \<not> validName Name then fail c EINVAL
         else do {
           n \<leftarrow> currentNode a;
           case cap n of
             None \<Rightarrow> fail c ENOSYS
           | Some call \<Rightarrow> do {
               r \<leftarrow> call;
               case r of
                 Inl err \<Rightarrow> fail c (errnoFromError err)
               | Inr child \<Rightarrow> do {
                   n' \<leftarrow> currentNode a;
                   ok \<leftarrow> registerChild V n' child Name;
                   qid \<leftarrow> nodeQID V child;
                   reply_if ok (answer qid) } } } }"

definition handleMkdir :: "('n, 'h, 'x, 'w) vfs \<Rightarrow> ('n, 'h, 'x, 'w) cfg \<Rightarrow> u32 \<Rightarrow> gostring \<Rightarrow> u32 \<Rightarrow> u32
    \<Rightarrow> ('n, 'h, 'x, 'w, outcome) act" where
  "handleMkdir V c DirFid Name Mode GID = make_child V c DirFid Name
     (\<lambda>n. map_option (\<lambda>mkdir. mkdir Name Mode GID) (n_Mkdir V n)) (\<lambda>qid. L (Rmkdir qid))"

definition handleSymlink :: "('n, 'h, 'x, 'w) vfs \<Rightarrow> ('n, 'h, 'x, 'w) cfg \<Rightarrow> u32 \<Rightarrow> gostring \<Rightarrow> gostring \<Rightarrow> u32
    \<Rightarrow> ('n, 'h, 'x, 'w, outcome) act" where
  "handleSymlink V c DirFid Name Target GID = make_child V c DirFid Name
     (\<lambda>n. map_option (\<lambda>symlink. symlink Name Target GID) (n_Symlink V n)) (\<lambda>qid. L (Rsymlink qid))"

definition handleLink :: "('n, 'h, 'x, 'w) vfs \<Rightarrow> ('n, 'h, 'x, 'w) cfg \<Rightarrow> u32 \<Rightarrow> u32 \<Rightarrow> gostring
    \<Rightarrow> ('n, 'h, 'x, 'w, outcome) act" where
  "handleLink V c DirFid fid Name = do {
     d \<leftarrow> fid_get DirFid;
     case d of
       None \<Rightarrow> fail c EBADF
     | Some dir \<Rightarrow> do {
         r \<leftarrow> fid_get fid;
         case r of
           None \<Rightarrow> fail c EBADF
         | Some tgt \<Rightarrow>
             if \<not> validName Name then fail c EINVAL
             else do {
               dn \<leftarrow> currentNode dir;
               case n_Link V dn of
                 None \<Rightarrow> fail c ENOSYS
               | Some linker \<Rightarrow> do {
                   tn \<leftarrow> currentNode tgt;
                   r \<leftarrow> linker tn Name;
                   case r of
                     Inl err \<Rightarrow> fail c (errnoFromError err)
                   | Inr _ \<Rightarrow> do {
                       dn' \<leftarrow> currentNode dir;
                       tn' \<leftarrow> currentNode tgt;
                       ok \<leftarrow> registerChild V dn' tn' Name;
                       reply_if ok (L Rlink) } } } } }"

definition handleMknod :: "('n, 'h, 'x, 'w) vfs \<Rightarrow> ('n, 'h, 'x, 'w) cfg \<Rightarrow> u32 \<Rightarrow> gostring \<Rightarrow> u32 \<Rightarrow> u32 \<Rightarrow> u32 \<Rightarrow> u32
    \<Rightarrow> ('n, 'h, 'x, 'w, outcome) act" where
  "handleMknod V c DirFid Name Mode Major Minor GID = make_child V c DirFid Name
     (\<lambda>n. map_option (\<lambda>mknod. mknod Name Mode Major Minor GID) (n_Mknod V n)) (\<lambda>qid. L (Rmknod qid))"

section \<open>Links, statistics, fsync\<close>

definition handleReadlink :: "('n, 'h, 'x, 'w) vfs \<Rightarrow> ('n, 'h, 'x, 'w) cfg \<Rightarrow> u32
    \<Rightarrow> ('n, 'h, 'x, 'w, outcome) act" where
  "handleReadlink V c fid = do {
     r \<leftarrow> fid_get fid;
     case r of
       None \<Rightarrow> fail c EBADF
     | Some a \<Rightarrow> do {
         n \<leftarrow> currentNode a;
         case n_Readlink V n of
           None \<Rightarrow> fail c ENOSYS
         | Some readlink \<Rightarrow> do {
             r \<leftarrow> readlink;
             case r of
               Inl err \<Rightarrow> fail c (errnoFromError err)
             | Inr target \<Rightarrow> reply (L (Rreadlink target)) } } }"

definition handleStatfs :: "('n, 'h, 'x, 'w) vfs \<Rightarrow> ('n, 'h, 'x, 'w) cfg \<Rightarrow> u32
    \<Rightarrow> ('n, 'h, 'x, 'w, outcome) act" where
  "handleStatfs V c fid = do {
     r \<leftarrow> fid_get fid;
     case r of
       None \<Rightarrow> fail c EBADF
     | Some a \<Rightarrow> do {
         n \<leftarrow> currentNode a;
         case n_StatFS V n of
           None \<Rightarrow> fail c ENOSYS
         | Some statfs \<Rightarrow> do {
             r \<leftarrow> statfs;
             case r of
               Inl err \<Rightarrow> fail c (errnoFromError err)
             | Inr stat \<Rightarrow> reply (L (Rstatfs stat)) } } }"

definition handleFsync :: "('n, 'h, 'x, 'w) vfs \<Rightarrow> ('n, 'h, 'x, 'w) cfg \<Rightarrow> u32
    \<Rightarrow> ('n, 'h, 'x, 'w, outcome) act" where
  "handleFsync V c fid = do {
     r \<leftarrow> fid_get fid;
     case r of
       None \<Rightarrow> fail c EBADF
     | Some a \<Rightarrow> do {
         st \<leftarrow> currentState a;
         if st \<noteq> fidOpened then fail c EBADF
         else with_io V c a (do {
           fs \<leftarrow> fid_state a;
           case (case Option.bind (fs_handle fs) (h_Fsync V) of
                   Some sync \<Rightarrow> Some sync | None \<Rightarrow> n_Fsync V (fs_node fs)) of
             None \<Rightarrow> fail c ENOSYS
           | Some sync \<Rightarrow> do {
               r \<leftarrow> sync;
               case r of
                 Inl err \<Rightarrow> fail c (errnoFromError err)
               | Inr _ \<Rightarrow> reply (L Rfsync) } }) } }"

section \<open>Unlink and rename\<close>

definition handleUnlinkat :: "('n, 'h, 'x, 'w) vfs \<Rightarrow> ('n, 'h, 'x, 'w) cfg \<Rightarrow> u32 \<Rightarrow> gostring \<Rightarrow> u32
    \<Rightarrow> ('n, 'h, 'x, 'w, outcome) act" where
  "handleUnlinkat V c DirFid Name Flags = do {
     r \<leftarrow> fid_get DirFid;
     case r of
       None \<Rightarrow> fail c EBADF
     | Some a \<Rightarrow>
         if \<not> validName Name then fail c EINVAL
         else do {
           n \<leftarrow> currentNode a;
           case n_Unlink V n of
             None \<Rightarrow> fail c ENOSYS
           | Some unlink \<Rightarrow> do {
               r \<leftarrow> unlink Name Flags;
               case r of
                 Inl err \<Rightarrow> fail c (errnoFromError err)
               | Inr _ \<Rightarrow> do {
                   n' \<leftarrow> currentNode a;
                   (case v_EmbeddedInode V n' of
                      None \<Rightarrow> ret ()
                    | Some p \<Rightarrow> on_inodes (\<lambda>H. ((), RemoveChild p Name H)));
                   reply (L Runlinkat) } } } }"

text \<open>The move of a tree entry after a successful rename: the child leaves the old
  directory and, when the new one has an inode, enters it.\<close>

definition move_child :: "nat \<Rightarrow> gostring \<Rightarrow> nat option \<Rightarrow> gostring \<Rightarrow> nat \<Rightarrow> ('n, 'h, 'x, 'w, bool) act" where
  "move_child old oldName new newName i = do {
     on_inodes (\<lambda>H. ((), RemoveChild old oldName H));
     case new of None \<Rightarrow> ret True | Some p \<Rightarrow> add_child p newName i }"

definition handleRenameat :: "('n, 'h, 'x, 'w) vfs \<Rightarrow> ('n, 'h, 'x, 'w) cfg \<Rightarrow> u32 \<Rightarrow> gostring \<Rightarrow> u32 \<Rightarrow> gostring
    \<Rightarrow> ('n, 'h, 'x, 'w, outcome) act" where
  "handleRenameat V c OldDirFid OldName NewDirFid NewName = do {
     r \<leftarrow> fid_get OldDirFid;
     case r of
       None \<Rightarrow> fail c EBADF
     | Some old \<Rightarrow> do {
         r \<leftarrow> fid_get NewDirFid;
         case r of
           None \<Rightarrow> fail c EBADF
         | Some new \<Rightarrow>
             if \<not> validName OldName then fail c EINVAL
             else if \<not> validName NewName then fail c EINVAL
             else do {
               on \<leftarrow> currentNode old;
               case n_Rename V on of
                 None \<Rightarrow> fail c ENOSYS
               | Some rename \<Rightarrow> do {
                   nn \<leftarrow> currentNode new;
                   r \<leftarrow> rename OldName nn NewName;
                   case r of
                     Inl err \<Rightarrow> fail c (errnoFromError err)
                   | Inr _ \<Rightarrow> do {
                       on' \<leftarrow> currentNode old;
                       nn' \<leftarrow> currentNode new;
                       H \<leftarrow> gets s_inodes;
                       ok \<leftarrow> (case v_EmbeddedInode V on' of
                           None \<Rightarrow> ret True
                         | Some p \<Rightarrow> (case map_of (Children p H) OldName of
                             None \<Rightarrow> ret True
                           | Some i \<Rightarrow> move_child p OldName (v_EmbeddedInode V nn') NewName i));
                       reply_if ok (L Rrenameat) } } } } }"

definition handleRename :: "('n, 'h, 'x, 'w) vfs \<Rightarrow> ('n, 'h, 'x, 'w) cfg \<Rightarrow> u32 \<Rightarrow> u32 \<Rightarrow> gostring
    \<Rightarrow> ('n, 'h, 'x, 'w, outcome) act" where
  "handleRename V c fid DirFid Name = do {
     r \<leftarrow> fid_get fid;
     case r of
       None \<Rightarrow> fail c EBADF
     | Some a \<Rightarrow> do {
         r \<leftarrow> fid_get DirFid;
         case r of
           None \<Rightarrow> fail c EBADF
         | Some dir \<Rightarrow>
             if \<not> validName Name then fail c EINVAL
             else do {
               n \<leftarrow> currentNode a;
               H \<leftarrow> gets s_inodes;
               case v_EmbeddedInode V n of
                 None \<Rightarrow> fail c ENOSYS
               | Some i \<Rightarrow> (case Parent i H of
                   None \<Rightarrow> fail c ENOSYS
                 | Some p \<Rightarrow> (case name_of i (Children p H) of
                     None \<Rightarrow> fail c EINVAL
                   | Some oldName \<Rightarrow>
                       if oldName = [] then fail c EINVAL
                       else case Option.bind (i_node (H p)) (n_Rename V) of
                         None \<Rightarrow> fail c ENOSYS
                       | Some rename \<Rightarrow> do {
                           dn \<leftarrow> currentNode dir;
                           r \<leftarrow> rename oldName dn Name;
                           case r of
                             Inl err \<Rightarrow> fail c (errnoFromError err)
                           | Inr _ \<Rightarrow> do {
                               dn' \<leftarrow> currentNode dir;
                               ok \<leftarrow> move_child p oldName (v_EmbeddedInode V dn') Name i;
                               reply_if ok (L Rrename) } })) } } }"

section \<open>Locks\<close>

definition pick_locker :: "('n, 'h, 'x, 'w) vfs \<Rightarrow> ('n, 'h, 'x) fidState \<Rightarrow> ('n, 'h, 'x, 'w) locks option" where
  "pick_locker V fs = (case Option.bind (fs_handle fs) (h_Locker V) of
       Some l \<Rightarrow> Some l
     | None \<Rightarrow> n_Locker V (fs_node fs))"

definition handleLock :: "('n, 'h, 'x, 'w) vfs \<Rightarrow> ('n, 'h, 'x, 'w) cfg \<Rightarrow> u32 \<Rightarrow> u8 \<Rightarrow> u32 \<Rightarrow> u64 \<Rightarrow> u64 \<Rightarrow> u32 \<Rightarrow> gostring
    \<Rightarrow> ('n, 'h, 'x, 'w, outcome) act" where
  "handleLock V c fid LockType Flags Start Length ProcID ClientID = do {
     r \<leftarrow> fid_get fid;
     case r of
       None \<Rightarrow> fail c EBADF
     | Some a \<Rightarrow> do {
         st \<leftarrow> currentState a;
         if st \<noteq> fidOpened then fail c EBADF
         else with_io V c a (do {
           fs \<leftarrow> fid_state a;
           case pick_locker V fs of
             None \<Rightarrow> fail c ENOSYS
           | Some locker \<Rightarrow> do {
               r \<leftarrow> fst locker LockType Flags Start Length ProcID ClientID;
               case r of
                 Inl err \<Rightarrow> fail c (errnoFromError err)
               | Inr status \<Rightarrow> reply (L (Rlock status)) } }) } }"

definition handleGetlock :: "('n, 'h, 'x, 'w) vfs \<Rightarrow> ('n, 'h, 'x, 'w) cfg \<Rightarrow> u32 \<Rightarrow> u8 \<Rightarrow> u64 \<Rightarrow> u64 \<Rightarrow> u32 \<Rightarrow> gostring
    \<Rightarrow> ('n, 'h, 'x, 'w, outcome) act" where
  "handleGetlock V c fid LockType Start Length ProcID ClientID = do {
     r \<leftarrow> fid_get fid;
     case r of
       None \<Rightarrow> fail c EBADF
     | Some a \<Rightarrow> do {
         st \<leftarrow> currentState a;
         if st \<noteq> fidOpened then fail c EBADF
         else with_io V c a (do {
           fs \<leftarrow> fid_state a;
           case pick_locker V fs of
             None \<Rightarrow> fail c ENOSYS
           | Some locker \<Rightarrow> do {
               r \<leftarrow> snd locker LockType Start Length ProcID ClientID;
               case r of
                 Inl err \<Rightarrow> fail c (errnoFromError err)
               | Inr (lt, start, len, procID, clientID) \<Rightarrow>
                   reply (L (Rgetlock lt start len procID clientID)) } }) } }"

section \<open>Extended attributes\<close>

definition addXattrReadFid :: "('n, 'h, 'x, 'w) vfs \<Rightarrow> ('n, 'h, 'x, 'w) cfg \<Rightarrow> u32 \<Rightarrow> 'n \<Rightarrow> gostring \<Rightarrow> bytes
    \<Rightarrow> ('n, 'h, 'x, 'w, outcome) act" where
  "addXattrReadFid V c newFid n name data = do {
     e \<leftarrow> bind_fid V c newFid ((new_fidState n [] fidXattrRead)
            \<lparr>fs_xattrNode := Some n, fs_xattrName := name, fs_xattrData := data\<rparr>);
     case e of
       Some errno \<Rightarrow> fail c errno
     | None \<Rightarrow> reply (L (Rxattrwalk (of_nat (length data)))) }"

text \<open>The names of a listing, each followed by a NUL byte.\<close>

definition xattr_list :: "gostring list \<Rightarrow> bytes" where
  "xattr_list names = concat (map (\<lambda>name. name @ [0]) names)"

definition handleXattrwalk :: "('n, 'h, 'x, 'w) vfs \<Rightarrow> ('n, 'h, 'x, 'w) cfg \<Rightarrow> u32 \<Rightarrow> u32 \<Rightarrow> gostring
    \<Rightarrow> ('n, 'h, 'x, 'w, outcome) act" where
  "handleXattrwalk V c fid NewFid Name = do {
     r \<leftarrow> fid_get fid;
     case r of
       None \<Rightarrow> fail c EBADF
     | Some a \<Rightarrow> do {
         n \<leftarrow> currentNode a;
         case n_RawXattr V n of
           Some raw \<Rightarrow> do {
             r \<leftarrow> fst raw Name;
             case r of
               Inl err \<Rightarrow> fail c (errnoFromError err)
             | Inr data \<Rightarrow> addXattrReadFid V c NewFid n Name data }
         | None \<Rightarrow>
             if Name = [] then
               (case n_ListXattrs V n of
                  None \<Rightarrow> fail c ENOSYS
                | Some lister \<Rightarrow> do {
                    r \<leftarrow> lister;
                    case r of
                      Inl err \<Rightarrow> fail c (errnoFromError err)
                    | Inr names \<Rightarrow> addXattrReadFid V c NewFid n [] (xattr_list names) })
             else (case n_GetXattr V n of
                 None \<Rightarrow> fail c ENOSYS
               | Some getter \<Rightarrow> do {
                   r \<leftarrow> getter Name;
                   case r of
                     Inl err \<Rightarrow> fail c (errnoFromError err)
                   | Inr data \<Rightarrow> addXattrReadFid V c NewFid n Name data }) } }"

definition to_xattr_write :: "gostring \<Rightarrow> u64 \<Rightarrow> u32 \<Rightarrow> 'x option \<Rightarrow> ('n, 'h, 'x) fidState \<Rightarrow> ('n, 'h, 'x) fidState" where
  "to_xattr_write Name AttrSize Flags writer fs =
     fs\<lparr>fs_state := fidXattrWrite, fs_xattrNode := Some (fs_node fs), fs_xattrName := Name,
        fs_xattrSize := AttrSize, fs_xattrFlags := Flags, fs_xattrData := [], fs_xattrWriter := writer\<rparr>"

definition handleXattrcreate :: "('n, 'h, 'x, 'w) vfs \<Rightarrow> ('n, 'h, 'x, 'w) cfg \<Rightarrow> u32 \<Rightarrow> gostring \<Rightarrow> u64 \<Rightarrow> u32
    \<Rightarrow> ('n, 'h, 'x, 'w, outcome) act" where
  "handleXattrcreate V c fid Name AttrSize Flags = do {
     r \<leftarrow> fid_get fid;
     case r of
       None \<Rightarrow> fail c EBADF
     | Some a \<Rightarrow> do {
         st \<leftarrow> currentState a;
         if st \<noteq> fidAllocated then fail c EBADF
         else if AttrSize > ucast (c_msize c) then fail c EINVAL
         else do {
           n \<leftarrow> currentNode a;
           case n_RawXattr V n of
             Some raw \<Rightarrow> do {
               r \<leftarrow> snd raw Name AttrSize Flags;
               case r of
                 Inl err \<Rightarrow> fail c (errnoFromError err)
               | Inr writer \<Rightarrow> do {
                   fid_modify a (to_xattr_write Name AttrSize Flags (Some writer));
                   reply (L Rxattrcreate) } }
           | None \<Rightarrow>
               if AttrSize = 0 \<and> n_RemoveXattr V n = None \<or> AttrSize \<noteq> 0 \<and> n_SetXattr V n = None
               then fail c ENOSYS
               else do {
                 fid_modify a (to_xattr_write Name AttrSize Flags None);
                 reply (L Rxattrcreate) } } } }"

end
