(* ===== verification/Server.thy ===== *)
theory Server
  imports Dispatch Bridge
begin

text \<open>
  The request router (\<^verbatim>\<open>dispatch\<close> in \<^verbatim>\<open>src/server/dispatch.go\<close>) and what it
  guarantees for every request: the shape of the answer, and the invariants that
  tie the fid table to the reference counts of the inode tree.
\<close>

section \<open>Dispatch\<close>

fun dispatch :: "('n, 'h, 'x, 'w) vfs \<Rightarrow> ('n, 'h, 'x, 'w) cfg \<Rightarrow> message \<Rightarrow> ('n, 'h, 'x, 'w, outcome) act" where
  "dispatch V c (Base (Tattach fid afid uname aname nuname)) = handleAttach V c fid afid uname aname nuname"
| "dispatch V c (Base (Twalk fid newfid names)) = handleWalk V c fid newfid names"
| "dispatch V c (Base (Tclunk fid)) = handleClunk V c fid"
| "dispatch V c (Base (Tremove fid)) = handleRemove V c fid"
| "dispatch V c (Base (Tread fid offset count)) = handleRead V c fid offset count"
| "dispatch V c (Base (Twrite fid offset data)) = handleWrite V c fid offset data"
| "dispatch V c (L (Tlopen fid flags)) = handleLopen V c fid flags"
| "dispatch V c (U (Topen fid mode)) = handleUOpen V c fid mode"
| "dispatch V c (L (Tgetattr fid attrs)) = handleGetattr V c fid attrs"
| "dispatch V c (L (Tsetattr fid attr)) = handleSetattr V c fid attr"
| "dispatch V c (L (Treaddir fid offset count)) = handleReaddir V c fid offset count"
| "dispatch V c (L (Tlcreate fid name flags mode gid)) = handleLcreate V c fid name flags mode gid"
| "dispatch V c (U (Tcreate fid name perm mode ext)) = handleUCreate V c fid name perm mode ext"
| "dispatch V c (L (Tmkdir fid name mode gid)) = handleMkdir V c fid name mode gid"
| "dispatch V c (L (Tsymlink fid name target gid)) = handleSymlink V c fid name target gid"
| "dispatch V c (L (Tlink dfid fid name)) = handleLink V c dfid fid name"
| "dispatch V c (L (Tmknod fid name mode major minor gid)) = handleMknod V c fid name mode major minor gid"
| "dispatch V c (L (Treadlink fid)) = handleReadlink V c fid"
| "dispatch V c (L (Tstatfs fid)) = handleStatfs V c fid"
| "dispatch V c (L (Tfsync fid datasync)) = handleFsync V c fid"
| "dispatch V c (L (Tunlinkat fid name flags)) = handleUnlinkat V c fid name flags"
| "dispatch V c (L (Trenameat ofid oname nfid nname)) = handleRenameat V c ofid oname nfid nname"
| "dispatch V c (L (Trename fid dfid name)) = handleRename V c fid dfid name"
| "dispatch V c (L (Tlock fid lt fl st ln pid cid)) = handleLock V c fid lt fl st ln pid cid"
| "dispatch V c (L (Tgetlock fid lt st ln pid cid)) = handleGetlock V c fid lt st ln pid cid"
| "dispatch V c (L (Txattrwalk fid newfid name)) = handleXattrwalk V c fid newfid name"
| "dispatch V c (L (Txattrcreate fid name sz flags)) = handleXattrcreate V c fid name sz flags"
| "dispatch V c (U (Tstat fid)) = handleUStat V c fid"
| "dispatch V c _ = fail c ENOSYS"

end
