(* ===== verification/ServerReplies.thy ===== *)
theory ServerReplies
  imports Server
begin

text \<open>
  What the answer to a request looks like, for every file system, every state and
  every message: its type, and the size of the variable-length answers.
\<close>

section \<open>Answer types\<close>

definition is_error :: "('n, 'h, 'x, 'w) cfg \<Rightarrow> message \<Rightarrow> bool" where
  "is_error c m \<longleftrightarrow> (\<exists>errno. m = errorMsg c errno)"

lemma is_error_errorMsg [simp]: "is_error c (errorMsg c errno)"
  by (auto simp: is_error_def)

text \<open>\<^verbatim>\<open>block\<close> says whether the handler may block for ever instead of answering.\<close>

definition answers :: "('n, 'h, 'x, 'w) cfg \<Rightarrow> bool \<Rightarrow> u8 \<Rightarrow> outcome \<Rightarrow> bool" where
  "answers c block t out = (case out of Deadlock \<Rightarrow> block | Reply m \<Rightarrow> Type m = t \<or> is_error c m)"

lemma answers_simps [simp]:
  "answers c b t (Reply (errorMsg c errno))"
  "answers c True t Deadlock"
  "Type m = t \<Longrightarrow> answers c b t (Reply m)"
  by (simp_all add: answers_def)

lemma with_io_answers: "yields Q body \<Longrightarrow> Q (Reply (errorMsg c EBADF)) \<Longrightarrow> yields Q (with_io V c a body)"
  by (auto simp: with_io_def yields_def split: prod.splits) (metis fst_conv)

lemmas answer_defs = handleLcreate_def handleUCreate_def handleMkdir_def handleSymlink_def
  handleMknod_def handleLopen_def handleUOpen_def handleRead_def handleWrite_def handleGetattr_def
  handleSetattr_def handleUStat_def handleReaddir_def readdirSimple_def raw_readdir_def create_fid_def
  make_child_def handleLink_def handleReadlink_def handleStatfs_def handleFsync_def handleUnlinkat_def
  handleRenameat_def handleRename_def handleLock_def handleGetlock_def addXattrReadFid_def
  handleXattrwalk_def handleXattrcreate_def handleAttach_def handleWalk_def handleClunk_def
  commit_xattr_def handleRemove_def

lemma write_reply_answers: "answers c b 119 (Reply (write_reply c data r))"
  by (simp add: write_reply_def split: sum.split)

text \<open>The rules applied until nothing is left but replies.\<close>

lemma handler_answers:
  "yields (answers c False 105) (handleAttach V c fid afid uname aname nuname)"
  "yields (answers c False 111) (handleWalk V c fid newfid names)"
  "yields (answers c False 121) (handleClunk V c fid)"
  "yields (answers c False 123) (handleRemove V c fid)"
  "yields (answers c False 117) (handleRead V c fid off cnt)"
  "yields (answers c False 119) (handleWrite V c fid off data)"
  "yields (answers c False 13) (handleLopen V c fid flags)"
  "yields (answers c False 113) (handleUOpen V c fid mode)"
  "yields (answers c False 25) (handleGetattr V c fid attrs)"
  "yields (answers c False 27) (handleSetattr V c fid attr)"
  "yields (answers c False 125) (handleUStat V c fid)"
  "yields (answers c False 41) (handleReaddir V c fid off cnt)"
  "yields (answers c True 15) (handleLcreate V c fid name flags mode' gid)"
  "yields (answers c True 115) (handleUCreate V c fid name perm mode ext)"
  "yields (answers c True 73) (handleMkdir V c fid name mode' gid)"
  "yields (answers c True 17) (handleSymlink V c fid name target gid)"
  "yields (answers c True 71) (handleLink V c fid newfid name)"
  "yields (answers c True 19) (handleMknod V c fid name mode' major minor gid)"
  "yields (answers c False 23) (handleReadlink V c fid)"
  "yields (answers c False 9) (handleStatfs V c fid)"
  "yields (answers c False 51) (handleFsync V c fid)"
  "yields (answers c False 77) (handleUnlinkat V c fid name flags)"
  "yields (answers c True 75) (handleRenameat V c fid name newfid name')"
  "yields (answers c True 21) (handleRename V c fid newfid name)"
  "yields (answers c False 53) (handleLock V c fid lt fl st ln pid cid)"
  "yields (answers c False 55) (handleGetlock V c fid lt st ln pid cid)"
  "yields (answers c False 31) (handleXattrwalk V c fid newfid name)"
  "yields (answers c False 33) (handleXattrcreate V c fid name sz flags)"
  unfolding answer_defs
  by (intro yields_intro with_io_answers; simp add: write_reply_answers)+

section \<open>Answer sizes\<close>

text \<open>The payload of an answer that carries file data or directory entries.\<close>

fun payload :: "outcome \<Rightarrow> nat" where
  "payload (Reply (Base (Rread d))) = length d"
| "payload (Reply (L (Rreaddir d))) = length d"
| "payload _ = 0"

lemma payload_error [simp]: "payload (Reply (errorMsg c errno)) = 0"
  by (simp add: errorMsg_def split: protocol.split)

lemma clampCount_le:
  assumes "11 \<le> c_msize c"
  shows "unat (clampCount c cnt) + 11 \<le> unat (c_msize c)"
proof -
  have "unat (c_msize c - 7 - 4) = unat (c_msize c) - 11"
    using assms by (simp add: unat_sub word_le_nat_alt flip: diff_diff_add)
  moreover have "c_msize c - of_nat HeaderSize - 4 = c_msize c - 7 - 4" by (simp add: HeaderSize_def)
  ultimately show ?thesis
    using assms by (auto simp: clampCount_def Let_def word_less_nat_alt word_le_nat_alt)
qed

lemma unat_ucast_32_64: "unat (ucast (w :: u32) :: u64) = unat w"
proof -
  have "unat w < 2 ^ 64" by (rule order_less_trans [OF unat_lt_32]) simp
  then show ?thesis by (simp add: unsigned_ucast_eq take_bit_nat_eq_self)
qed

lemma fillPooled_size:
  "yields (\<lambda>r. case r of Inl _ \<Rightarrow> True | Inr d \<Rightarrow> length d \<le> unat cnt) (fillPooled cnt rd)"
  unfolding fillPooled_def
  by (intro yields_intro) (auto simp: validReadCount_def nat_le_iff split: sum.splits)

lemma xattr_slice_size: "length (xattr_slice data off cnt) \<le> unat cnt"
proof (cases "off \<ge> of_nat (length data)")
  case False
  let ?stop = "min (off + ucast cnt) (of_nat (length data))"
  have "unat (?stop - off) \<le> unat (ucast cnt :: u64)"
  proof (cases "off + ucast cnt \<le> of_nat (length data)")
    case False
    let ?len = "of_nat (length data) :: u64"
    have "unat (off + ucast cnt) \<le> unat off + unat (ucast cnt :: u64)"
      by (simp add: unat_word_ariths)
    moreover have "unat ?len < unat (off + ucast cnt)" "unat off < unat ?len"
      using False \<open>\<not> off \<ge> _\<close> by (simp_all add: word_less_nat_alt not_le)
    moreover have "unat (?len - off) = unat ?len - unat off"
      using \<open>\<not> off \<ge> _\<close> by (intro unat_sub) simp
    ultimately show ?thesis using False by (simp add: min_def)
  qed (simp add: min_def)
  then show ?thesis using False by (simp add: xattr_slice_def Let_def unat_ucast_32_64)
qed (simp add: xattr_slice_def)

lemma readdir_page_size: "length (readdir_page cache off cnt) \<le> unat cnt"
proof -
  let ?ds = "drop (if off < of_nat (length cache) then unat off else length cache) cache"
  obtain dst where "EncodeDirentsInto (replicate (unat cnt) 0) ?ds =
      (dst, length (concat (map dirent_bytes (packed (unat cnt) ?ds))), length (packed (unat cnt) ?ds))"
    using EncodeDirentsInto_spec [of "replicate (unat cnt) 0" ?ds] by auto
  then show ?thesis
    using packed_fits [of "unat cnt" ?ds] by (simp add: readdir_page_def Let_def min_def)
qed

lemma payload_small [simp]: "payload (Reply (write_reply c data r)) = 0"
  by (simp add: write_reply_def split: sum.split)

text \<open>Data is produced in three places, each bounded by the clamped count.\<close>

lemma fill_payload:
  assumes "11 \<le> c_msize c"
    and "\<And>d. length d \<le> unat (clampCount c cnt) \<Longrightarrow> payload (mk d) + 11 \<le> unat (c_msize c)"
  shows "yields (\<lambda>o'. payload o' + 11 \<le> unat (c_msize c))
    (State_Monad.bind (fillPooled (clampCount c cnt) rd)
       (\<lambda>d. case d of Inl errno \<Rightarrow> fail c errno | Inr data \<Rightarrow> ret (mk data)))"
proof -
  have m: "11 \<le> unat (c_msize c)" using assms(1) by (simp add: word_le_nat_alt)
  show ?thesis
  proof (unfold yields_def, rule allI)
    fix s
    obtain r s1 where r: "run_state (fillPooled (clampCount c cnt) rd) s = (r, s1)" by fastforce
    show "payload (fst (run_state (State_Monad.bind (fillPooled (clampCount c cnt) rd)
       (\<lambda>d. case d of Inl errno \<Rightarrow> fail c errno | Inr data \<Rightarrow> ret (mk data))) s)) + 11 \<le> unat (c_msize c)"
      using yieldsD [OF fillPooled_size, of "clampCount c cnt" rd s] r m assms(2)
      by (cases r) simp_all
  qed
qed

lemma read_payload:
  assumes "11 \<le> c_msize c"
  shows "yields (\<lambda>o'. payload o' + 11 \<le> unat (c_msize c)) (handleRead V c fid off cnt)"
proof -
  have m: "11 \<le> unat (c_msize c)" using assms by (simp add: word_le_nat_alt)
  have le: "length d \<le> unat (clampCount c cnt) \<Longrightarrow> length d + 11 \<le> unat (c_msize c)" for d :: bytes
    using clampCount_le [OF assms, of cnt] by simp
  show ?thesis
    unfolding handleRead_def Let_def
    by (intro yields_bind yields_return yields_option yields_if with_io_answers fill_payload [OF assms])
      (auto simp: m intro: le xattr_slice_size)
qed

lemma readdir_payload:
  assumes "11 \<le> c_msize c"
  shows "yields (\<lambda>o'. payload o' + 11 \<le> unat (c_msize c)) (handleReaddir V c fid off cnt)"
proof -
  have m: "11 \<le> unat (c_msize c)" using assms by (simp add: word_le_nat_alt)
  have le: "length d \<le> unat (clampCount c cnt) \<Longrightarrow> length d + 11 \<le> unat (c_msize c)" for d :: bytes
    using clampCount_le [OF assms, of cnt] by simp
  show ?thesis
    unfolding handleReaddir_def Let_def readdirSimple_def raw_readdir_def
    by (intro yields_bind yields_return yields_option yields_if yields_sum with_io_answers fill_payload [OF assms])
      (auto simp: m intro: le readdir_page_size)
qed

text \<open>An error answer is small: its message comes from the table or names the
  number.\<close>

lemma decimal_length: "n < 10 ^ Suc k \<Longrightarrow> length (decimal n) \<le> Suc k"
proof (induction k arbitrary: n)
  case (Suc k)
  then have "n div 10 < 10 ^ Suc k" by (simp add: less_mult_imp_div_less)
  then show ?case using Suc.IH [of "n div 10"] by (subst decimal.simps) simp
qed (subst decimal.simps, simp)

lemma errnoNames_length: "list_all (\<lambda>(e, name). length name \<le> 64) errnoNames"
  by code_simp

lemma Errno_Error_length: "length (Errno_Error e) \<le> 64"
proof (cases "map_of errnoNames e")
  case None
  have "length (decimal (unat e)) \<le> 10"
    using decimal_length [of "unat e" 9] order_less_trans [OF unat_lt_32 [of e], of "10 ^ 10"] by simp
  then show ?thesis by (simp add: Errno_Error_def None gostr_def)
next
  case (Some name)
  then show ?thesis using errnoNames_length map_of_SomeD [OF Some]
    by (auto simp: Errno_Error_def gostr_def list_all_iff)
qed

lemma error_fits: "EncodeFrame tag (errorMsg c errno) = Inr bs \<Longrightarrow> length bs \<le> 86"
  using Errno_Error_length [of errno]
  by (auto simp: EncodeFrame_def errorMsg_def codec_defs rbind_Inr_iff codec_iff split: protocol.splits)

lemma Type_data: "Type r = 117 \<or> Type r = 41 \<Longrightarrow> \<exists>d. r = Base (Rread d) \<or> r = L (Rreaddir d)"
proof (cases r)
  case (Base b)
  then show "Type r = 117 \<or> Type r = 41 \<Longrightarrow> ?thesis" by (cases b) simp_all
next
  case (L l)
  then show "Type r = 117 \<or> Type r = 41 \<Longrightarrow> ?thesis" by (cases l) simp_all
next
  case (U u)
  then show "Type r = 117 \<or> Type r = 41 \<Longrightarrow> ?thesis" by (cases u) simp_all
qed

section \<open>Properties\<close>

lemma dispatch_answers:
  "yields (answers c (case m of
       L (Tlcreate _ _ _ _ _) \<Rightarrow> True | U (Tcreate _ _ _ _ _) \<Rightarrow> True | L (Tmkdir _ _ _ _) \<Rightarrow> True
     | L (Tsymlink _ _ _ _) \<Rightarrow> True | L (Tlink _ _ _) \<Rightarrow> True | L (Tmknod _ _ _ _ _ _) \<Rightarrow> True
     | L (Trenameat _ _ _ _) \<Rightarrow> True | L (Trename _ _ _) \<Rightarrow> True | _ \<Rightarrow> False) (Type m + 1)) (dispatch V c m)"
  by (induction V c m rule: dispatch.induct) (simp_all add: handler_answers yields_return)

text \<open>C31. Every request gets an answer of its own kind: whatever the file system does,
  the answer to a message is the message type one above it or the dialect's error
  message. Only the requests that register a child in the inode tree can fail to
  answer, by blocking on the lock of an inode that is added below itself.\<close>

theorem dispatch_reply_type:
  "case fst (run_state (dispatch V c m) s) of
     Reply r \<Rightarrow> Type r = Type m + 1 \<or> (\<exists>errno. r = errorMsg c errno)
   | Deadlock \<Rightarrow> (case m of
       L (Tlcreate _ _ _ _ _) \<Rightarrow> True | U (Tcreate _ _ _ _ _) \<Rightarrow> True | L (Tmkdir _ _ _ _) \<Rightarrow> True
     | L (Tsymlink _ _ _ _) \<Rightarrow> True | L (Tlink _ _ _) \<Rightarrow> True | L (Tmknod _ _ _ _ _ _) \<Rightarrow> True
     | L (Trenameat _ _ _ _) \<Rightarrow> True | L (Trename _ _ _) \<Rightarrow> True | _ \<Rightarrow> False)"
  using yieldsD [OF dispatch_answers, of c m V s]
  by (simp add: answers_def is_error_def split: outcome.splits)

text \<open>The answer to a read or a directory read fits the negotiated message size.\<close>

lemma data_reply_fits:
  assumes "256 \<le> c_msize c"
    and "fst (run_state (handleRead V c fid off cnt) s) = Reply r
         \<or> fst (run_state (handleReaddir V c fid off cnt) s) = Reply r"
    and "EncodeFrame tag r = Inr bs"
  shows "length bs \<le> unat (c_msize c)"
proof -
  have m: "11 \<le> c_msize c" "256 \<le> unat (c_msize c)"
    using assms(1) by (auto simp: word_le_nat_alt)
  have pay: "payload (Reply r) + 11 \<le> unat (c_msize c)"
    using assms(2) yieldsD [OF read_payload [OF m(1)], of V fid off cnt s]
      yieldsD [OF readdir_payload [OF m(1)], of V fid off cnt s] by auto
  have "answers c False 117 (Reply r) \<or> answers c False 41 (Reply r)"
    using assms(2) yieldsD [OF handler_answers(5), of c V fid off cnt s]
      yieldsD [OF handler_answers(12), of c V fid off cnt s] by auto
  then consider (error) errno where "r = errorMsg c errno" | (data) "Type r = 117 \<or> Type r = 41"
    by (auto simp: answers_def is_error_def)
  then show ?thesis
  proof cases
    case error
    then show ?thesis using error_fits assms(3) m(2) by fastforce
  next
    case data
    then obtain d where "r = Base (Rread d) \<or> r = L (Rreaddir d)"
      using Type_data by blast
    then show ?thesis
      using assms(3) pay
      by (auto simp: EncodeFrame_def rbind_Inr_iff codec_defs codec_iff HeaderSize_def)
  qed
qed

end
