(* ===== verification/ServerInv.thy ===== *)
theory ServerInv
  imports Server
begin

text \<open>
  Invariants of the server state under every request. The locale \<^verbatim>\<open>vfs_contract\<close>
  is what the server relies on: no call into the file system breaks the
  invariant, whatever references other requests have in flight. The locale
  \<^verbatim>\<open>neutral_invariant\<close> adds one law per transaction that neither binds nor unbinds a
  fid, which is all most handlers are built from; \<^verbatim>\<open>server_invariant\<close> adds the laws of
  binding and clunking, and in it every handler, the dispatcher and the shutdown
  loop are proved to keep the invariant. Concrete invariants are instances.

  An invariant is indexed by the list \<^verbatim>\<open>D\<close> of addresses of fid states that have
  left the table and have not given up their node reference yet.
\<close>

section \<open>The contract of the file system\<close>

locale vfs_contract =
  fixes V :: "('n, 'h, 'x, 'w) vfs" and c :: "('n, 'h, 'x, 'w) cfg"
    and P :: "nat list \<Rightarrow> ('n, 'h, 'x, 'w) srv \<Rightarrow> bool"
  assumes attach: "c_attacher c = Some f1 \<Longrightarrow> keeps (P D) (f1 uname aname uid)"
    and Lookup: "n_Lookup V n = Some f2 \<Longrightarrow> keeps (P D) (f2 name)"
    and Open: "n_Open V n = Some f3 \<Longrightarrow> keeps (P D) (f3 flags)"
    and Read: "n_Read V n = Some f4 \<Longrightarrow> keeps (P D) (f4 cnt off)"
    and Write: "n_Write V n = Some f5 \<Longrightarrow> keeps (P D) (f5 data off)"
    and Getattr: "n_Getattr V n = Some f6 \<Longrightarrow> keeps (P D) (f6 msk)"
    and Setattr: "n_Setattr V n = Some f7 \<Longrightarrow> keeps (P D) (f7 attr)"
    and Readdir: "n_Readdir V n = Some f8 \<Longrightarrow> keeps (P D) f8"
    and RawReaddir: "n_RawReaddir V n = Some f9 \<Longrightarrow> keeps (P D) (f9 cnt off)"
    and Create: "n_Create V n = Some f10 \<Longrightarrow> keeps (P D) (f10 name flags mode gid)"
    and Mkdir: "n_Mkdir V n = Some f11 \<Longrightarrow> keeps (P D) (f11 name mode gid)"
    and Symlink: "n_Symlink V n = Some f12 \<Longrightarrow> keeps (P D) (f12 name target gid)"
    and Link: "n_Link V n = Some f13 \<Longrightarrow> keeps (P D) (f13 m name)"
    and Mknod: "n_Mknod V n = Some f14 \<Longrightarrow> keeps (P D) (f14 name mode major minor gid)"
    and Readlink: "n_Readlink V n = Some f15 \<Longrightarrow> keeps (P D) f15"
    and Unlink: "n_Unlink V n = Some f16 \<Longrightarrow> keeps (P D) (f16 name flags)"
    and Rename: "n_Rename V n = Some f17 \<Longrightarrow> keeps (P D) (f17 name m name')"
    and StatFS: "n_StatFS V n = Some f18 \<Longrightarrow> keeps (P D) f18"
    and Fsync: "n_Fsync V n = Some f19 \<Longrightarrow> keeps (P D) f19"
    and Lock: "n_Locker V n = Some l20 \<Longrightarrow> keeps (P D) (fst l20 lt fl st ln pid cid)"
    and GetLock: "n_Locker V n = Some l21 \<Longrightarrow> keeps (P D) (snd l21 lt st ln pid cid)"
    and Close: "n_Close V n = Some f22 \<Longrightarrow> keeps (P D) f22"
    and GetXattr: "n_GetXattr V n = Some f23 \<Longrightarrow> keeps (P D) (f23 name)"
    and SetXattr: "n_SetXattr V n = Some f24 \<Longrightarrow> keeps (P D) (f24 name data fl)"
    and ListXattrs: "n_ListXattrs V n = Some f25 \<Longrightarrow> keeps (P D) f25"
    and RemoveXattr: "n_RemoveXattr V n = Some f26 \<Longrightarrow> keeps (P D) (f26 name)"
    and HandleXattrwalk: "n_RawXattr V n = Some l27 \<Longrightarrow> keeps (P D) (fst l27 name)"
    and HandleXattrcreate: "n_RawXattr V n = Some l28 \<Longrightarrow> keeps (P D) (snd l28 name sz fl)"
    and XWrite: "keeps (P D) (x_Write V x data)"
    and XCommit: "keeps (P D) (x_Commit V x)"
    and HRead: "h_Read V h = Some f31 \<Longrightarrow> keeps (P D) (f31 cnt off)"
    and HWrite: "h_Write V h = Some f32 \<Longrightarrow> keeps (P D) (f32 data off)"
    and HRelease: "h_Release V h = Some f33 \<Longrightarrow> keeps (P D) f33"
    and HFsync: "h_Fsync V h = Some f34 \<Longrightarrow> keeps (P D) f34"
    and HLock: "h_Locker V h = Some l35 \<Longrightarrow> keeps (P D) (fst l35 lt fl st ln pid cid)"
    and HGetLock: "h_Locker V h = Some l36 \<Longrightarrow> keeps (P D) (snd l36 lt st ln pid cid)"
    and HReaddir: "h_Readdir V h = Some f37 \<Longrightarrow> keeps (P D) f37"
    and HRawReaddir: "h_RawReaddir V h = Some f38 \<Longrightarrow> keeps (P D) (f38 cnt off)"
begin

lemmas calls = attach Lookup Open Read Write Getattr Setattr Readdir RawReaddir Create Mkdir Symlink
  Link Mknod Readlink Unlink Rename StatFS Fsync Lock GetLock Close GetXattr SetXattr ListXattrs
  RemoveXattr HandleXattrwalk HandleXattrcreate XWrite XCommit HRead HWrite HRelease HFsync HLock
  HGetLock HReaddir HRawReaddir

text \<open>The calls made through a handle that may be nil, or through the back
  reference of an inode.\<close>

lemma bound_calls:
  "Option.bind h' (h_Read V) = Some f31 \<Longrightarrow> keeps (P D) (f31 cnt off)"
  "Option.bind h' (h_Write V) = Some f32 \<Longrightarrow> keeps (P D) (f32 data off)"
  "Option.bind h' (h_Readdir V) = Some f37 \<Longrightarrow> keeps (P D) f37"
  "Option.bind h' (h_RawReaddir V) = Some f38 \<Longrightarrow> keeps (P D) (f38 cnt off)"
  "Option.bind n' (n_Unlink V) = Some f16 \<Longrightarrow> keeps (P D) (f16 name flags)"
  "Option.bind n' (n_Rename V) = Some f17 \<Longrightarrow> keeps (P D) (f17 name m name')"
  "Option.bind n' (n_SetXattr V) = Some f24 \<Longrightarrow> keeps (P D) (f24 name data fl)"
  "Option.bind n' (n_RemoveXattr V) = Some f26 \<Longrightarrow> keeps (P D) (f26 name)"
  by (auto simp: Option.bind_eq_Some_conv intro: calls)

lemma fsync_call:
  "(case Option.bind h' (h_Fsync V) of Some sync \<Rightarrow> Some sync | None \<Rightarrow> n_Fsync V n) = Some f
   \<Longrightarrow> keeps (P D) f"
  by (auto simp: Option.bind_eq_Some_conv intro: calls split: option.splits)

lemma lock_calls:
  "pick_locker V fs = Some l \<Longrightarrow> keeps (P D) (fst l lt fl st ln pid cid)"
  "pick_locker V fs = Some l \<Longrightarrow> keeps (P D) (snd l lt st ln pid cid)"
  by (auto simp: pick_locker_def Option.bind_eq_Some_conv intro: calls split: option.splits)

lemma fillPooled_keeps: "keeps (P D) (rd cnt) \<Longrightarrow> keeps (P D) (fillPooled cnt rd)"
  unfolding fillPooled_def by (intro keeps_intro)

lemma reads_keep: "keeps (P D) (fid_get fid)" "keeps (P D) (fid_state a)" "keeps (P D) (currentNode a)"
  "keeps (P D) (currentState a)" "keeps (P D) (currentPath a)" "keeps (P D) (nodeAndPath a)"
  "keeps (P D) (nodeQID V n)"
  unfolding fid_get_def fid_state_def currentNode_def currentState_def currentPath_def nodeAndPath_def nodeQID_def
  by (rule keeps_gets)+

end

section \<open>The transactions of the handlers\<close>

text \<open>The requests that neither bind nor unbind a fid.\<close>

definition neutral :: "message \<Rightarrow> bool" where
  "neutral m = (case m of
       Base (Tattach _ _ _ _ _) \<Rightarrow> False
     | Base (Twalk _ _ _) \<Rightarrow> False
     | Base (Tclunk _) \<Rightarrow> False
     | Base (Tremove _) \<Rightarrow> False
     | L (Txattrwalk _ _ _) \<Rightarrow> False
     | _ \<Rightarrow> True)"

text \<open>The laws of the transactions that neither bind nor unbind a fid. They are all the
  requests need, except attach, walk, clunk, remove and the opening of an
  extended attribute.\<close>

locale neutral_invariant = vfs_contract V c P
  for V :: "('n, 'h, 'x, 'w) vfs" and c :: "('n, 'h, 'x, 'w) cfg" and P +
  assumes rebind_walk: "keeps (P D) (rebind_walk V fid n p)"
    and rebind_create: "keeps (P D) (rebind_create V fid n h)"
    and mark_opened: "keeps (P D) (on_tab (markOpenedWithHandle fid h))"
    and on_fid: "(\<And>fs. fs_node (snd (g fs)) = fs_node fs) \<Longrightarrow> keeps (P D) (on_fid a (g :: _ \<Rightarrow> bool option \<times> _))"
    and begin_io: "keeps (P D) (begin_io a)"
    and fid_modify: "(\<And>fs. fs_node (k fs) = fs_node fs) \<Longrightarrow> keeps (P D) (fid_modify a k)"
    and remove_child: "keeps (P D) (on_inodes (\<lambda>H. ((), RemoveChild p' name H)))"
    and add_child: "keeps (P D) (add_child p' name i)"
    and note_closing: "keeps (P D) (note_closing e)"
begin

lemmas transactions = rebind_walk rebind_create mark_opened begin_io remove_child add_child note_closing

lemma release_keeps:
  "keeps (P D) (releaseFileHandle V h)" "keeps (P D) (closeOrphanNode V n)"
  "keeps (P D) (closeUnboundNode V n)" "keeps (P D) (releaseNow V a b)"
  "keeps (P D) (release_decided V a d)"
  unfolding release_decided_def releaseNow_def closeUnboundNode_def releaseFileHandle_def closeOrphanNode_def
  by (intro keeps_intro reads_keep note_closing calls; assumption)+

lemma io_keeps: "keeps (P D) (end_io V a)" "keeps (P D) (finish_clunk V a b)"
  unfolding end_io_def finish_clunk_def
  by (intro keeps_intro release_keeps on_fid; simp add: endIO_def finishClunk_def Let_def)+

lemma with_io_keeps: "keeps (P D) body \<Longrightarrow> keeps (P D) (with_io V c a body)"
  unfolding with_io_def by (intro keeps_intro io_keeps begin_io)

lemmas handler_rules = keeps_intro reads_keep transactions release_keeps io_keeps with_io_keeps
  fillPooled_keeps calls bound_calls fsync_call lock_calls

lemma walk_loop_keeps: "keeps (P D) (walk_loop V w names i cur qids)"
proof (induction names arbitrary: i cur qids)
  case (Cons name names)
  show ?case unfolding walk_loop.simps by (intro handler_rules Cons.IH; assumption?)
qed (simp add: keeps_return)

lemma closeResolved_keeps: "keeps (P D) (closeResolved V ws cur)"
  unfolding closeResolved_def by (intro handler_rules)

lemma commit_keeps: "keeps (P D) (commit_xattr V c fs)"
  unfolding commit_xattr_def by (intro handler_rules; assumption?)

lemma remove_tree_keeps: "keeps (P D) (removeViaInodeTree V n)"
  unfolding removeViaInodeTree_def by (intro handler_rules; assumption?)

lemma open_keeps: "keeps (P D) (openFid V c fid flags)"
  unfolding openFid_def by (intro handler_rules; assumption?)

lemma readdir_keeps:
  "keeps (P D) rd \<Longrightarrow> keeps (P D) (readdirSimple V c a off cnt rd)"
  "keeps (P D) (raw cnt off) \<Longrightarrow> keeps (P D) (raw_readdir c cnt off raw)"
  unfolding readdirSimple_def raw_readdir_def
  by (intro keeps_intro reads_keep fillPooled_keeps fid_modify; simp)+

lemma register_keeps: "keeps (P D) (registerChild V n m name)" "keeps (P D) (move_child i name j name' k)"
  unfolding registerChild_def move_child_def
  by (auto intro!: keeps_intro add_child remove_child split: option.split)

lemma create_keeps: "keeps (P D) (create_fid V c fid name flags mode gid answer)"
  unfolding create_fid_def by (intro handler_rules register_keeps; assumption?)

lemma make_child_keeps:
  assumes "\<And>n call. cap n = Some call \<Longrightarrow> keeps (P D) call"
  shows "keeps (P D) (make_child V c fid name cap answer)"
  unfolding make_child_def by (intro handler_rules register_keeps assms; assumption?)

lemma bridge_keeps:
  "keeps (P D) (handleLopen V c fid flags)"
  "keeps (P D) (handleUOpen V c fid mode)"
  "keeps (P D) (handleRead V c fid off cnt)"
  "keeps (P D) (handleGetattr V c fid attrs)"
  "keeps (P D) (handleSetattr V c fid attr)"
  "keeps (P D) (handleUStat V c fid)"
  "keeps (P D) (handleReaddir V c fid off cnt)"
  "keeps (P D) (handleLcreate V c fid name flags mode' gid)"
  "keeps (P D) (handleUCreate V c fid name perm mode ext)"
  "keeps (P D) (handleLink V c fid newfid name)"
  "keeps (P D) (handleReadlink V c fid)"
  "keeps (P D) (handleStatfs V c fid)"
  "keeps (P D) (handleFsync V c fid)"
  "keeps (P D) (handleUnlinkat V c fid name flags)"
  "keeps (P D) (handleRenameat V c fid name newfid name')"
  "keeps (P D) (handleRename V c fid newfid name)"
  "keeps (P D) (handleLock V c fid lt fl st ln pid cid)"
  "keeps (P D) (handleGetlock V c fid lt st ln pid cid)"
  unfolding handleLopen_def handleUOpen_def handleRead_def handleGetattr_def handleSetattr_def handleUStat_def
    handleReaddir_def handleLcreate_def handleUCreate_def handleLink_def handleReadlink_def handleStatfs_def
    handleFsync_def handleUnlinkat_def handleRenameat_def handleRename_def handleLock_def handleGetlock_def
  by (intro handler_rules open_keeps readdir_keeps create_keeps register_keeps; assumption?)+

lemma write_keeps: "keeps (P D) (handleWrite V c fid off data)"
  unfolding handleWrite_def by (intro handler_rules fid_modify; (assumption | simp)?)

lemma xattrcreate_keeps: "keeps (P D) (handleXattrcreate V c fid name sz fl)"
  unfolding handleXattrcreate_def
  by (intro handler_rules fid_modify; (assumption | simp add: to_xattr_write_def)?)

lemma mk_keeps:
  "keeps (P D) (handleMkdir V c fid name mode gid)"
  "keeps (P D) (handleSymlink V c fid name target gid)"
  "keeps (P D) (handleMknod V c fid name mode major minor gid)"
  unfolding handleMkdir_def handleSymlink_def handleMknod_def
  by (rule make_child_keeps, auto intro: calls)+

lemma neutral_keeps: "neutral m \<Longrightarrow> keeps (P D) (dispatch V c m)"
proof -
  assume "neutral m"
  have "\<lbrakk>V' = V; c' = c; neutral m\<rbrakk> \<Longrightarrow> keeps (P D) (dispatch V' c' m)" for V' c'
    by (induction V' c' m rule: dispatch.induct)
      (simp_all add: bridge_keeps write_keeps xattrcreate_keeps mk_keeps keeps_return neutral_def)
  then show ?thesis using \<open>neutral m\<close> by simp
qed

end

locale server_invariant = neutral_invariant V c P
  for V :: "('n, 'h, 'x, 'w) vfs" and c :: "('n, 'h, 'x, 'w) cfg" and P +
  assumes bind_fid: "keeps (P D) (bind_fid V c fid fs)"
    and clunk: "valid (P D) (on_tab (clunk fid))
       (\<lambda>r s. case r of None \<Rightarrow> P D s | Some a \<Rightarrow> P (a # D) s)"
    and drop_ref: "valid (P (a # D)) (drop_ref V a) (\<lambda>_. P D)"
    and clunkAll: "distinct order \<Longrightarrow>
       valid (P D) (on_tab clunkAll) (\<lambda>as s. set order = as \<longrightarrow> P (order @ D) s)"
begin

lemma binding_keeps:
  "keeps (P D) (handleAttach V c fid afid uname aname nuname)"
  "keeps (P D) (handleWalk V c fid newfid names)"
  "keeps (P D) (handleXattrwalk V c fid newfid name)"
  unfolding handleAttach_def handleWalk_def handleXattrwalk_def addXattrReadFid_def
  by (intro handler_rules bind_fid walk_loop_keeps closeResolved_keeps; assumption?)+

lemma clunked_keeps:
  assumes "\<And>a. valid (P (a # D)) (f a) (\<lambda>_. P D)" "keeps (P D) g"
  shows "keeps (P D) (State_Monad.bind (on_tab (clunk fid)) (\<lambda>r. case r of None \<Rightarrow> g | Some a \<Rightarrow> f a))"
  unfolding keeps_valid
  by (rule valid_bind [OF clunk]) (simp add: assms assms(2) [unfolded keeps_valid] split: option.split)

lemma dropped_keeps:
  assumes "\<And>b. keeps (P D) (f b)"
  shows "valid (P (a # D)) (State_Monad.bind (drop_ref V a) f) (\<lambda>_. P D)"
  by (rule valid_bind [OF drop_ref]) (rule assms [unfolded keeps_valid])

lemma clunk_keeps: "keeps (P D) (handleClunk V c fid)"
  unfolding handleClunk_def
  by (intro clunked_keeps dropped_keeps keeps_intro reads_keep commit_keeps io_keeps fid_modify) simp_all

lemma remove_keeps: "keeps (P D) (handleRemove V c fid)"
  unfolding handleRemove_def
proof (rule clunked_keeps)
  fix a
  let ?I = "P (a # D)"
  show "valid ?I (do {
         n \<leftarrow> currentNode a;
         removeErr \<leftarrow> removeViaInodeTree V n;
         lastRef \<leftarrow> drop_ref V a;
         finish_clunk V a lastRef;
         case removeErr of
           Some err \<Rightarrow> fail c (errnoFromError err)
         | None \<Rightarrow> reply (Base Rremove) }) (\<lambda>_. P D)"
    by (intro valid_bind [where P = ?I and R = "\<lambda>_. ?I"] dropped_keeps keeps_intro io_keeps
        reads_keep [unfolded keeps_valid] remove_tree_keeps [unfolded keeps_valid])
qed (rule keeps_return)

text \<open>Every request, and the whole shutdown loop.\<close>

lemma dispatch_keeps: "keeps (P D) (dispatch V c m)"
proof -
  have "\<lbrakk>V' = V; c' = c\<rbrakk> \<Longrightarrow> keeps (P D) (dispatch V' c' m)" for V' c'
    by (induction V' c' m rule: dispatch.induct)
      (simp_all add: binding_keeps clunk_keeps remove_keeps bridge_keeps write_keeps
        xattrcreate_keeps mk_keeps keeps_return)
  then show ?thesis by simp
qed

lemma release_all_keeps: "valid (P (order @ D)) (release_all V drained order) (\<lambda>_. P D)"
proof (induction order)
  case Nil
  then show ?case by (simp add: valid_return)
next
  case (Cons a as)
  show ?case
    unfolding release_all.simps append_Cons
  proof (rule valid_bind [OF drop_ref])
    show "valid (P (as @ D)) (State_Monad.bind (if drained then releaseNow V a b else ret ())
        (\<lambda>_. release_all V drained as)) (\<lambda>_. P D)" for b
      using release_keeps(4) keeps_return
      by (intro valid_bind [where R = "\<lambda>_. P (as @ D)"] Cons.IH) (auto simp flip: keeps_valid)
  qed
qed

lemma cleanup_keeps:
  assumes "distinct order" "set order = fst (clunkAll (s_tab s))" "P D s"
  shows "P D (snd (run_state (cleanup_fids V drained order) s))"
proof -
  obtain as s1 where r: "run_state (on_tab clunkAll) s = (as, s1)" by fastforce
  have "P (order @ D) s1"
    using validD [OF clunkAll [OF assms(1)] assms(3) r] r assms(2) by (auto simp: on_tab_def clunkAll_def)
  then show ?thesis
    using release_all_keeps [of order D drained] r
    by (cases "run_state (release_all V drained order) s1") (auto simp: cleanup_fids_def dest: validD)
qed

end

end
