(* ===== verification/ServerRefs.thy ===== *)
theory ServerRefs
  imports ServerInv
begin

text \<open>
  Reference counting: the count of an inode is the number of fids bound to a node
  that embeds it, at every point between requests and whenever the server calls
  into the file system. This is an instance of \<^verbatim>\<open>server_invariant\<close>; so are the fid
  limit and the distinctness of names.
\<close>

section \<open>The invariant\<close>

definition users :: "('n, 'h, 'x, 'w) vfs \<Rightarrow> nat list \<Rightarrow> ('n, 'h, 'x) fidTable \<Rightarrow> nat \<Rightarrow> nat set" where
  "users V D t i = {a \<in> ran (fids t) \<union> set D. v_EmbeddedInode V (fs_node (deref t a)) = Some i}"

definition refs_ok :: "('n, 'h, 'x, 'w) vfs \<Rightarrow> nat list \<Rightarrow> ('n, 'h, 'x, 'w) srv \<Rightarrow> bool" where
  "refs_ok V D s \<longleftrightarrow> ft_ok (s_tab s) \<and> distinct D \<and> set D \<inter> ran (fids (s_tab s)) = {}
     \<and> set D \<subseteq> {..<length (store (s_tab s))}
     \<and> (\<forall>i. i_refs (s_inodes s i) = of_nat (card (users V D (s_tab s) i)))"

lemma finite_ran_fids [simp]: "finite (ran (fids t))"
  by (rule finite_ran) simp

lemma finite_users [simp]: "finite (users V D t i)"
  by (simp add: users_def)

lemma refs_okD:
  assumes "refs_ok V D s"
  shows "ft_ok (s_tab s)" "distinct D" "set D \<inter> ran (fids (s_tab s)) = {}"
    "a \<in> ran (fids (s_tab s)) \<union> set D \<Longrightarrow> a < length (store (s_tab s))"
    "i_refs (s_inodes s i) = of_nat (card (users V D (s_tab s) i))"
  using assms ft_ok_addr by (auto simp: refs_ok_def ran_def)

lemma refs_okI:
  assumes "ft_ok (s_tab s)" "distinct D" "set D \<inter> ran (fids (s_tab s)) = {}"
    and "set D \<subseteq> {..<length (store (s_tab s))}"
    and "\<And>i. i_refs (s_inodes s i) = of_nat (card (users V D (s_tab s) i))"
  shows "refs_ok V D s"
  using assms by (simp add: refs_ok_def)

text \<open>States with the same table domain, the same nodes and the same counts.\<close>

lemma refs_ok_cong:
  assumes "refs_ok V D s" "fids (s_tab s') = fids (s_tab s)"
    and "length (store (s_tab s)) \<le> length (store (s_tab s'))"
    and "\<And>a. a < length (store (s_tab s)) \<Longrightarrow> fs_node (deref (s_tab s') a) = fs_node (deref (s_tab s) a)"
    and "\<And>i. i_refs (s_inodes s' i) = i_refs (s_inodes s i)"
  shows "refs_ok V D s'"
proof (rule refs_okI)
  show "ft_ok (s_tab s')" using assms(2,3) refs_okD(1) [OF assms(1)] by (auto intro: ft_ok_fids)
  have "users V D (s_tab s') i = users V D (s_tab s) i" for i
    using assms(4) refs_okD(4) [OF assms(1)] unfolding users_def assms(2) by auto
  then show "i_refs (s_inodes s' i) = of_nat (card (users V D (s_tab s') i))" for i
    using assms(5) refs_okD(5) [OF assms(1)] by simp
qed (use assms(1,2,3) in \<open>auto simp: refs_ok_def\<close>)

section \<open>The laws\<close>

lemma refs_run_incRef [simp]:
  "run_state (incRefNode V n) s = ((), s\<lparr>s_inodes := (case v_EmbeddedInode V n of
      None \<Rightarrow> s_inodes s | Some i \<Rightarrow> incRef i (s_inodes s))\<rparr>)"
  by (simp add: incRefNode_def on_inodes_def split: option.split)

lemma run_decRef:
  "run_state (decRefNode V n) s = (case v_EmbeddedInode V n of
      None \<Rightarrow> (True, s) | Some i \<Rightarrow> (fst (decRef i (s_inodes s)), s\<lparr>s_inodes := snd (decRef i (s_inodes s))\<rparr>))"
  by (simp add: decRefNode_def on_inodes_def split: option.split prod.split)

lemma decRefNode_state:
  assumes "run_state (decRefNode V n) s = (b, s')"
  shows "s_tab s' = s_tab s"
    "i_refs (s_inodes s' i) = i_refs (s_inodes s i) - (if v_EmbeddedInode V n = Some i then 1 else 0)"
  using assms by (auto simp: run_decRef split: option.splits)

lemma refs_modify:
  assumes "\<And>s. fids (s_tab (f s)) = fids (s_tab s)" "\<And>s. length (store (s_tab (f s))) = length (store (s_tab s))"
    and "\<And>s a. a < length (store (s_tab s)) \<Longrightarrow> fs_node (deref (s_tab (f s)) a) = fs_node (deref (s_tab s) a)"
    and "\<And>s i. i_refs (s_inodes (f s) i) = i_refs (s_inodes s i)"
    and "\<And>s. snd (run_state m s) = f s"
  shows "keeps (refs_ok V D) m"
  by (rule keepsI, rule refs_ok_cong) (simp_all add: assms)

lemma deref_assign': "fs_node (deref (assign a fs t) b)
    = (if b = a \<and> a < length (store t) then fs_node fs else fs_node (deref t b))"
  by (cases "a < length (store t)") (auto simp: deref_def assign_def nth_list_update list_update_beyond)

lemma refs_fid_modify:
  assumes "\<And>fs. fs_node (k fs) = fs_node fs"
  shows "keeps (refs_ok V D) (fid_modify a k)"
  by (rule refs_modify [where f = "\<lambda>s. s\<lparr>s_tab := assign a (k (deref (s_tab s) a)) (s_tab s)\<rparr>"])
    (simp_all add: fid_modify_def deref_assign' assms)

lemma refs_on_fid:
  assumes "\<And>fs. fs_node (snd (g fs)) = fs_node fs"
  shows "keeps (refs_ok V D) (on_fid a g)"
  by (rule refs_modify [where f = "\<lambda>s. s\<lparr>s_tab := assign a (snd (g (deref (s_tab s) a))) (s_tab s)\<rparr>"])
    (simp_all add: on_fid_def on_tab_def deref_assign' assms split: prod.split)

lemma refs_mark: "keeps (refs_ok V D) (on_tab (markOpenedWithHandle fid h))"
  by (rule refs_modify [where f = "\<lambda>s. s\<lparr>s_tab := snd (markOpenedWithHandle fid h (s_tab s))\<rparr>"])
    (auto simp: on_tab_def markOpenedWithHandle_def deref_assign' Let_def split: option.split prod.split)

lemma refs_tree:
  "keeps (refs_ok V D) (on_inodes (\<lambda>H. ((), RemoveChild p name H)))"
  "keeps (refs_ok V D) (add_child p name i)"
  "keeps (refs_ok V D) (note_closing e)"
proof -
  show "keeps (refs_ok V D) (on_inodes (\<lambda>H. ((), RemoveChild p name H)))"
    by (rule refs_modify [where f = "\<lambda>s. s\<lparr>s_inodes := RemoveChild p name (s_inodes s)\<rparr>"])
      (simp_all add: on_inodes_def)
  show "keeps (refs_ok V D) (add_child p name i)"
    by (rule refs_modify [where f = "\<lambda>s. case AddChild p name i (s_inodes s) of None \<Rightarrow> s | Some H \<Rightarrow> s\<lparr>s_inodes := H\<rparr>"])
      (auto simp: add_child_def on_inodes_def refs_AddChild split: option.split)
  show "keeps (refs_ok V D) (note_closing e)"
    by (rule refs_modify [where f = "\<lambda>s. s\<lparr>s_closed := s_closed s @ [e]\<rparr>"]) (simp_all add: note_closing_def)
qed

text \<open>Binding a fresh fid state.\<close>

lemma refs_bind_fid: "keeps (refs_ok V D) (bind_fid V c fid fs)"
proof (rule keepsI)
  fix s assume ok: "refs_ok V D s"
  let ?t = "s_tab s" and ?a = "length (store (s_tab s))"
  let ?t1 = "?t\<lparr>store := store ?t @ [fs]\<rparr>"
  have old: "deref ?t1 b = deref ?t b" if "b < ?a" for b
    using that by (simp add: deref_def nth_append)
  have new: "deref ?t1 ?a = fs" by (simp add: deref_def)
  obtain e t2 where add: "add fid ?a (c_maxFids c) ?t1 = (e, t2)" by fastforce
  have run: "snd (run_state (bind_fid V c fid fs) s)
      = (if e = None then snd (run_state (incRefNode V (fs_node fs)) (s\<lparr>s_tab := t2\<rparr>)) else s\<lparr>s_tab := t2\<rparr>)"
    using add by (simp add: bind_fid_def on_tab_def alloc_def split: option.split fid_error.split)
  show "refs_ok V D (snd (run_state (bind_fid V c fid fs) s))"
  proof (cases e)
    case (Some err)
    then have "t2 = ?t1" using add by (auto simp: add_def split: if_splits)
    then show ?thesis
      using Some run old by (auto intro: refs_ok_cong [OF ok])
  next
    case None
    then have t2: "t2 = ?t1\<lparr>fids := (fids ?t)(fid \<mapsto> ?a)\<rparr>" and fresh: "fids ?t fid = None"
      using add by (auto simp: add_def split: if_splits)
    have d2: "deref t2 = deref ?t1" by (simp add: t2 deref_def fun_eq_iff)
    have notin: "?a \<notin> ran (fids ?t) \<union> set D" using refs_okD(4) [OF ok] by blast
    have ran: "ran (fids t2) = insert ?a (ran (fids ?t))" using fresh by (simp add: t2)
    have users: "users V D t2 i = (if v_EmbeddedInode V (fs_node fs) = Some i then {?a} else {}) \<union> users V D ?t i" for i
      using refs_okD(4) [OF ok] notin by (auto simp: users_def ran d2 old new)
    have "?a \<notin> users V D ?t i" for i using notin by (auto simp: users_def)
    then have card: "of_nat (card (users V D t2 i)) = (of_nat (card (users V D ?t i)) :: 32 word)
        + (if v_EmbeddedInode V (fs_node fs) = Some i then 1 else 0)" for i
      by (simp add: users)
    show ?thesis
    proof (rule refs_okI)
      show "ft_ok (s_tab (snd (run_state (bind_fid V c fid fs) s)))"
        using alloc_add_ok [OF refs_okD(1) [OF ok] _ add] by (simp add: run None alloc_def)
    qed (use ok notin ran card refs_okD(5) [OF ok] in
        \<open>auto simp: run None refs_ok_def t2 split: option.split\<close>)
  qed
qed

text \<open>Swapping the node of a bound fid and moving its reference.\<close>

lemma refs_transfer:
  assumes ok: "refs_ok V D s" and f: "fids (s_tab s) fid = Some a" and n: "fs_node fs = n"
    and p: "p = fs_node (deref (s_tab s) a)"
  shows "refs_ok V D (snd (run_state (transfer_ref V n (Some p)) (s\<lparr>s_tab := assign a fs (s_tab s)\<rparr>)))"
proof -
  let ?t = "s_tab s" and ?t' = "assign a fs (s_tab s)"
  let ?in = "\<lambda>m i. v_EmbeddedInode V m = Some i"
  have a: "a \<in> ran (fids ?t)" "a < length (store ?t)"
    using f refs_okD(4) [OF ok, of a] by (auto intro: ranI)
  have users: "users V D ?t' i = (users V D ?t i - {a}) \<union> (if ?in n i then {a} else {})" for i
    using a by (auto simp: users_def deref_assign n)
  have mem: "a \<in> users V D ?t i \<longleftrightarrow> ?in p i" for i
    using a by (auto simp: users_def p)
  have "card (users V D ?t' i) + (if ?in p i then 1 else 0) = card (users V D ?t i) + (if ?in n i then 1 else 0)" for i
    using mem [of i] card_Suc_Diff1 [of "users V D ?t i" a]
    by (auto simp: users insert_absorb)
  then have eq: "of_nat (card (users V D ?t' i) + (if ?in p i then 1 else 0))
      = (of_nat (card (users V D ?t i) + (if ?in n i then 1 else 0)) :: 32 word)" for i by simp
  have card: "(of_nat (card (users V D ?t' i)) :: 32 word)
      = of_nat (card (users V D ?t i)) + (if ?in n i then 1 else 0) - (if ?in p i then 1 else 0)" for i
    using eq [of i] by (auto simp: algebra_simps split: if_splits)
  define s' where "s' = snd (run_state (transfer_ref V n (Some p)) (s\<lparr>s_tab := ?t'\<rparr>))"
  have "s_tab s' = ?t'"
    and "i_refs (s_inodes s' i) = i_refs (s_inodes s i) + (if ?in n i then 1 else 0) - (if ?in p i then 1 else 0)" for i
    by (auto simp: s'_def transfer_ref_def run_decRef split: option.splits prod.splits)
  then show ?thesis
    unfolding s'_def [symmetric]
    using ok by (auto simp: refs_ok_def card)
qed

lemma refs_rebind:
  "keeps (refs_ok V D) (rebind_walk V fid n p)" "keeps (refs_ok V D) (rebind_create V fid n h)"
proof (rule_tac [!] keepsI)
  fix s assume ok: "refs_ok V D s"
  have none: "refs_ok V D (snd (run_state (transfer_ref V n None) s))"
    using ok by (simp add: transfer_ref_def)
  show "refs_ok V D (snd (run_state (rebind_walk V fid n p) s))"
    using none refs_transfer [OF ok]
    by (auto simp: rebind_walk_def on_tab_def ft_update_def Let_def split: option.split)
  show "refs_ok V D (snd (run_state (rebind_create V fid n h) s))"
    using none refs_transfer [OF ok]
    by (auto simp: rebind_create_def on_tab_def updateAndOpen_def Let_def split: option.split)
qed

text \<open>Leaving the table moves an address from the table to \<^verbatim>\<open>D\<close>; giving up the
  reference takes it out of \<^verbatim>\<open>D\<close>.\<close>

lemma refs_clunk:
  "valid (refs_ok V D) (on_tab (clunk fid))
     (\<lambda>r s. case r of None \<Rightarrow> refs_ok V D s | Some a \<Rightarrow> refs_ok V (a # D) s)"
proof (rule validI)
  fix s r s' assume ok: "refs_ok V D s" and run: "run_state (on_tab (clunk fid)) s = (r, s')"
  show "case r of None \<Rightarrow> refs_ok V D s' | Some a \<Rightarrow> refs_ok V (a # D) s'"
  proof (cases "fids (s_tab s) fid")
    case None
    then show ?thesis using run ok by (auto simp: on_tab_def clunk_def)
  next
    case (Some a)
    let ?t = "s_tab s" and ?t' = "(s_tab s)\<lparr>fids := (fids (s_tab s))(fid := None)\<rparr>"
    have r: "r = Some a" "s' = s\<lparr>s_tab := ?t'\<rparr>" using run Some by (auto simp: on_tab_def clunk_def)
    have a: "a \<in> ran (fids ?t)" "a < length (store ?t)"
      using Some refs_okD(4) [OF ok, of a] by (auto intro: ranI)
    have un: "a \<notin> ran (fids ?t')" "ft_ok ?t'"
      using clunk_unreachable [OF refs_okD(1) [OF ok], of fid a ?t'] Some by (auto simp: clunk_def)
    have "ran (fids ?t) \<subseteq> insert a (ran (fids ?t'))"
      using Some by (auto simp: ran_def split: if_splits) (metis option.inject)
    moreover have "ran (fids ?t') \<subseteq> ran (fids ?t)" by (auto simp: ran_def)
    ultimately have ran: "ran (fids ?t') \<union> set (a # D) = ran (fids ?t) \<union> set D" using a(1) by auto
    have "users V (a # D) ?t' i = users V D ?t i" for i
      using ran by (simp add: users_def deref_def)
    then show ?thesis
      using ok a un \<open>ran (fids ?t') \<subseteq> ran (fids ?t)\<close> by (auto simp: r refs_ok_def)
  qed
qed

lemma refs_drop: "valid (refs_ok V (a # D)) (drop_ref V a) (\<lambda>_. refs_ok V D)"
proof (rule validI)
  fix s b s' assume ok: "refs_ok V (a # D) s" and run: "run_state (drop_ref V a) s = (b, s')"
  let ?t = "s_tab s" and ?n = "fs_node (deref (s_tab s) a)"
  have dec: "run_state (decRefNode V ?n) s = (b, s')"
    using run by (simp add: drop_ref_def currentNode_def)
  have a: "a \<notin> ran (fids ?t) \<union> set D" using refs_okD(2,3) [OF ok] by auto
  have users: "users V D ?t i = users V (a # D) ?t i - {a}" for i
    using a by (auto simp: users_def)
  have mem: "a \<in> users V (a # D) ?t i \<longleftrightarrow> v_EmbeddedInode V ?n = Some i" for i
    by (auto simp: users_def)
  have "of_nat (card (users V D ?t i)) = (of_nat (card (users V (a # D) ?t i)) :: 32 word)
      - (if v_EmbeddedInode V ?n = Some i then 1 else 0)" for i
  proof (cases "a \<in> users V (a # D) ?t i")
    case True
    then have "card (users V (a # D) ?t i) = Suc (card (users V D ?t i))"
      using card_Suc_Diff1 [of "users V (a # D) ?t i" a] by (simp add: users)
    then show ?thesis using True mem [of i] by simp
  qed (use mem [of i] in \<open>simp add: users\<close>)
  then show "refs_ok V D s'"
    using ok decRefNode_state [OF dec] by (auto simp: refs_ok_def)
qed

lemma refs_clunkAll:
  assumes "distinct order"
  shows "valid (refs_ok V D) (on_tab clunkAll) (\<lambda>as s. set order = as \<longrightarrow> refs_ok V (order @ D) s)"
proof (rule validI, rule impI)
  fix s as s' assume ok: "refs_ok V D s" and run: "run_state (on_tab clunkAll) s = (as, s')"
    and "set order = as"
  then have r: "set order = ran (fids (s_tab s))" "s' = s\<lparr>s_tab := (s_tab s)\<lparr>fids := Map.empty\<rparr>\<rparr>"
    by (auto simp: on_tab_def clunkAll_def)
  have "users V (order @ D) (s_tab s') i = users V D (s_tab s) i" for i
    by (auto simp: users_def r deref_def)
  then show "refs_ok V (order @ D) s'"
    using ok assms refs_okD(4) [OF ok] by (auto simp: refs_ok_def r ft_ok_def)
qed

section \<open>Instances\<close>

locale refs_vfs = vfs_contract V c "refs_ok V"
  for V :: "('n, 'h, 'x, 'w) vfs" and c :: "('n, 'h, 'x, 'w) cfg"

sublocale refs_vfs \<subseteq> refs: server_invariant V c "refs_ok V"
proof (unfold_locales, goal_cases)
  case (4 g D a)
  then show ?case by (rule refs_on_fid)
next
  case (5 D a)
  show ?case unfolding begin_io_def by (rule refs_on_fid) (simp add: beginIO_def)
next
  case (6 k D a)
  then show ?case by (rule refs_fid_modify)
next
  case (13 order D)
  then show ?case by (rule refs_clunkAll)
qed (rule refs_bind_fid refs_rebind refs_mark refs_tree refs_clunk refs_drop)+

text \<open>The fid limit.\<close>

definition limit_ok :: "('n, 'h, 'x, 'w) cfg \<Rightarrow> nat list \<Rightarrow> ('n, 'h, 'x, 'w) srv \<Rightarrow> bool" where
  "limit_ok c D s \<longleftrightarrow> (0 < c_maxFids c \<longrightarrow> int (ft_len (s_tab s)) \<le> c_maxFids c)"

lemma limit_mono: "limit_ok c D s \<Longrightarrow> dom (fids (s_tab s')) \<subseteq> dom (fids (s_tab s)) \<Longrightarrow> limit_ok c D' s'"
  by (auto simp: limit_ok_def ft_len_def dest!: card_mono [rotated])

lemma limit_keeps: "(\<And>s. fids (s_tab (snd (run_state m s))) = fids (s_tab s)) \<Longrightarrow> keeps (limit_ok c D) m"
  by (rule keepsI, erule limit_mono) simp

lemma decRefNode_tab: "s_tab (snd (run_state (decRefNode V n) s)) = s_tab s"
  by (simp add: run_decRef split: option.split)

lemma transfer_ref_tab: "s_tab (snd (run_state (transfer_ref V n p) s)) = s_tab s"
  by (simp add: transfer_ref_def run_decRef split: option.split prod.split)

text \<open>The transactions that leave the table of fid numbers alone.\<close>

lemma transactions_fids:
  "fids (s_tab (snd (run_state (rebind_walk V fid n p) s))) = fids (s_tab s)"
  "fids (s_tab (snd (run_state (rebind_create V fid n h) s))) = fids (s_tab s)"
  "fids (s_tab (snd (run_state (on_tab (markOpenedWithHandle fid h)) s))) = fids (s_tab s)"
  "fids (s_tab (snd (run_state (on_fid a g) s))) = fids (s_tab s)"
  "fids (s_tab (snd (run_state (begin_io a) s))) = fids (s_tab s)"
  "fids (s_tab (snd (run_state (fid_modify a k) s))) = fids (s_tab s)"
  "fids (s_tab (snd (run_state (on_inodes f) s))) = fids (s_tab s)"
  "fids (s_tab (snd (run_state (add_child p' name i) s))) = fids (s_tab s)"
  "fids (s_tab (snd (run_state (note_closing e) s))) = fids (s_tab s)"
  by (auto simp: rebind_walk_def rebind_create_def on_tab_def ft_update_def updateAndOpen_def transfer_ref_tab
      markOpenedWithHandle_def on_fid_def begin_io_def fid_modify_def on_inodes_def add_child_def note_closing_def
      Let_def split: option.split prod.split)

lemma limit_bind_fid: "keeps (limit_ok c D) (bind_fid V c fid fs)"
proof (rule keepsI)
  fix s :: "('a, 'b, 'c, 'd) srv" assume ok: "limit_ok c D s"
  let ?t1 = "(s_tab s)\<lparr>store := store (s_tab s) @ [fs]\<rparr>"
  obtain e t2 where add: "add fid (length (store (s_tab s))) (c_maxFids c) ?t1 = (e, t2)" by fastforce
  have "0 < c_maxFids c \<longrightarrow> int (ft_len t2) \<le> c_maxFids c"
    using ok add by (auto simp: limit_ok_def add_def ft_len_def domIff split: if_splits)
  then show "limit_ok c D (snd (run_state (bind_fid V c fid fs) s))"
    using add by (simp add: bind_fid_def on_tab_def alloc_def limit_ok_def split: option.split fid_error.split)
qed

locale limit_vfs = vfs_contract V c "limit_ok c"
  for V :: "('n, 'h, 'x, 'w) vfs" and c :: "('n, 'h, 'x, 'w) cfg"

sublocale limit_vfs \<subseteq> limit: server_invariant V c "limit_ok c"
proof (unfold_locales, goal_cases)
  case (11 D fid)
  show ?case
  proof (rule validI)
    fix s r s' assume ok: "limit_ok c D s" and run: "run_state (on_tab (clunk fid)) s = (r, s')"
    have "limit_ok c D' s'" for D'
      by (rule limit_mono [OF ok]) (use run in \<open>auto simp: on_tab_def clunk_def split: option.splits if_splits\<close>)
    then show "case r of None \<Rightarrow> limit_ok c D s' | Some a \<Rightarrow> limit_ok c (a # D) s'"
      by (simp split: option.split)
  qed
next
  case (12 a D)
  show ?case
    by (rule validI, erule limit_mono) (auto simp: drop_ref_def currentNode_def dest!: decRefNode_state(1))
next
  case (13 order D)
  show ?case
    by (rule validI, rule impI, erule limit_mono) (auto simp: on_tab_def clunkAll_def)
qed (rule limit_bind_fid limit_keeps transactions_fids)+

end
