(* ===== verification/MemFS.thy ===== *)
theory MemFS
  imports ServerRefs
begin

text \<open>
  The in-memory file system (\<^verbatim>\<open>src/server/memfs/memfs.go\<close>, \<^verbatim>\<open>builder.go\<close>) with the helper
  nodes of \<^verbatim>\<open>src/server/helpers.go\<close>, the QID generator (\<^verbatim>\<open>src/server/qid.go\<close>) and the defaults every node inherits from
  \<^verbatim>\<open>Inode\<close> (\<^verbatim>\<open>src/server/inode.go\<close>). It is a file system of the repository that
  satisfies the contract the server relies on; every node embeds an inode and is
  identified with the inode's address.
\<close>

section \<open>File contents\<close>

definition maxMemFileSize :: nat where "maxMemFileSize = MaxDataSize"

definition checkedSize :: "u64 \<Rightarrow> nat \<Rightarrow> go_error + nat" where
  "checkedSize offset count =
     (if unat offset > maxMemFileSize \<or> count > maxMemFileSize - unat offset then Inl (ProtoErrno EFBIG)
      else Inr (unat offset + count))"

text \<open>\<^verbatim>\<open>copy(buf, data[offset:end])\<close> with \<^verbatim>\<open>end = min(offset+len(buf), size)\<close>: the bytes
  copied.\<close>

definition read_at :: "bytes \<Rightarrow> nat \<Rightarrow> u64 \<Rightarrow> bytes" where
  "read_at data len offset =
     (if unat offset \<ge> length data then []
      else take (min (unat offset + len) (length data) - unat offset) (drop (unat offset) data))"

text \<open>Growing to \<^verbatim>\<open>size\<close> bytes: \<^verbatim>\<open>make\<close> and \<^verbatim>\<open>copy\<close>, the new bytes are zero.\<close>

definition grow :: "bytes \<Rightarrow> nat \<Rightarrow> bytes" where
  "grow data sz = data @ replicate (sz - length data) 0"

definition write_at :: "bytes \<Rightarrow> bytes \<Rightarrow> u64 \<Rightarrow> go_error + bytes" where
  "write_at old data offset = (case checkedSize offset (length data) of
       Inl e \<Rightarrow> Inl e
     | Inr stop \<Rightarrow> let base = (if stop > length old then grow old stop else old)
         in Inr (take (unat offset) base @ data @ drop (unat offset + length data) base))"

definition truncate_to :: "bytes \<Rightarrow> nat \<Rightarrow> bytes" where
  "truncate_to data sz = (if sz < length data then take sz data
     else if sz > length data then grow data sz else data)"

section \<open>Nodes\<close>

datatype memnode =
    MemFile bytes u32 u32 u32
  | MemDir u32 u32 u32
  | StaticFile bytes u32
  | Symlink gostring
  | Device u32 u32
  | StaticFS FSStat

text \<open>The world: the objects by address, the first address not allocated yet, and
  the counter of the QID generator all nodes share.\<close>

record memfs =
  mf_nodes :: "nat \<Rightarrow> memnode"
  mf_fresh :: nat
  mf_gen :: u64

type_synonym mem_srv = "(nat, unit, unit, memfs) srv"
type_synonym 'a mem_call = "(nat, unit, unit, memfs, 'a) call"

definition Next :: "u8 \<Rightarrow> u64 \<Rightarrow> QID \<times> u64" where
  "Next t g = (\<lparr>QID_Type = t, QID_Version = 0, QID_Path = g + 1\<rparr>, g + 1)"

abbreviation enosys :: "'a mem_call" where
  "enosys \<equiv> ret (Inl (ProtoErrno ENOSYS))"

definition node_at :: "nat \<Rightarrow> mem_srv \<Rightarrow> memnode" where
  "node_at n s = mf_nodes (s_world s) n"

definition set_node :: "nat \<Rightarrow> memnode \<Rightarrow> mem_srv \<Rightarrow> mem_srv" where
  "set_node n x s = s\<lparr>s_world := (s_world s)\<lparr>mf_nodes := (mf_nodes (s_world s))(n := x)\<rparr>\<rparr>"

definition mem_Read :: "nat \<Rightarrow> (nat, unit, unit, memfs) reads" where
  "mem_Read n cnt off = do {
     x \<leftarrow> gets (node_at n);
     case x of
       MemFile data _ _ _ \<Rightarrow> (let b = read_at data (unat cnt) off in ret (Inr (int (length b), (\<lambda>i. b ! i))))
     | StaticFile content _ \<Rightarrow> (let b = read_at content (unat cnt) off in ret (Inr (int (length b), (\<lambda>i. b ! i))))
     | _ \<Rightarrow> enosys }"

definition mem_Write :: "nat \<Rightarrow> (nat, unit, unit, memfs) writes" where
  "mem_Write n data off = do {
     x \<leftarrow> gets (node_at n);
     case x of
       MemFile old mode uid gid \<Rightarrow> (case write_at old data off of
           Inl e \<Rightarrow> ret (Inl e)
         | Inr new \<Rightarrow> do {
             modify (set_node n (MemFile new mode uid gid));
             ret (Inr (of_nat (length data))) })
     | _ \<Rightarrow> enosys }"

definition zero_Attr :: Attr where
  "zero_Attr = \<lparr>Attr_Valid = 0, Attr_QID = \<lparr>QID_Type = 0, QID_Version = 0, QID_Path = 0\<rparr>, Attr_Mode = 0,
     Attr_UID = 0, Attr_GID = 0, Attr_NLink = 0, Attr_RDev = 0, Attr_Size = 0, Attr_BlkSize = 0, Attr_Blocks = 0,
     Attr_ATimeSec = 0, Attr_ATimeNSec = 0, Attr_MTimeSec = 0, Attr_MTimeNSec = 0, Attr_CTimeSec = 0,
     Attr_CTimeNSec = 0, Attr_BTimeSec = 0, Attr_BTimeNSec = 0, Attr_Gen = 0, Attr_DataVersion = 0\<rparr>"

definition sIFDIR :: u32 where "sIFDIR = 0x4000"

definition mem_Getattr :: "nat \<Rightarrow> u64 \<Rightarrow> Attr mem_call" where
  "mem_Getattr n msk = gets (\<lambda>s. case node_at n s of
       MemFile data mode uid gid \<Rightarrow> Inr (zero_Attr\<lparr>Attr_Mode := (if mode = 0 then 0x1A4 else mode), Attr_UID := uid,
         Attr_GID := gid, Attr_Size := of_nat (length data), Attr_NLink := 1\<rparr>)
     | MemDir mode uid gid \<Rightarrow> Inr (zero_Attr\<lparr>Attr_Mode := sIFDIR OR (if mode = 0 then 0x1ED else mode), Attr_UID := uid,
         Attr_GID := gid, Attr_NLink := of_nat (2 + length (Children n (s_inodes s)))\<rparr>)
     | StaticFile content mode \<Rightarrow> Inr (zero_Attr\<lparr>Attr_Mode := (if mode = 0 then 0x124 else mode),
         Attr_Size := of_nat (length content), Attr_NLink := 1\<rparr>)
     | _ \<Rightarrow> Inl (ProtoErrno ENOSYS))"

definition mem_Open :: "nat \<Rightarrow> u32 \<Rightarrow> (unit option \<times> u32) mem_call" where
  "mem_Open n flags = gets (\<lambda>s. case node_at n s of
       MemFile _ _ _ _ \<Rightarrow> Inr (None, 0)
     | MemDir _ _ _ \<Rightarrow> Inr (None, 0)
     | StaticFile _ _ \<Rightarrow> Inr (None, 0)
     | _ \<Rightarrow> Inl (ProtoErrno ENOSYS))"

definition mem_Readlink :: "nat \<Rightarrow> gostring mem_call" where
  "mem_Readlink n = gets (\<lambda>s. case node_at n s of Symlink target \<Rightarrow> Inr target | _ \<Rightarrow> Inl (ProtoErrno ENOSYS))"

definition mem_StatFS :: "nat \<Rightarrow> FSStat mem_call" where
  "mem_StatFS n = gets (\<lambda>s. case node_at n s of StaticFS st \<Rightarrow> Inr st | _ \<Rightarrow> Inl (ProtoErrno ENOSYS))"

definition SetAttrMode :: u32 where "SetAttrMode = 1"
definition SetAttrUID :: u32 where "SetAttrUID = 2"
definition SetAttrGID :: u32 where "SetAttrGID = 4"
definition SetAttrSize :: u32 where "SetAttrSize = 8"

definition setattr_file :: "SetAttr \<Rightarrow> bytes \<Rightarrow> u32 \<Rightarrow> u32 \<Rightarrow> u32 \<Rightarrow> go_error + memnode" where
  "setattr_file attr data mode uid gid =
     (let has = (\<lambda>bit. SetAttr_Valid attr AND bit \<noteq> 0) in
      if has SetAttrSize \<and> unat (SetAttr_Size attr) > maxMemFileSize then Inl (ProtoErrno EFBIG)
      else Inr (MemFile (if has SetAttrSize then truncate_to data (unat (SetAttr_Size attr)) else data)
             (if has SetAttrMode then SetAttr_Mode attr else mode)
             (if has SetAttrUID then SetAttr_UID attr else uid)
             (if has SetAttrGID then SetAttr_GID attr else gid)))"

definition mem_Setattr :: "nat \<Rightarrow> SetAttr \<Rightarrow> unit mem_call" where
  "mem_Setattr n attr = do {
     x \<leftarrow> gets (node_at n);
     case x of
       MemFile data mode uid gid \<Rightarrow> (case setattr_file attr data mode uid gid of
           Inl e \<Rightarrow> ret (Inl e)
         | Inr f \<Rightarrow> do { modify (set_node n f); ret (Inr ()) })
     | _ \<Rightarrow> enosys }"

definition mem_Readdir :: "nat \<Rightarrow> Dirent list mem_call" where
  "mem_Readdir n = do {
     x \<leftarrow> gets (node_at n);
     case x of
       MemDir _ _ _ \<Rightarrow> gets (\<lambda>s. Inr (map (\<lambda>(i, name, child). let qid = i_qid (s_inodes s child) in
           \<lparr>Dirent_QID = qid, Dirent_Offset = of_nat (i + 1), Dirent_Type = QIDTypeToDT (QID_Type qid),
            Dirent_Name = name\<rparr>) (List.enumerate 0 (Children n (s_inodes s)))))
     | _ \<Rightarrow> enosys }"

text \<open>A new node: allocation, \<^verbatim>\<open>Init\<close> with the next QID, and \<^verbatim>\<open>TryAddChild\<close>. The new
  inode is never the directory itself, so the lock is free.\<close>

definition alloc_node :: "u8 \<Rightarrow> memnode \<Rightarrow> (nat, unit, unit, memfs, nat) act" where
  "alloc_node t x = State (\<lambda>s. let w = s_world s; n = mf_fresh w; (qid, g) = Next t (mf_gen w) in
     (n, s\<lparr>s_inodes := Init n qid n (s_inodes s),
           s_world := w\<lparr>mf_nodes := (mf_nodes w)(n := x), mf_fresh := n + 1, mf_gen := g\<rparr>\<rparr>))"

definition try_add :: "nat \<Rightarrow> gostring \<Rightarrow> nat \<Rightarrow> (nat, unit, unit, memfs, bool) act" where
  "try_add d name child = on_inodes (\<lambda>H. case TryAddChild d name child H of
       None \<Rightarrow> (False, H) | Some (ok, H') \<Rightarrow> (ok, H'))"

definition new_child :: "nat \<Rightarrow> gostring \<Rightarrow> u8 \<Rightarrow> memnode \<Rightarrow> nat mem_call" where
  "new_child d name t x = do {
     child \<leftarrow> alloc_node t x;
     ok \<leftarrow> try_add d name child;
     ret (if ok then Inr child else Inl (ProtoErrno EEXIST)) }"

definition mem_Create :: "nat \<Rightarrow> gostring \<Rightarrow> u32 \<Rightarrow> u32 \<Rightarrow> u32 \<Rightarrow> (nat \<times> unit option \<times> u32) mem_call" where
  "mem_Create d name flags mode gid = do {
     x \<leftarrow> gets (node_at d);
     case x of
       MemDir _ _ _ \<Rightarrow> do {
         r \<leftarrow> new_child d name 0 (MemFile [] mode 0 0);
         ret (case r of Inl e \<Rightarrow> Inl e | Inr child \<Rightarrow> Inr (child, None, 0)) }
     | _ \<Rightarrow> enosys }"

definition mem_Mkdir :: "nat \<Rightarrow> gostring \<Rightarrow> u32 \<Rightarrow> u32 \<Rightarrow> nat mem_call" where
  "mem_Mkdir d name mode gid = do {
     x \<leftarrow> gets (node_at d);
     case x of
       MemDir _ _ _ \<Rightarrow> new_child d name QTDIR (MemDir mode 0 0)
     | _ \<Rightarrow> enosys }"

definition unlink_check :: "u32 \<Rightarrow> 'n inodes \<Rightarrow> nat \<Rightarrow> nat \<Rightarrow> go_error option" where
  "unlink_check flags H child childCount =
     (let isDir = (QID_Type (i_qid (H child)) = QTDIR) in
      if flags = 0x200 then
        (if \<not> isDir then Some (ProtoErrno ENOTDIR)
         else if childCount \<noteq> 0 then Some (ProtoErrno ENOTEMPTY) else None)
      else if isDir then Some (ProtoErrno EISDIR) else None)"

definition mem_Unlink :: "nat \<Rightarrow> gostring \<Rightarrow> u32 \<Rightarrow> unit mem_call" where
  "mem_Unlink d name flags = do {
     x \<leftarrow> gets (node_at d);
     case x of
       MemDir _ _ _ \<Rightarrow>
         if flags \<noteq> 0 \<and> flags \<noteq> 0x200 then ret (Inl (ProtoErrno EINVAL))
         else on_inodes (\<lambda>H. case RemoveChildIf d name (unlink_check flags H) H of
             None \<Rightarrow> (Inl OtherError, H)
           | Some (Some e, H') \<Rightarrow> (Inl e, H')
           | Some (None, H') \<Rightarrow> (Inr (), H'))
     | _ \<Rightarrow> enosys }"

section \<open>Building a tree\<close>

definition NewDir :: "(nat, unit, unit, memfs, nat) act" where
  "NewDir = alloc_node QTDIR (MemDir 0 0 0)"

definition SymlinkTo :: "gostring \<Rightarrow> (nat, unit, unit, memfs, nat) act" where
  "SymlinkTo target = alloc_node QTSYMLINK (Symlink target)"

definition DeviceNode :: "u32 \<Rightarrow> u32 \<Rightarrow> (nat, unit, unit, memfs, nat) act" where
  "DeviceNode major minor = alloc_node 0 (Device major minor)"

definition StaticStatFS :: "FSStat \<Rightarrow> (nat, unit, unit, memfs, nat) act" where
  "StaticStatFS st = alloc_node 0 (StaticFS st)"

definition AddFileWithMode :: "nat \<Rightarrow> gostring \<Rightarrow> bytes \<Rightarrow> u32 \<Rightarrow> (nat, unit, unit, memfs, bool) act" where
  "AddFileWithMode d name data mode = do {
     child \<leftarrow> alloc_node 0 (MemFile data mode 0 0);
     add_child d name child }"

definition AddFile :: "nat \<Rightarrow> gostring \<Rightarrow> bytes \<Rightarrow> (nat, unit, unit, memfs, bool) act" where
  "AddFile d name data = AddFileWithMode d name data 0x1A4"

definition AddStaticFile :: "nat \<Rightarrow> gostring \<Rightarrow> bytes \<Rightarrow> (nat, unit, unit, memfs, bool) act" where
  "AddStaticFile d name content = do {
     child \<leftarrow> alloc_node 0 (StaticFile content 0x124);
     add_child d name child }"

definition AddDir :: "nat \<Rightarrow> gostring \<Rightarrow> (nat, unit, unit, memfs, bool) act" where
  "AddDir d name = do {
     child \<leftarrow> alloc_node QTDIR (MemDir 0 0 0);
     add_child d name child }"

definition AddSymlink :: "nat \<Rightarrow> gostring \<Rightarrow> gostring \<Rightarrow> (nat, unit, unit, memfs, bool) act" where
  "AddSymlink d name target = do {
     child \<leftarrow> SymlinkTo target;
     add_child d name child }"

section \<open>The capabilities\<close>

text \<open>The capabilities: \<^verbatim>\<open>Inode\<close> implements every simple interface, so a type
  assertion to one of them always succeeds; handles are nil.\<close>

definition memfs_vfs :: "(nat, unit, unit, memfs) vfs" where
  "memfs_vfs = (bare_vfs (\<lambda>_. \<lparr>QID_Type = 0, QID_Version = 0, QID_Path = 0\<rparr>))
     \<lparr>v_QID := (\<lambda>n s. i_qid (s_inodes s n)),
      v_EmbeddedInode := Some,
      n_Lookup := (\<lambda>n. Some (\<lambda>name. gets (\<lambda>s. Inode_Lookup n name (s_inodes s)))),
      n_Open := (\<lambda>n. Some (mem_Open n)),
      n_Read := (\<lambda>n. Some (mem_Read n)),
      n_Write := (\<lambda>n. Some (mem_Write n)),
      n_Getattr := (\<lambda>n. Some (mem_Getattr n)),
      n_Setattr := (\<lambda>n. Some (mem_Setattr n)),
      n_Readdir := (\<lambda>n. Some (mem_Readdir n)),
      n_Create := (\<lambda>n. Some (mem_Create n)),
      n_Mkdir := (\<lambda>n. Some (mem_Mkdir n)),
      n_Symlink := (\<lambda>n. Some (\<lambda>name target gid. enosys)),
      n_Link := (\<lambda>n. Some (\<lambda>target name. enosys)),
      n_Mknod := (\<lambda>n. Some (\<lambda>name mode major minor gid. enosys)),
      n_Readlink := (\<lambda>n. Some (mem_Readlink n)),
      n_Unlink := (\<lambda>n. Some (mem_Unlink n)),
      n_Rename := (\<lambda>n. Some (\<lambda>name dir name'. enosys)),
      n_StatFS := (\<lambda>n. Some (mem_StatFS n)),
      n_Fsync := (\<lambda>n. Some enosys),
      n_Locker := (\<lambda>n. Some (\<lambda>lt fl st ln pid cid. enosys, \<lambda>lt st ln pid cid. enosys)),
      n_Close := (\<lambda>n. Some (ret (Inr ()))),
      n_GetXattr := (\<lambda>n. Some (\<lambda>name. enosys)),
      n_SetXattr := (\<lambda>n. Some (\<lambda>name data fl. enosys)),
      n_ListXattrs := (\<lambda>n. Some enosys),
      n_RemoveXattr := (\<lambda>n. Some (\<lambda>name. enosys))\<rparr>"

section \<open>The contract of the server\<close>

text \<open>No call of the file system touches the fid table or a reference count.\<close>

definition same_fids :: "mem_srv \<Rightarrow> mem_srv \<Rightarrow> bool" where
  "same_fids s s' \<longleftrightarrow> s_tab s' = s_tab s \<and> s_closed s' = s_closed s
     \<and> (\<forall>i. i_refs (s_inodes s' i) = i_refs (s_inodes s i))"

definition quiet :: "(nat, unit, unit, memfs, 'a) act \<Rightarrow> bool" where
  "quiet m \<longleftrightarrow> (\<forall>s. same_fids s (snd (run_state m s)))"

named_theorems quiet_intro \<open>calls that leave fids and reference counts alone\<close>

lemma quiet_bind [quiet_intro]: "quiet m \<Longrightarrow> (\<And>x. quiet (f x)) \<Longrightarrow> quiet (State_Monad.bind m f)"
  by (simp add: quiet_def same_fids_def case_prod_beta)

lemma quiet_basic [quiet_intro]: "quiet (ret x)" "quiet (gets f)"
  by (simp_all add: quiet_def same_fids_def)

lemma quiet_set_node [quiet_intro]: "quiet (modify (set_node n x))"
  by (simp add: quiet_def same_fids_def set_node_def)

lemma quiet_alloc [quiet_intro]: "quiet (alloc_node t x)"
  by (simp add: quiet_def same_fids_def alloc_node_def Let_def case_prod_beta)

lemma quiet_on_inodes: "(\<And>H i. i_refs (snd (f H) i) = i_refs (H i)) \<Longrightarrow> quiet (on_inodes f)"
  by (simp add: quiet_def same_fids_def on_inodes_def case_prod_beta)

lemma quiet_try_add [quiet_intro]: "quiet (try_add d name child)"
  unfolding try_add_def by (rule quiet_on_inodes) (auto simp: refs_TryAddChild split: option.split)

lemma quiet_remove [quiet_intro]:
  "quiet (on_inodes (\<lambda>H. case RemoveChildIf d name (unlink_check flags H) H of
      None \<Rightarrow> (Inl OtherError, H) | Some (Some e, H') \<Rightarrow> (Inl e, H') | Some (None, H') \<Rightarrow> (Inr (), H')))"
  by (rule quiet_on_inodes) (auto simp: refs_RemoveChildIf split: option.split)

lemma quiet_memnode [quiet_intro]:
  "(\<And>a b c d. quiet (f1 a b c d)) \<Longrightarrow> (\<And>a b c. quiet (f2 a b c)) \<Longrightarrow> (\<And>a b. quiet (f3 a b)) \<Longrightarrow> (\<And>a. quiet (f4 a))
   \<Longrightarrow> (\<And>a b. quiet (f5 a b)) \<Longrightarrow> (\<And>a. quiet (f6 a))
   \<Longrightarrow> quiet (case x of MemFile a b c d \<Rightarrow> f1 a b c d | MemDir a b c \<Rightarrow> f2 a b c | StaticFile a b \<Rightarrow> f3 a b
       | Symlink a \<Rightarrow> f4 a | Device a b \<Rightarrow> f5 a b | StaticFS a \<Rightarrow> f6 a)"
  by (cases x) auto

lemma quiet_sum [quiet_intro]:
  "(\<And>a. quiet (f a)) \<Longrightarrow> (\<And>b. quiet (g b)) \<Longrightarrow> quiet (case x of Inl a \<Rightarrow> f a | Inr b \<Rightarrow> g b)"
  by (cases x) auto

lemma quiet_if [quiet_intro]: "quiet m \<Longrightarrow> quiet m' \<Longrightarrow> quiet (if b then m else m')"
  by simp

lemma quiet_calls [quiet_intro]:
  "quiet (mem_Read n cnt off)" "quiet (mem_Write n data off)" "quiet (mem_Getattr n msk)"
  "quiet (mem_Setattr n attr)" "quiet (mem_Readdir n)" "quiet (mem_Create n name flags mode gid)"
  "quiet (mem_Mkdir n name mode gid)" "quiet (mem_Unlink n name flags)" "quiet (mem_Open n flags)"
  "quiet (mem_Readlink n)" "quiet (mem_StatFS n)"
  unfolding mem_Read_def mem_Write_def mem_Getattr_def mem_Setattr_def mem_Readdir_def mem_Create_def
    mem_Mkdir_def mem_Unlink_def mem_Open_def mem_Readlink_def mem_StatFS_def new_child_def Let_def
  by (intro quiet_intro)+

lemmas memfs_simps = memfs_vfs_def bare_vfs_def

lemma memfs_sel:
  "v_QID memfs_vfs n s = i_qid (s_inodes s n)" "v_EmbeddedInode memfs_vfs n = Some n"
  "n_Lookup memfs_vfs n = Some (\<lambda>name. gets (\<lambda>s. Inode_Lookup n name (s_inodes s)))"
  "n_Open memfs_vfs n = Some (mem_Open n)" "n_Read memfs_vfs n = Some (mem_Read n)"
  "n_Write memfs_vfs n = Some (mem_Write n)" "n_Close memfs_vfs n = Some (ret (Inr ()))"
  "n_Create memfs_vfs n = Some (mem_Create n)" "n_Mkdir memfs_vfs n = Some (mem_Mkdir n)"
  "n_Unlink memfs_vfs n = Some (mem_Unlink n)" "n_Readdir memfs_vfs n = Some (mem_Readdir n)"
  "n_RawReaddir memfs_vfs n = None" "n_RawXattr memfs_vfs n = None"
  by (simp_all add: memfs_simps)

text \<open>A configuration that serves one tree: no attacher, no named exports.\<close>

definition mem_cfg :: "u32 \<Rightarrow> protocol \<Rightarrow> int \<Rightarrow> nat \<Rightarrow> (nat, unit, unit, memfs) cfg" where
  "mem_cfg msz proto maxFids root = \<lparr>c_msize = msz, c_protocol = proto, c_maxFids = maxFids,
     c_attacher = None, c_anames = None, c_root = root\<rparr>"

lemma memfs_contract:
  assumes P: "\<And>D s s'. same_fids s s' \<Longrightarrow> P D s \<Longrightarrow> P D s'"
  shows "vfs_contract memfs_vfs (mem_cfg msz proto maxFids root) P"
proof -
  have keeps: "quiet m \<Longrightarrow> keeps (P D) m" for m D
    using P by (auto simp: quiet_def keeps_def)
  show ?thesis
    by unfold_locales (auto simp: memfs_simps mem_cfg_def intro!: keeps quiet_intro)
qed

interpretation mem_refs: refs_vfs memfs_vfs "mem_cfg msz proto maxFids root" for msz proto maxFids root
proof -
  have "vfs_contract memfs_vfs (mem_cfg msz proto maxFids root) (refs_ok memfs_vfs)"
    by (rule memfs_contract, erule refs_ok_cong) (auto simp: same_fids_def)
  then show "refs_vfs memfs_vfs (mem_cfg msz proto maxFids root)" by (rule refs_vfs.intro)
qed

interpretation mem_limit: limit_vfs memfs_vfs "mem_cfg msz proto maxFids root" for msz proto maxFids root
proof -
  have "vfs_contract memfs_vfs (mem_cfg msz proto maxFids root) (limit_ok (mem_cfg msz proto maxFids root))"
    by (rule memfs_contract) (auto simp: same_fids_def limit_ok_def)
  then show "limit_vfs memfs_vfs (mem_cfg msz proto maxFids root)" by (rule limit_vfs.intro)
qed

section \<open>A small tree\<close>

text \<open>A root with one file and one directory, served to a client that attaches,
  walks to the file and opens it.\<close>

definition empty_mem :: mem_srv where
  "empty_mem = new_srv (\<lambda>_. \<lparr>i_qid = \<lparr>QID_Type = 0, QID_Version = 0, QID_Path = 0\<rparr>, i_parent = None,
     i_children = [], i_node = None, i_refs = 0, i_prunable = False\<rparr>)
     \<lparr>mf_nodes = (\<lambda>_. MemDir 0 0 0), mf_fresh = 0, mf_gen = 0\<rparr>"

definition demo_tree :: mem_srv where
  "demo_tree = snd (run_state (do {
     root \<leftarrow> NewDir;
     _ \<leftarrow> AddFile root [97] [1, 2, 3];
     _ \<leftarrow> AddDir root [98];
     ret () }) empty_mem)"

definition demo_cfg :: "(nat, unit, unit, memfs) cfg" where
  "demo_cfg = mem_cfg 8192 protocolL 3 0"

definition demo_open :: mem_srv where
  "demo_open = snd (run_state (do {
     _ \<leftarrow> dispatch memfs_vfs demo_cfg (Base (Tattach 1 NoFid [] [] NoFid));
     _ \<leftarrow> dispatch memfs_vfs demo_cfg (Base (Twalk 1 2 [[97]]));
     _ \<leftarrow> dispatch memfs_vfs demo_cfg (L (Tlopen 2 2));
     ret () }) demo_tree)"

lemmas demo_defs = demo_tree_def NewDir_def AddFile_def AddFileWithMode_def AddDir_def alloc_node_def Next_def
  add_child_def on_inodes_def AddChild_def empty_mem_def new_srv_def Init_def upd_inode_def Let_def

lemmas run_defs = demo_cfg_def mem_cfg_def bind_fid_def newFidTable_def handleAttach_def handleWalk_def
  handleLopen_def handleClunk_def openFid_def fid_get_def fid_state_def get_def on_tab_def alloc_def add_def
  incRefNode_def incRef_def nodeQID_def memfs_sel Inode_Lookup_def currentNode_def currentState_def
  currentPath_def deref_def validatePathElement_def closeUnboundNode_def ft_len_def new_fidState_def
  markOpenedWithHandle_def assign_def mem_Open_def node_at_def QTDIR_def

section \<open>Contents\<close>

lemma checkedSize_eq:
  "checkedSize off k = (if unat off + k > maxMemFileSize then Inl (ProtoErrno EFBIG) else Inr (unat off + k))"
  by (auto simp: checkedSize_def)

lemma write_at_eq:
  "write_at old data off = (if unat off + length data > maxMemFileSize then Inl (ProtoErrno EFBIG)
     else Inr (take (unat off) (grow old (unat off + length data)) @ data
       @ drop (unat off + length data) (grow old (unat off + length data))))"
  by (auto simp: write_at_def checkedSize_eq grow_def Let_def)

lemma length_grow: "length (grow data k) = max (length data) k"
  by (simp add: grow_def)

lemma read_at_eq: "read_at data k off = take k (drop (unat off) data)"
  by (auto simp: read_at_def min_def)

lemma read_write_at: "write_at old data off = Inr new \<Longrightarrow> read_at new (length data) off = data"
  by (auto simp: write_at_eq read_at_eq length_grow split: if_splits)

text \<open>Two writes one after the other are one write.\<close>

lemma write_at_append:
  assumes "write_at old a off = Inr new" "unat off + length a + length b \<le> maxMemFileSize"
  shows "write_at new b (off + of_nat (length a)) = write_at old (a @ b) off"
proof -
  let ?k = "unat off"
  have "?k + length a < 2 ^ 64" using assms(2) by (simp add: maxMemFileSize_def MaxDataSize_def)
  then have off: "unat (off + of_nat (length a)) = ?k + length a"
    by (subst unat_word_ariths(1)) (simp add: unsigned_of_nat take_bit_nat_eq_self)
  have new: "new = take ?k (grow old (?k + length a)) @ a @ drop (?k + length a) old"
    using assms by (auto simp: write_at_eq grow_def)
  have tk: "take ?k (grow old m) = take ?k (grow old (?k + length a))" if "?k + length a \<le> m" for m
    using that by (auto simp: grow_def take_replicate min_def)
  have g: "grow new (?k + length a + length b) = take ?k (grow old (?k + length a)) @ a @
      drop (?k + length a) (grow old (?k + length a + length b))"
    unfolding new by (auto simp: grow_def)
  show ?thesis
    using assms(2) tk [of "?k + length a + length b"] g
    by (simp add: write_at_eq off length_grow ac_simps)
qed

text \<open>C28. Refinement of \<^verbatim>\<open>MemFile.Write\<close>. A write is refused with \<^verbatim>\<open>EFBIG\<close> exactly when it would
  end past \<^verbatim>\<open>maxMemFileSize\<close>; otherwise the new contents are, byte by byte, the data
  in the written range, the old contents elsewhere, and zero in a gap between the
  old end and the offset.\<close>

theorem write_at_refines:
  "write_at old data off = (if unat off + length data > maxMemFileSize then Inl (ProtoErrno EFBIG)
     else Inr (map (\<lambda>i. if unat off \<le> i \<and> i < unat off + length data then data ! (i - unat off)
                       else if i < length old then old ! i else 0)
               [0..<max (length old) (unat off + length data)]))"
proof -
  have "take k g @ data @ drop (k + length data) g
      = map (\<lambda>i. if k \<le> i \<and> i < k + length data then data ! (i - k) else if i < length old then old ! i else 0)
          [0..<max (length old) (k + length data)]"
    if g: "g = grow old (k + length data)" for g k
  proof -
    have len: "length g = max (length old) (k + length data)" by (simp add: g length_grow)
    have nth: "g ! i = (if i < length old then old ! i else 0)" if "i < length g" for i
      using that by (auto simp: g grow_def nth_append)
    show ?thesis
      by (rule nth_equalityI) (auto simp: len nth_append nth min_def)
  qed
  then show ?thesis by (simp add: write_at_eq)
qed

section \<open>Reads and writes through the server\<close>

text \<open>A fid open on a node without a handle.\<close>

definition opened_on :: "mem_srv \<Rightarrow> u32 \<Rightarrow> nat \<Rightarrow> bool" where
  "opened_on s fid n = (case get (s_tab s) fid of
       None \<Rightarrow> False
     | Some a \<Rightarrow> a < length (store (s_tab s)) \<and>
         (let fs = deref (s_tab s) a in
          fs_state fs = fidOpened \<and> \<not> fs_closing fs \<and> fs_handle fs = None \<and> fs_node fs = n))"

lemma assign_deref: "a < length (store t) \<Longrightarrow> assign a (deref t a) t = t"
  by (simp add: assign_def deref_def)

lemma run_with_io:
  assumes a: "a < length (store (s_tab s))" and live: "\<not> fs_closing (deref (s_tab s) a)"
    and body: "run_state body (s\<lparr>s_tab := t\<rparr>) = (r, s'\<lparr>s_tab := t\<rparr>)"
    and t: "t = assign a ((deref (s_tab s) a)\<lparr>fs_ioRefs := fs_ioRefs (deref (s_tab s) a) + 1\<rparr>) (s_tab s)"
    and s': "s_tab s' = s_tab s"
  shows "run_state (with_io V c a body) s = (r, s')"
proof -
  have "s'\<lparr>s_tab := s_tab s\<rparr> = s'" by (simp add: s' [symmetric])
  moreover have "assign a (deref (s_tab s) a) (s_tab s) = s_tab s" using a by (rule assign_deref)
  ultimately show ?thesis
    using a live body unfolding t
    by (simp add: with_io_def begin_io_def end_io_def on_fid_def on_tab_def beginIO_def endIO_def Let_def
        release_decided_def deref_assign)
      (simp add: assign_def)
qed

lemma opened_onE:
  assumes "opened_on s fid n"
  obtains a where "fids (s_tab s) fid = Some a" "a < length (store (s_tab s))"
    "fs_state (deref (s_tab s) a) = fidOpened" "\<not> fs_closing (deref (s_tab s) a)"
    "fs_handle (deref (s_tab s) a) = None" "fs_node (deref (s_tab s) a) = n"
  using assms by (auto simp: opened_on_def get_def Let_def split: option.splits)

lemma node_at_simps [simp]:
  "node_at n (s\<lparr>s_tab := t\<rparr>) = node_at n s" "node_at n (set_node n x s) = x"
  "s_tab (set_node n x s) = s_tab s" "set_node n x (s\<lparr>s_tab := t\<rparr>) = (set_node n x s)\<lparr>s_tab := t\<rparr>"
  by (simp_all add: node_at_def set_node_def)

lemma opened_on_set_node [simp]: "opened_on (set_node n x s) fid m = opened_on s fid m"
  unfolding opened_on_def node_at_simps ..

lemma run_mem_Write:
  assumes "node_at n s = MemFile old mode uid gid" "write_at old data off = Inr new"
  shows "run_state (mem_Write n data off) s = (Inr (of_nat (length data)), set_node n (MemFile new mode uid gid) s)"
  using assms by (simp add: mem_Write_def)

lemma run_mem_Read:
  assumes "node_at n s = MemFile data mode uid gid"
  shows "run_state (mem_Read n cnt off) s
    = (Inr (int (length (read_at data (unat cnt) off)), \<lambda>i. read_at data (unat cnt) off ! i), s)"
  using assms by (simp add: mem_Read_def Let_def)

lemma run_handleWrite:
  assumes "opened_on s fid n" "node_at n s = MemFile old mode uid gid" "write_at old data off = Inr new"
    and "length data < 2 ^ 32"
  shows "run_state (handleWrite memfs_vfs c fid off data) s
    = (Reply (Base (Rwrite (of_nat (length data)))), set_node n (MemFile new mode uid gid) s)"
  using assms(1)
proof (rule opened_onE)
  fix a assume a: "fids (s_tab s) fid = Some a" "a < length (store (s_tab s))"
    "fs_state (deref (s_tab s) a) = fidOpened" "\<not> fs_closing (deref (s_tab s) a)"
    "fs_handle (deref (s_tab s) a) = None" "fs_node (deref (s_tab s) a) = n"
  have "validWriteCount (uint (of_nat (length data) :: u32)) (length data)"
    using assms(4) by (simp add: validWriteCount_def unsigned_of_nat take_bit_nat_eq_self)
  then have reply: "write_reply c data (Inr (of_nat (length data))) = Base (Rwrite (of_nat (length data)))"
    by (simp add: write_reply_def)
  show ?thesis
    using a assms(2,3)
    by (simp add: handleWrite_def fid_get_def get_def fid_state_def)
      (rule run_with_io [OF a(2) a(4) _ refl],
        simp_all add: deref_assign memfs_simps run_mem_Write reply)
qed

lemma run_handleRead:
  assumes "opened_on s fid n" "node_at n s = MemFile data mode uid gid"
  shows "run_state (handleRead memfs_vfs c fid off cnt) s
    = (Reply (Base (Rread (read_at data (unat (clampCount c cnt)) off))), s)"
  using assms(1)
proof (rule opened_onE)
  fix a assume a: "fids (s_tab s) fid = Some a" "a < length (store (s_tab s))"
    "fs_state (deref (s_tab s) a) = fidOpened" "\<not> fs_closing (deref (s_tab s) a)"
    "fs_handle (deref (s_tab s) a) = None" "fs_node (deref (s_tab s) a) = n"
  let ?b = "read_at data (unat (clampCount c cnt)) off"
  have "validReadCount (int (length ?b)) (uint (clampCount c cnt))"
  proof -
    have "length ?b \<le> unat (clampCount c cnt)" by (simp add: read_at_eq)
    then have "int (length ?b) \<le> int (unat (clampCount c cnt))" by (simp only: of_nat_le_iff)
    then show ?thesis by (simp add: validReadCount_def)
  qed
  moreover have "map ((!) ?b) [0..<length ?b] = ?b" by (rule map_nth)
  ultimately show ?thesis
    using a assms(2)
    by (simp add: handleRead_def fid_get_def get_def fid_state_def Let_def)
      (rule run_with_io [OF a(2) a(4) _ refl],
        simp_all add: deref_assign memfs_simps run_mem_Read fillPooled_def)
qed

text \<open>C29. Read your writes, through the request handlers. On a fid open on a \<^verbatim>\<open>MemFile\<close>, a
  \<^verbatim>\<open>Twrite\<close> that fits the file size limit is answered by an \<^verbatim>\<open>Rwrite\<close> of the full
  length, and a following \<^verbatim>\<open>Tread\<close> of the same range, if it fits the negotiated
  message size, is answered by exactly the bytes written.\<close>

theorem read_your_writes:
  assumes "opened_on s fid n" "node_at n s = MemFile old mode uid gid"
    and "unat off + length data \<le> maxMemFileSize" "length data \<le> unat (clampCount c (of_nat (length data)))"
  shows "fst (run_state (do {
      w \<leftarrow> dispatch memfs_vfs c (Base (Twrite fid off data));
      r \<leftarrow> dispatch memfs_vfs c (Base (Tread fid off (of_nat (length data))));
      ret (w, r) }) s)
    = (Reply (Base (Rwrite (of_nat (length data)))), Reply (Base (Rread data)))"
proof -
  obtain new where new: "write_at old data off = Inr new"
    using assms(3) by (auto simp: write_at_eq)
  have len: "length data < 2 ^ 32"
    using assms(3) by (simp add: maxMemFileSize_def MaxDataSize_def)
  have clamp: "unat (clampCount c (of_nat (length data))) = length data"
  proof -
    have "unat (clampCount c (of_nat (length data))) \<le> unat (of_nat (length data) :: u32)"
      by (auto simp: clampCount_def Let_def word_le_nat_alt word_less_nat_alt)
    also have "\<dots> = length data" using len by (simp add: unsigned_of_nat take_bit_nat_eq_self)
    finally show ?thesis using assms(4) by simp
  qed
  have "opened_on (set_node n (MemFile new mode uid gid) s) fid n"
    using assms(1) by simp
  then show ?thesis
    using run_handleWrite [OF assms(1,2) new len]
      run_handleRead [of "set_node n (MemFile new mode uid gid) s" fid n new mode uid gid]
      read_write_at [OF new] clamp by simp
qed

theorem read_your_writes_witness:
  "fst (run_state (do {
      w \<leftarrow> dispatch memfs_vfs demo_cfg (Base (Twrite 2 4 [7, 8]));
      r \<leftarrow> dispatch memfs_vfs demo_cfg (Base (Tread 2 4 (of_nat (length [7 :: byte, 8]))));
      ret (w, r) }) demo_open)
    = (Reply (Base (Rwrite (of_nat (length [7 :: byte, 8])))), Reply (Base (Rread [7, 8])))"
proof (rule read_your_writes)
  show "opened_on demo_open 2 1"
    by (simp add: demo_open_def demo_defs run_defs opened_on_def)
  show "node_at 1 demo_open = MemFile [1, 2, 3] 0x1A4 0 0"
    by (simp add: demo_open_def demo_defs run_defs)
  show "unat (4 :: u64) + length [7 :: byte, 8] \<le> maxMemFileSize"
    by (simp add: maxMemFileSize_def MaxDataSize_def)
  show "length [7 :: byte, 8] \<le> unat (clampCount demo_cfg (of_nat (length [7 :: byte, 8])))"
    by (simp add: clampCount_def demo_cfg_def mem_cfg_def HeaderSize_def)
qed

end
