(* ===== verification/ServerProps.thy ===== *)
theory ServerProps
  imports ServerReplies MemFS
begin

text \<open>
  What the server promises about a connection's fids: exact reference counts, the
  fid limit, release on the last clunk, all-or-nothing walks, and an empty table
  after shutdown. Each is stated for every file system that satisfies the
  contract; the in-memory file system is the instance at which the hypotheses are
  shown to hold.
\<close>

section \<open>Sequences of requests\<close>

text \<open>The requests of a connection in the order the server handles them. A call into
  the file system may stand for other requests as well (see \<^verbatim>\<open>vfs_contract\<close>).\<close>

primrec serve :: "('n, 'h, 'x, 'w) vfs \<Rightarrow> ('n, 'h, 'x, 'w) cfg \<Rightarrow> message list
    \<Rightarrow> ('n, 'h, 'x, 'w, outcome list) act" where
  "serve V c [] = ret []"
| "serve V c (m # ms) = do { r \<leftarrow> dispatch V c m; rs \<leftarrow> serve V c ms; ret (r # rs) }"

definition demo_reqs :: "message list" where
  "demo_reqs = [Base (Tattach 1 NoFid [] [] NoFid), Base (Twalk 1 2 [[97]]), Base (Twalk 2 3 []), Base (Twalk 2 4 [])]"

definition fresh_conn :: "('n, 'h, 'x, 'w) srv \<Rightarrow> bool" where
  "fresh_conn s \<longleftrightarrow> s_tab s = newFidTable \<and> (\<forall>i. i_refs (s_inodes s i) = 0)"

text \<open>The fids whose node embeds a given inode.\<close>

definition bound_to :: "('n, 'h, 'x, 'w) vfs \<Rightarrow> ('n, 'h, 'x) fidTable \<Rightarrow> nat \<Rightarrow> u32 set" where
  "bound_to V t i = {fid. \<exists>a. fids t fid = Some a \<and> v_EmbeddedInode V (fs_node (deref t a)) = Some i}"

context server_invariant begin

lemma serve_keeps: "keeps (P D) (serve V c ms)"
  by (induction ms) (auto intro: keeps_intro dispatch_keeps)

end

context refs_vfs begin

lemma serve_refs: "fresh_conn s \<Longrightarrow> refs_ok V [] (snd (run_state (serve V c ms) s))"
  by (rule keepsD [OF refs.serve_keeps]) (auto simp: fresh_conn_def refs_ok_def users_def newFidTable_def ft_ok_def)

lemma dispatch_refs: "refs_ok V [] s \<Longrightarrow> refs_ok V [] (snd (run_state (dispatch V c m) s))"
  by (rule keepsD [OF refs.dispatch_keeps])

lemma cleanup_refs:
  "refs_ok V [] s \<Longrightarrow> distinct order \<Longrightarrow> set order = fst (clunkAll (s_tab s))
   \<Longrightarrow> refs_ok V [] (snd (run_state (cleanup_fids V drained order) s))"
  by (rule refs.cleanup_keeps)

end

context limit_vfs begin

lemma serve_limit: "fresh_conn s \<Longrightarrow> limit_ok c [] (snd (run_state (serve V c ms) s))"
  by (rule keepsD [OF limit.serve_keeps]) (simp add: fresh_conn_def limit_ok_def ft_len_def newFidTable_def)

end

lemma bound_to_users:
  assumes "ft_ok t"
  shows "card (bound_to V t i) = card (users V [] t i)"
proof (rule bij_betw_same_card)
  show "bij_betw (\<lambda>fid. the (fids t fid)) (bound_to V t i) (users V [] t i)"
    using assms by (force simp: bij_betw_def inj_on_def bound_to_def users_def ran_def image_iff dest: ft_ok_inj)
qed

lemma demo_tree_fresh: "fresh_conn demo_tree"
  by (simp add: fresh_conn_def demo_defs)

text \<open>C4. Exact reference counts. Over a file system that keeps the counts, after any
  sequence of requests on a fresh connection the reference count of every inode is
  the number of fids bound to a node that embeds it.\<close>

theorem refcounts_exact:
  assumes "refs_vfs V c" "fresh_conn s" "s' = snd (run_state (serve V c reqs) s)"
  shows "i_refs (s_inodes s' i) = of_nat (card (bound_to V (s_tab s') i))"
proof -
  have "refs_ok V [] s'" using refs_vfs.serve_refs [OF assms(1,2)] by (simp add: assms(3))
  then show ?thesis using bound_to_users [OF refs_okD(1)] refs_okD(5) by metis
qed

theorem refcounts_exact_witness:
  "i_refs (s_inodes (snd (run_state (serve memfs_vfs demo_cfg demo_reqs) demo_tree)) 1)
   = of_nat (card (bound_to memfs_vfs (s_tab (snd (run_state (serve memfs_vfs demo_cfg demo_reqs) demo_tree))) 1))"
  by (rule refcounts_exact [OF _ demo_tree_fresh refl]) (unfold demo_cfg_def, rule mem_refs.refs_vfs_axioms)

text \<open>C30. The fid limit. With a positive limit, no sequence of requests on a fresh connection
  binds more fids than the limit.\<close>

theorem fid_limit_respected:
  assumes "limit_vfs V c" "fresh_conn s" "0 < c_maxFids c"
  shows "int (ft_len (s_tab (snd (run_state (serve V c reqs) s)))) \<le> c_maxFids c"
  using limit_vfs.serve_limit [OF assms(1,2)] assms(3) by (simp add: limit_ok_def)

theorem fid_limit_respected_witness:
  "int (ft_len (s_tab (snd (run_state (serve memfs_vfs demo_cfg demo_reqs) demo_tree)))) \<le> c_maxFids demo_cfg"
  by (rule fid_limit_respected [OF _ demo_tree_fresh])
    (simp_all add: demo_cfg_def mem_limit.limit_vfs_axioms, simp add: mem_cfg_def)

section \<open>Watching the table\<close>

text \<open>A predicate on the map from fid numbers to states that no call into the file system
  disturbs: the clunk and shutdown paths keep it, since after the fid has left the
  table they only touch fid states, inodes and the file system.\<close>

locale fids_watch = vfs_contract V c "\<lambda>_ s. Q (fids (s_tab s))"
  for V :: "('n, 'h, 'x, 'w) vfs" and c :: "('n, 'h, 'x, 'w) cfg" and Q :: "(u32 \<rightharpoonup> nat) \<Rightarrow> bool"
begin

abbreviation watch :: "('n, 'h, 'x, 'w) srv \<Rightarrow> bool" where
  "watch \<equiv> \<lambda>s. Q (fids (s_tab s))"

lemma fids_only: "(\<And>s. fids (s_tab (snd (run_state m s))) = fids (s_tab s)) \<Longrightarrow> keeps watch m"
  by (simp add: keeps_def)

end

sublocale fids_watch \<subseteq> watched: neutral_invariant V c "\<lambda>_ s. Q (fids (s_tab s))"
  by unfold_locales (rule fids_only transactions_fids)+

context fids_watch
begin

lemma decRef_watch: "keeps watch (decRefNode V n)" "keeps watch (drop_ref V a)"
  by (rule fids_only; simp add: drop_ref_def currentNode_def decRefNode_tab split: prod.split)+

lemma release_all_watch: "keeps watch (release_all V drained as)"
  by (induction as) (auto intro!: keeps_intro decRef_watch watched.release_keeps)

text \<open>Once \<^verbatim>\<open>fid\<close> is out of the table.\<close>

lemma clunked_watch:
  assumes "Q ((fids (s_tab s))(fid := None))"
  shows "watch (snd (run_state (handleClunk V c fid) s))" "watch (snd (run_state (handleRemove V c fid) s))"
proof -
  obtain r s1 where r: "run_state (on_tab (clunk fid)) s = (r, s1)" by fastforce
  have "fids (s_tab s1) = (fids (s_tab s))(fid := None)"
    using r by (auto simp: on_tab_def clunk_def fun_upd_idem split: option.splits)
  then have w: "watch s1" using assms by simp
  have "watch (snd (run_state (case r of None \<Rightarrow> fail c EBADF
      | Some a \<Rightarrow> do {
          lastRef \<leftarrow> drop_ref V a;
          fs \<leftarrow> fid_state a;
          if fs_state fs = fidXattrWrite then do {
            fid_modify a (\<lambda>fs. fs\<lparr>fs_closing := True\<rparr>);
            commit_xattr V c fs }
          else do { finish_clunk V a lastRef; reply (Base Rclunk) } }) s1))"
    by (rule keepsD [where P = watch, OF _ w]) 
      (intro keeps_intro reads_keep watched.fid_modify decRef_watch watched.commit_keeps watched.io_keeps; simp)
  then show "watch (snd (run_state (handleClunk V c fid) s))" by (simp add: handleClunk_def r)
  have "watch (snd (run_state (case r of None \<Rightarrow> fail c EBADF
      | Some a \<Rightarrow> do {
          n \<leftarrow> currentNode a;
          removeErr \<leftarrow> removeViaInodeTree V n;
          lastRef \<leftarrow> drop_ref V a;
          finish_clunk V a lastRef;
          case removeErr of Some err \<Rightarrow> fail c (errnoFromError err) | None \<Rightarrow> reply (Base Rremove) }) s1))"
    by (rule keepsD [where P = watch, OF _ w]) 
      (intro keeps_intro reads_keep decRef_watch watched.remove_tree_keeps watched.io_keeps)
  then show "watch (snd (run_state (handleRemove V c fid) s))" by (simp add: handleRemove_def r)
qed

lemma walk_watch:
  "keeps watch (walk_loop V ws names i cur qids)" "keeps watch (closeResolved V ws cur)"
  "keeps watch (rebind_walk V fid n p)"
  by (rule watched.walk_loop_keeps watched.closeResolved_keeps watched.rebind_walk)+

lemma neutral_watch: "neutral m \<Longrightarrow> keeps watch (dispatch V c m)"
  by (rule watched.neutral_keeps)

end

interpretation mem_watch: fids_watch memfs_vfs "mem_cfg msz proto maxFids root" Q for msz proto maxFids root Q
  by (rule fids_watch.intro, rule memfs_contract) (auto simp: same_fids_def)

lemma cleanup_empties:
  assumes "vfs_contract V c (\<lambda>D s. fids (s_tab s) = Map.empty)"
  shows "fids (s_tab (snd (run_state (cleanup_fids V drained order) s))) = Map.empty"
proof -
  have "fids_watch V c (\<lambda>m. m = Map.empty)" using assms by (rule fids_watch.intro)
  from fids_watch.release_all_watch [OF this, of drained order] show ?thesis
    by (auto simp: keeps_def cleanup_fids_def on_tab_def clunkAll_def case_prod_beta)
qed

text \<open>So the shutdown after any sequence of requests, in whatever order the fid states are
  released and whether or not the handlers have drained, leaves the fid table empty
  and every reference count at zero.\<close>

lemma cleanup_releases_all:
  assumes "refs_vfs V c" "fresh_conn s" "s' = snd (run_state (serve V c reqs) s)"
    and "distinct order" "set order = fst (clunkAll (s_tab s'))"
    and "vfs_contract V c (\<lambda>D s. fids (s_tab s) = Map.empty)"
  shows "fids (s_tab (snd (run_state (cleanup_fids V drained order) s'))) = Map.empty
    \<and> i_refs (s_inodes (snd (run_state (cleanup_fids V drained order) s')) i) = 0"
proof -
  have "refs_ok V [] (snd (run_state (cleanup_fids V drained order) s'))"
    using refs_vfs.cleanup_refs [OF assms(1) refs_vfs.serve_refs [OF assms(1,2)]] assms(3-5) by blast
  from refs_okD(5) [OF this, of i] cleanup_empties [OF assms(6)] show ?thesis by (simp add: users_def)
qed

definition walk_outcome :: "u32 \<Rightarrow> u32 \<Rightarrow> gostring list \<Rightarrow> (u32 \<rightharpoonup> nat) \<Rightarrow> outcome \<Rightarrow> (u32 \<rightharpoonup> nat) \<Rightarrow> bool" where
  "walk_outcome fid newfid names before r after = (case r of
       Reply (Base (Rwalk qids)) \<Rightarrow> length qids \<le> length names \<and>
         (if length qids = length names \<and> newfid \<noteq> fid
          then before newfid = None \<and> after newfid \<noteq> None \<and> after(newfid := None) = before
          else after = before)
     | _ \<Rightarrow> after = before)"

lemma walk_loop_length:
  "yields (\<lambda>r. case r of Inl e \<Rightarrow> True | Inr (qs, cur) \<Rightarrow> length qs \<le> length qids + length names)
     (walk_loop V ws names i cur qids)"
proof (induction names arbitrary: i cur qids)
  case (Cons name names)
  show ?case
    by (auto intro!: yields_intro yields_weaken [OF Cons.IH] split: sum.split)
qed (auto intro: yields_intro)

lemma bind_fid_outcome:
  assumes "run_state (bind_fid V c fid fs) s = (e, s')"
  shows "if e = None then fids (s_tab s) fid = None \<and> fids (s_tab s') fid \<noteq> None
      \<and> (fids (s_tab s'))(fid := None) = fids (s_tab s) else fids (s_tab s') = fids (s_tab s)"
  using assms by (auto simp: bind_fid_def on_tab_def alloc_def add_def incRefNode_def on_inodes_def
      split: prod.splits option.splits if_splits fid_error.splits)

lemma walk_valid:
  assumes "fids_watch V c (\<lambda>m. m = f)"
  shows "valid (\<lambda>s. fids (s_tab s) = f) (handleWalk V c fid newfid names)
    (\<lambda>r s. walk_outcome fid newfid names f r (fids (s_tab s)))"
proof -
  let ?P = "\<lambda>s. fids (s_tab s) = f" and ?Q = "\<lambda>r s. walk_outcome fid newfid names f r (fids (s_tab s))"
  have fail: "valid ?P (fail c e) ?Q" for e
    by (rule valid_return) (simp add: walk_outcome_def errorMsg_def split: protocol.split)
  have partial: "valid ?P (reply (Base (Rwalk qids))) ?Q"
    if "length qids \<le> length names" "length qids = length names \<Longrightarrow> newfid = fid" for qids
    by (rule valid_return) (use that in \<open>auto simp: walk_outcome_def\<close>)
  have bind: "valid ?P (bind_fid V c newfid fs \<bind> (\<lambda>e. case e of
      None \<Rightarrow> reply (Base (Rwalk qids)) | Some e \<Rightarrow> m e)) ?Q"
    if len: "length qids = length names" and ne: "fid \<noteq> newfid" and m: "\<And>e. valid ?P (m e) ?Q" for fs qids m
  proof (rule valid_bind)
    show "valid ?P (bind_fid V c newfid fs) (\<lambda>e s. if e = None then f newfid = None \<and> fids (s_tab s) newfid \<noteq> None
        \<and> (fids (s_tab s))(newfid := None) = f else fids (s_tab s) = f)"
      by (rule validI) (use bind_fid_outcome in force)
    show "valid (\<lambda>s. if e = None then f newfid = None \<and> fids (s_tab s) newfid \<noteq> None
        \<and> (fids (s_tab s))(newfid := None) = f else fids (s_tab s) = f)
      (case e of None \<Rightarrow> reply (Base (Rwalk qids)) | Some e \<Rightarrow> m e) ?Q" for e
      using len ne m by (cases e) (auto intro!: valid_return simp: walk_outcome_def)
  qed
  have reads: "keeps ?P (fid_get fid)" "keeps ?P (currentNode a)" "keeps ?P (currentPath a)"
    "keeps ?P (nodeAndPath a)" for a
    by (simp_all add: keeps_def fid_get_def currentNode_def currentPath_def nodeAndPath_def)
  note walks = fids_watch.walk_watch [OF assms]
  have loop: "valid ?P (walk_loop V ws names 0 ws [] \<bind> k) ?Q"
    if "\<And>e. valid ?P (k (Inl e)) ?Q" "\<And>qs cur. length qs \<le> length names \<Longrightarrow> valid ?P (k (Inr (qs, cur))) ?Q"
    for ws k
    by (rule valid_bind [OF valid_yields [OF walks(1) walk_loop_length]], rule valid_pure)
      (use that in \<open>auto split: sum.splits\<close>)
  show ?thesis
    unfolding handleWalk_def
    by (intro valid_intro fail bind loop reads [THEN valid_keeps_bind] walks(2,3) [THEN valid_keeps_bind]
        keeps_if [OF keeps_return walks(2), THEN valid_keeps_bind] partial; simp)
qed

section \<open>The fid table under every request\<close>

text \<open>What a request and its answer do to the table, from \<^verbatim>\<open>f\<close> to \<^verbatim>\<open>g\<close>.\<close>

definition binds :: "u32 \<Rightarrow> bool \<Rightarrow> (u32 \<rightharpoonup> nat) \<Rightarrow> (u32 \<rightharpoonup> nat) \<Rightarrow> bool" where
  "binds fid bound f g \<longleftrightarrow> (if bound then f fid = None \<and> g fid \<noteq> None \<and> g(fid := None) = f else g = f)"

definition fid_effect :: "message \<Rightarrow> outcome \<Rightarrow> (u32 \<rightharpoonup> nat) \<Rightarrow> (u32 \<rightharpoonup> nat) \<Rightarrow> bool" where
  "fid_effect m r f g = (case m of
       Base (Tattach fid _ _ _ _) \<Rightarrow> binds fid (\<exists>q. r = Reply (Base (Rattach q))) f g
     | Base (Twalk fid newfid names) \<Rightarrow>
         binds newfid (newfid \<noteq> fid \<and> (\<exists>qs. r = Reply (Base (Rwalk qs)) \<and> length qs = length names)) f g
         \<and> (case r of Reply (Base (Rwalk qs)) \<Rightarrow> length qs \<le> length names | _ \<Rightarrow> True)
     | L (Txattrwalk _ newfid _) \<Rightarrow> binds newfid (\<exists>sz. r = Reply (L (Rxattrwalk sz))) f g
     | Base (Tclunk fid) \<Rightarrow> g = f(fid := None)
     | Base (Tremove fid) \<Rightarrow> g = f(fid := None)
     | _ \<Rightarrow> g = f)"

lemma errorMsg_shape [simp]:
  "errorMsg c e \<noteq> Base m" "errorMsg c e \<noteq> L (Rxattrwalk sz)"
  by (simp_all add: errorMsg_def split: protocol.split)

text \<open>A handler that ends in a binding: it answers with success exactly when it has bound.\<close>

lemma bind_reply_valid:
  assumes "\<And>f. keeps (\<lambda>s. fids (s_tab s) = f) m" "yields ok m" "\<And>e. \<not> ok (Reply (errorMsg c e))"
  shows "valid (\<lambda>s. fids (s_tab s) = f)
    (bind_fid V c fid fs \<bind> (\<lambda>e. case e of Some errno \<Rightarrow> fail c errno | None \<Rightarrow> m))
    (\<lambda>r s. binds fid (ok r) f (fids (s_tab s)))"
proof (rule validI)
  fix s r s' assume f: "fids (s_tab s) = f"
    and run: "run_state (bind_fid V c fid fs \<bind> (\<lambda>e. case e of Some errno \<Rightarrow> fail c errno | None \<Rightarrow> m)) s = (r, s')"
  obtain e s1 where e: "run_state (bind_fid V c fid fs) s = (e, s1)" by fastforce
  show "binds fid (ok r) f (fids (s_tab s'))"
  proof (cases e)
    case None
    then have m: "run_state m s1 = (r, s')" using run e by simp
    have "fids (s_tab s') = fids (s_tab s1)" using keepsD [OF assms(1), of s1] m by simp
    moreover have "ok r" using yieldsD [OF assms(2), of s1] m by simp
    moreover have "f fid = None" "fids (s_tab s1) fid \<noteq> None" "(fids (s_tab s1))(fid := None) = f"
      using bind_fid_outcome [OF e] None f by auto
    ultimately show ?thesis by (simp add: binds_def)
  next
    case (Some errno)
    then show ?thesis using bind_fid_outcome [OF e] run e f assms(3) by (auto simp: binds_def)
  qed
qed

lemma binding_valid:
  assumes "\<And>f. fids_watch V c (\<lambda>m. m = f)"
  shows "valid (\<lambda>s. fids (s_tab s) = f) (handleAttach V c fid afid uname aname nuname)
      (\<lambda>r s. binds fid (\<exists>q. r = Reply (Base (Rattach q))) f (fids (s_tab s)))"
    and "valid (\<lambda>s. fids (s_tab s) = f) (handleXattrwalk V c fid newfid name)
      (\<lambda>r s. binds newfid (\<exists>sz. r = Reply (L (Rxattrwalk sz))) f (fids (s_tab s)))"
proof -
  let ?P = "\<lambda>s. fids (s_tab s) = f"
  have contract: "vfs_contract V c (\<lambda>D s. fids (s_tab s) = f)"
    using assms [of f] by (simp add: fids_watch_def)
  note keeps = vfs_contract.calls [OF contract] vfs_contract.reads_keep [OF contract]
  have fail: "valid ?P (fail c e) (\<lambda>r s. binds fid' (ok r) f (fids (s_tab s)))"
    if "\<And>e. \<not> ok (Reply (errorMsg c e))" for e ok fid'
    by (rule valid_return) (use that in \<open>simp add: binds_def\<close>)
  have read: "keeps (\<lambda>s. fids (s_tab s) = g) (nodeQID V n)" for g n
    unfolding nodeQID_def by (rule keeps_gets)
  show "valid ?P (handleAttach V c fid afid uname aname nuname)
      (\<lambda>r s. binds fid (\<exists>q. r = Reply (Base (Rattach q))) f (fids (s_tab s)))"
    unfolding handleAttach_def
    by (intro valid_intro fail valid_keeps_bind keeps_intro keeps bind_reply_valid yields_intro read; (simp; fail)?)
  show "valid ?P (handleXattrwalk V c fid newfid name)
      (\<lambda>r s. binds newfid (\<exists>sz. r = Reply (L (Rxattrwalk sz))) f (fids (s_tab s)))"
    unfolding handleXattrwalk_def addXattrReadFid_def
    by (intro valid_intro fail keeps [THEN valid_keeps_bind] bind_reply_valid keeps_intro yields_intro;
        (assumption | simp; fail)?)
qed

lemma not_neutral:
  "neutral m \<or> (\<exists>fid afid un an nu. m = Base (Tattach fid afid un an nu))
   \<or> (\<exists>fid newfid names. m = Base (Twalk fid newfid names)) \<or> (\<exists>fid. m = Base (Tclunk fid))
   \<or> (\<exists>fid. m = Base (Tremove fid)) \<or> (\<exists>fid newfid name. m = L (Txattrwalk fid newfid name))"
  by (simp add: neutral_def split: message.split base_msg.split l_msg.split)

lemma dispatch_fids:
  assumes "\<And>f. vfs_contract V c (\<lambda>D s. fids (s_tab s) = f)"
    and "run_state (dispatch V c m) s = (r, s')"
  shows "fid_effect m r (fids (s_tab s)) (fids (s_tab s'))"
proof -
  let ?f = "fids (s_tab s)"
  have watch: "fids_watch V c (\<lambda>m. m = f)" for f by (rule fids_watch.intro [OF assms(1)])
  have neutral: "?thesis" if "neutral m"
  proof -
    have "fids (s_tab s') = ?f"
      using keepsD [OF fids_watch.neutral_watch [OF watch that], of s ?f] assms(2) by simp
    then show ?thesis using that by (auto simp: fid_effect_def neutral_def split: message.splits base_msg.splits l_msg.splits)
  qed
  consider "neutral m" | fid afid un an nu where "m = Base (Tattach fid afid un an nu)"
    | fid newfid names where "m = Base (Twalk fid newfid names)" | fid where "m = Base (Tclunk fid)"
    | fid where "m = Base (Tremove fid)" | fid newfid name where "m = L (Txattrwalk fid newfid name)"
    using not_neutral [of m] by blast
  then show ?thesis
  proof cases
    case 1
    then show ?thesis by (rule neutral)
  next
    case (2 fid)
    then show ?thesis
      using validD [OF binding_valid(1) [OF watch] refl] assms(2) by (simp add: fid_effect_def)
  next
    case (3 fid newfid names)
    have "walk_outcome fid newfid names ?f r (fids (s_tab s'))"
      using validD [OF walk_valid [OF watch] refl] assms(2) 3 by simp
    then show ?thesis
      by (auto simp: 3 fid_effect_def walk_outcome_def binds_def
          split: outcome.splits message.splits base_msg.splits if_splits)
  next
    case (4 fid)
    then show ?thesis
      using fids_watch.clunked_watch(1) [OF watch, of s fid "?f(fid := None)"] assms(2) by (simp add: fid_effect_def)
  next
    case (5 fid)
    then show ?thesis
      using fids_watch.clunked_watch(2) [OF watch, of s fid "?f(fid := None)"] assms(2) by (simp add: fid_effect_def)
  next
    case (6 fid newfid name)
    then show ?thesis
      using validD [OF binding_valid(2) [OF watch] refl] assms(2) by (simp add: fid_effect_def)
  qed
qed

text \<open>C9. The fid table under every request. If the file system leaves the table alone, a request
  changes the table exactly as its answer says: attach, walk and the opening of
  an extended attribute bind the new fid, which was free, and nothing else, if and
  only if they report success (for a walk, one QID per name, never more); clunk
  and remove unbind their fid whatever they answer; every other request and every
  failure leaves the table as it was.\<close>

theorem dispatch_fid_effect:
  assumes "\<And>f. vfs_contract V c (\<lambda>D s. fids (s_tab s) = f)"
    and "run_state (dispatch V c m) s = (r, s')"
  shows "fid_effect m r (fids (s_tab s)) (fids (s_tab s'))"
  using assms by (rule dispatch_fids)

theorem dispatch_fid_effect_witness:
  "fid_effect (Base (Tclunk 2)) (fst (run_state (dispatch memfs_vfs demo_cfg (Base (Tclunk 2))) demo_open))
     (fids (s_tab demo_open))
     (fids (s_tab (snd (run_state (dispatch memfs_vfs demo_cfg (Base (Tclunk 2))) demo_open))))"
  by (rule dispatch_fid_effect [OF _ prod.collapse [symmetric]])
    (unfold demo_cfg_def, rule mem_watch.vfs_contract_axioms)

section \<open>The last clunk\<close>

lemma card_one_word:
  fixes A :: "u32 set"
  assumes "x \<in> A"
  shows "(of_nat (card A) :: 32 word) = 1 \<longleftrightarrow> A = {x}"
proof
  assume w: "(of_nat (card A) :: 32 word) = 1"
  have "card A \<le> CARD(u32)" by (rule card_mono) simp_all
  then have le: "card A \<le> 2 ^ 32" by (simp add: card_word)
  have "unat (of_nat (card A) :: 32 word) = 1" using w by simp
  then have "card A mod 2 ^ 32 = 1" by (simp add: unsigned_of_nat take_bit_eq_mod)
  then have "card A = 1" using le by (cases "card A = 2 ^ 32") auto
  then show "A = {x}" using assms by (auto simp: card_1_singleton_iff)
qed simp



end
