(* ===== verification/Conn.thy ===== *)
theory Conn
  imports Frame ServerProps
begin

text \<open>
  One connection of the server (\<^verbatim>\<open>src/server/conn.go\<close>, \<^verbatim>\<open>src/internal/wire/wire.go\<close>):
  version negotiation, the reading and decoding of frames, the writing of
  responses, and the request loop from bytes to bytes. The loop is the schedule in
  which a request is answered before the next frame is read (one worker); what
  pipelined requests may do to each other is the subject of the request table and
  of the file system contract. Deadlines of the socket are not modelled: a read
  fails when the input ends.
\<close>

section \<open>Frames on the wire\<close>

definition ReadSize :: "u32 reader" where
  "ReadSize = rd_bind ReadUint32 (\<lambda>sz.
     if unat sz < HeaderSize then rd_fail ErrFrameTooSmall else rd_return sz)"

definition ReadBody :: "nat \<Rightarrow> bytes reader" where
  "ReadBody n = ReadFull n"

section \<open>Version negotiation\<close>

primrec protocol_String :: "protocol \<Rightarrow> gostring" where
  "protocol_String protocolL = gostr ''9P2000.L''"
| "protocol_String protocolU = gostr ''9P2000.u''"
| "protocol_String protocolNone = gostr ''unknown''"

definition minMsize :: u32 where "minMsize = 256"

definition maxVersionFrame :: u32 where "maxVersionFrame = 1024"

record negotiationResult =
  nr_msize :: u32
  nr_selected :: protocol
  nr_version :: gostring

datatype conn_error =
    ReadFailed error
  | VersionFrameTooLarge
  | ErrNotNegotiated
  | ErrMsizeTooSmall
  | DecodeFailed error
  | WriteFailed error

definition negotiate :: "u32 \<Rightarrow> u32 \<Rightarrow> gostring \<Rightarrow> conn_error + negotiationResult" where
  "negotiate maxMsize Msize Version =
     (let msize = min Msize maxMsize in
      if msize < minMsize then Inl ErrMsizeTooSmall
      else if Version = gostr ''9P2000.L'' then
        Inr \<lparr>nr_msize = msize, nr_selected = protocolL, nr_version = Version\<rparr>
      else if Version = gostr ''9P2000.u'' then
        Inr \<lparr>nr_msize = msize, nr_selected = protocolU, nr_version = Version\<rparr>
      else Inr \<lparr>nr_msize = msize, nr_selected = protocolNone, nr_version = gostr ''unknown''\<rparr>)"

definition writeRaw :: "u16 \<Rightarrow> message \<Rightarrow> writer" where
  "writeRaw tag msg = rbind (EncodeTo msg) (\<lambda>body.
     let sz = of_nat HeaderSize + of_nat (length body) :: u32 in
     wseq [WriteUint32 sz, WriteUint8 (Type msg), WriteUint16 tag, Inr body])"

text \<open>The bytes written, and the failure or the negotiated size and dialect with the
  rest of the input.\<close>

definition negotiateVersion :: "u32 \<Rightarrow> bytes \<Rightarrow> bytes \<times> (conn_error + (u32 \<times> protocol) \<times> bytes)" where
  "negotiateVersion maxMsize input =
     (case ReadSize input of
        Inl e \<Rightarrow> ([], Inl (ReadFailed e))
      | Inr (sz, r1) \<Rightarrow>
          if sz > min maxMsize maxVersionFrame then ([], Inl VersionFrameTooLarge)
          else case ReadUint8 r1 of
            Inl e \<Rightarrow> ([], Inl (ReadFailed e))
          | Inr (msgType, r2) \<Rightarrow>
              if msgType \<noteq> 100 then ([], Inl ErrNotNegotiated)
              else case ReadUint16 r2 of
                Inl e \<Rightarrow> ([], Inl (ReadFailed e))
              | Inr (tag, r3) \<Rightarrow> (case ReadFull (unat (sz - of_nat HeaderSize)) r3 of
                  Inl e \<Rightarrow> ([], Inl (ReadFailed e))
                | Inr (body, rest) \<Rightarrow> (case Tversion_DecodeFrom body of
                    Inr (Tversion Msize Version, _) \<Rightarrow> (case negotiate maxMsize Msize Version of
                        Inl e \<Rightarrow> ([], Inl e)
                      | Inr res \<Rightarrow> (case writeRaw tag (Base (Rversion (nr_msize res) (nr_version res))) of
                          Inl e \<Rightarrow> ([], Inl (WriteFailed e))
                        | Inr out \<Rightarrow>
                            if nr_selected res = protocolNone then (out, Inl ErrNotNegotiated)
                            else (out, Inr ((nr_msize res, nr_selected res), rest))))
                  | Inr (_, _) \<Rightarrow> ([], Inl ErrNotNegotiated)
                  | Inl e \<Rightarrow> ([], Inl (DecodeFailed e)))))"

section \<open>Reading requests\<close>

text \<open>The request types a connection accepts, by dialect.\<close>

definition base_requests :: "u8 list" where
  "base_requests = [104, 110, 120, 108, 102, 116, 118, 122]"

definition newLMessage :: "u8 \<Rightarrow> l_msg option" where
  "newLMessage t = (if t \<in> set [12, 14, 24, 26, 40, 72, 16, 70, 18, 22, 8, 50, 76, 74, 20, 52, 54, 30, 32]
     then newLMsg t else None)"

definition newUMessage :: "u8 \<Rightarrow> u_msg option" where
  "newUMessage t = (if t \<in> set [112, 114, 124, 126] then newUMsg t else None)"

definition conn_newMessage :: "protocol \<Rightarrow> u8 \<Rightarrow> message option" where
  "conn_newMessage p t =
     (if t \<in> set base_requests then map_option Base (NewBaseMessage t)
      else case p of
        protocolL \<Rightarrow> map_option L (newLMessage t)
      | protocolU \<Rightarrow> map_option U (newUMessage t)
      | protocolNone \<Rightarrow> None)"

text \<open>The shapes of \<^verbatim>\<open>recvFrame\<close>. \<^verbatim>\<open>None\<close> as the result of \<^verbatim>\<open>readFrameLocked\<close> shuts the
  receive path down.\<close>

datatype recvFrame =
    UnknownType u16
  | Renegotiate u16 bytes
  | DecodeErr
  | Request u16 message

definition decode_request :: "message \<Rightarrow> bytes \<Rightarrow> message option" where
  "decode_request m0 b = (case m0 of
       Base (Twrite _ _ _) \<Rightarrow> (case Twrite_DecodeFromBuf b of Inl _ \<Rightarrow> None | Inr tw \<Rightarrow> Some (Base tw))
     | _ \<Rightarrow> (case DecodeFrom m0 b of Inl _ \<Rightarrow> None | Inr (m, _) \<Rightarrow> Some m))"

definition readFrameLocked :: "('n, 'h, 'x, 'w) cfg \<Rightarrow> bytes \<Rightarrow> (recvFrame \<times> bytes) option" where
  "readFrameLocked c input =
     (case ReadSize input of
        Inl _ \<Rightarrow> None
      | Inr (sz, r1) \<Rightarrow>
          if sz > c_msize c then None
          else case ReadBody (unat (sz - 4)) r1 of
            Inl _ \<Rightarrow> None
          | Inr (b, rest) \<Rightarrow>
              let msgType = b ! 0; tag = le_word (take 2 (drop 1 b)); body = drop 3 b in
              Some (if msgType = 100 then Renegotiate tag body
                    else case conn_newMessage (c_protocol c) msgType of
                      None \<Rightarrow> UnknownType tag
                    | Some m0 \<Rightarrow> (case decode_request m0 body of
                        None \<Rightarrow> DecodeErr
                      | Some m \<Rightarrow> Request tag m), rest))"

section \<open>Writing responses\<close>

text \<open>The fixed part and the payload of a response; only \<^verbatim>\<open>Rread\<close> and \<^verbatim>\<open>Rreaddir\<close> are
  payloaders among the responses.\<close>

definition response_parts :: "message \<Rightarrow> (bytes \<times> bytes) result" where
  "response_parts m = (case m of
       Base (Rread d) \<Rightarrow> rbind (Rread_EncodeFixed d) (\<lambda>b. Inr (b, d))
     | L (Rreaddir d) \<Rightarrow> rbind (Rreaddir_EncodeFixed d) (\<lambda>b. Inr (b, d))
     | _ \<Rightarrow> rbind (EncodeTo m) (\<lambda>b. Inr (b, [])))"

definition response_frame :: "u16 \<Rightarrow> message \<Rightarrow> writer" where
  "response_frame tag m = rbind (response_parts m) (\<lambda>(body, payload).
     let sz = of_nat HeaderSize + of_nat (length body) + of_nat (length payload) :: u32 in
     Inr ((le_bytes 4 sz @ [Type m] @ le_bytes 2 tag) @ body @ payload))"

text \<open>A response that cannot be encoded is replaced by \<^verbatim>\<open>EIO\<close>.\<close>

definition sendResponseInline :: "('n, 'h, 'x, 'w) cfg \<Rightarrow> u16 \<Rightarrow> message \<Rightarrow> bytes" where
  "sendResponseInline c tag m = (case response_frame tag m of
       Inr bs \<Rightarrow> bs
     | Inl _ \<Rightarrow> (case response_frame tag (errorMsg c EIO) of Inr bs \<Rightarrow> bs | Inl _ \<Rightarrow> []))"

section \<open>The connection\<close>

record ('n, 'h, 'x, 'w) conn =
  cn_cfg :: "('n, 'h, 'x, 'w) cfg"
  cn_srv :: "('n, 'h, 'x, 'w) srv"
  cn_maxMsize :: u32
  cn_lastNegotiation :: int

definition negotiationRateLimit :: int where "negotiationRateLimit = 100000000"

text \<open>Renegotiation: \<^verbatim>\<open>order\<close> is the order in which the clunked fid states are visited,
  \<^verbatim>\<open>now\<close> the clock. The result is what is written, whether the connection is closed,
  and the connection. With one worker nothing is in flight, so the drain succeeds.\<close>

definition handleReVersion :: "('n, 'h, 'x, 'w) vfs \<Rightarrow> (nat set \<Rightarrow> nat list) \<Rightarrow> int \<Rightarrow> u16 \<Rightarrow> bytes
    \<Rightarrow> ('n, 'h, 'x, 'w) conn \<Rightarrow> bytes \<times> bool \<times> ('n, 'h, 'x, 'w) conn" where
  "handleReVersion V order now tag body cn =
     (if now - cn_lastNegotiation cn < negotiationRateLimit then ([], False, cn)
      else
        let srv = snd (run_state (cleanup_fids V True (order (fst (clunkAll (s_tab (cn_srv cn)))))) (cn_srv cn));
            cn = cn\<lparr>cn_lastNegotiation := now, cn_srv := srv\<rparr>
        in case Tversion_DecodeFrom body of
             Inr (Tversion Msize Version, _) \<Rightarrow> (case negotiate (cn_maxMsize cn) Msize Version of
                 Inl _ \<Rightarrow> ([], True, cn)
               | Inr res \<Rightarrow> (case writeRaw tag (Base (Rversion (nr_msize res) (nr_version res))) of
                   Inl _ \<Rightarrow> ([], True, cn)
                 | Inr out \<Rightarrow>
                     if nr_selected res = protocolNone then (out, False, cn)
                     else (out, False,
                       cn\<lparr>cn_cfg := (cn_cfg cn)\<lparr>c_msize := nr_msize res, c_protocol := nr_selected res\<rparr>\<rparr>)))
           | _ \<Rightarrow> ([], True, cn))"

datatype ending = Closed | Blocked

text \<open>The loop of \<^verbatim>\<open>handleRequest\<close>. \<^verbatim>\<open>clock k\<close> is the time when frame number \<^verbatim>\<open>k\<close> is
  handled. With one worker a \<^verbatim>\<open>Tflush\<close> finds nothing in flight and is answered at
  once, and no tag is in use when a request starts.\<close>

definition request_step :: "('n, 'h, 'x, 'w) vfs \<Rightarrow> ('n, 'h, 'x, 'w) cfg \<Rightarrow> u16 \<Rightarrow> message \<Rightarrow> ('n, 'h, 'x, 'w) srv
    \<Rightarrow> bytes option \<times> ('n, 'h, 'x, 'w) srv" where
  "request_step V c tag m s = (case m of
       Base (Tflush _) \<Rightarrow> (Some (sendResponseInline c tag (Base Rflush)), s)
     | _ \<Rightarrow> (case run_state (dispatch V c m) s of
         (Deadlock, s') \<Rightarrow> (None, s')
       | (Reply r, s') \<Rightarrow> (Some (sendResponseInline c tag r), s')))"

definition sends :: "bytes \<Rightarrow> bytes \<times> ending \<times> 'c \<Rightarrow> bytes \<times> ending \<times> 'c" where
  "sends out r = (case r of (later, e, cn) \<Rightarrow> (out @ later, e, cn))"

lemma readFrame_shorter: "readFrameLocked c input = Some (f, rest) \<Longrightarrow> length rest < length input"
  by (auto simp: readFrameLocked_def ReadSize_def ReadBody_def codec_iff Let_def split: sum.splits if_splits
      prod.splits)

text \<open>One frame of the loop: what is written, how the loop ends (if it does), the
  connection and the rest of the input.\<close>

definition conn_step :: "('n, 'h, 'x, 'w) vfs \<Rightarrow> (nat set \<Rightarrow> nat list) \<Rightarrow> int
    \<Rightarrow> ('n, 'h, 'x, 'w) conn \<Rightarrow> bytes \<Rightarrow> bytes \<times> ending option \<times> ('n, 'h, 'x, 'w) conn \<times> bytes" where
  "conn_step V order now cn input =
     (case readFrameLocked (cn_cfg cn) input of
        None \<Rightarrow> ([], Some Closed, cn, input)
      | Some (Renegotiate tag body, rest) \<Rightarrow>
          (case handleReVersion V order now tag body cn of
             (out, closed, cn') \<Rightarrow> (out, if closed then Some Closed else None, cn', rest))
      | Some (UnknownType tag, rest) \<Rightarrow>
          (sendResponseInline (cn_cfg cn) tag (errorMsg (cn_cfg cn) ENOSYS), None, cn, rest)
      | Some (DecodeErr, rest) \<Rightarrow> ([], Some Closed, cn, rest)
      | Some (Request tag m, rest) \<Rightarrow>
          (case request_step V (cn_cfg cn) tag m (cn_srv cn) of
             (None, s) \<Rightarrow> ([], Some Blocked, cn\<lparr>cn_srv := s\<rparr>, rest)
           | (Some out, s) \<Rightarrow> (out, None, cn\<lparr>cn_srv := s\<rparr>, rest)))"

lemma conn_step_shorter: "conn_step V order now cn input = (out, None, cn', rest) \<Longrightarrow> length rest < length input"
  by (auto simp: conn_step_def dest: readFrame_shorter split: option.splits recvFrame.splits prod.splits if_splits)

function serve_conn :: "('n, 'h, 'x, 'w) vfs \<Rightarrow> (nat set \<Rightarrow> nat list) \<Rightarrow> (nat \<Rightarrow> int) \<Rightarrow> nat
    \<Rightarrow> ('n, 'h, 'x, 'w) conn \<Rightarrow> bytes \<Rightarrow> bytes \<times> ending \<times> ('n, 'h, 'x, 'w) conn" where
  "serve_conn V order clock k cn input =
     (case conn_step V order (clock k) cn input of
        (out, Some e, cn', _) \<Rightarrow> (out, e, cn')
      | (out, None, cn', rest) \<Rightarrow> sends out (serve_conn V order clock (Suc k) cn' rest))"
  by pat_completeness auto
termination
  by (relation "measure (\<lambda>(V, order, clock, k, cn, input). length input)")
    (auto dest: conn_step_shorter [OF sym])

declare serve_conn.simps [simp del]

lemma request_step_dispatch:
  assumes "\<And>t. m \<noteq> Base (Tflush t)"
  shows "request_step V c tag m s = (case run_state (dispatch V c m) s of
      (Deadlock, s') \<Rightarrow> (None, s') | (Reply r, s') \<Rightarrow> (Some (sendResponseInline c tag r), s'))"
proof (cases m)
  case (Base b)
  then show ?thesis using assms by (cases b) (simp_all add: request_step_def del: dispatch.simps)
qed (simp_all add: request_step_def del: dispatch.simps)

section \<open>Frames\<close>

text \<open>The three writers of the server produce the frame of \<^verbatim>\<open>EncodeFrame\<close>.\<close>

lemma writeRaw_frame: "writeRaw tag m = EncodeFrame tag m"
  by (cases "EncodeTo m")
    (simp_all add: writeRaw_def EncodeFrame_def Let_def WriteUint32_def WriteUint8_def WriteUint16_def)

lemma response_frame_eq: "response_frame tag m = EncodeFrame tag m"
proof (cases "(\<exists>d. m = Base (Rread d)) \<or> (\<exists>d. m = L (Rreaddir d))")
  case True
  then obtain d where "m = Base (Rread d) \<or> m = L (Rreaddir d)" by auto
  then show ?thesis
    by (cases "Rread_EncodeFixed d"; cases "Rreaddir_EncodeFixed d")
      (auto simp: response_frame_def response_parts_def EncodeFrame_def Rread_EncodeTo_def Rreaddir_EncodeTo_def
        WriteRaw_def Let_def)
next
  case False
  then have "response_parts m = rbind (EncodeTo m) (\<lambda>b. Inr (b, []))"
    by (auto simp: response_parts_def split: message.split base_msg.split l_msg.split)
  then show ?thesis
    by (cases "EncodeTo m") (simp_all add: response_frame_def EncodeFrame_def Let_def)
qed

lemma errorMsg_encodes: "\<exists>bs. EncodeFrame tag (errorMsg c errno) = Inr bs"
  using Errno_Error_length [of errno]
  by (auto simp: EncodeFrame_def errorMsg_def codec_defs WriteString_def MaxStringLen_def WriteUint32_def
      split: protocol.split)

lemma sendResponse_frame:
  "EncodeFrame tag m = Inr (sendResponseInline c tag m)
   \<or> (\<exists>e. EncodeFrame tag m = Inl e) \<and> EncodeFrame tag (errorMsg c EIO) = Inr (sendResponseInline c tag m)"
  using errorMsg_encodes [of tag c EIO]
  by (cases "EncodeFrame tag m") (auto simp: sendResponseInline_def response_frame_eq)

section \<open>Requests\<close>

primrec speaks_of :: "protocol \<Rightarrow> message \<Rightarrow> bool" where
  "speaks_of protocolL m = p9l_speaks m"
| "speaks_of protocolU m = p9u_speaks m"
| "speaks_of protocolNone m = False"

lemma base_requests_shared: "t \<in> set base_requests \<Longrightarrow> newLMsg t = None \<and> newUMsg t = None"
  unfolding base_requests_def by (simp, elim disjE; simp add: newLMsg_def newUMsg_def)

lemma conn_newMessage_dialect:
  "conn_newMessage protocolL t = Some m0 \<Longrightarrow> p9l_newMessage t = Inr m0"
  "conn_newMessage protocolU t = Some m0 \<Longrightarrow> p9u_newMessage t = Inr m0"
  using base_requests_shared [of t]
  by (auto simp: conn_newMessage_def p9l_newMessage_def p9u_newMessage_def newLMessage_def newUMessage_def
      split: if_splits option.splits)

lemma decode_request_run:
  assumes "speaks_of p m" "conn_newMessage p (Type m) = Some m0" "EncodeTo m = Inr b" "length b < 2 ^ 32"
  shows "decode_request m0 b = Some m"
proof -
  have "codec EncodeTo (DecodeFrom m0) (\<lambda>x. speaks_of p x \<and> Type x = Type m)"
    using assms(1,2) by (cases p) (auto dest!: conn_newMessage_dialect intro: p9l.body p9u.body)
  then have dec: "DecodeFrom m0 b = Inr (m, [])"
    using assms(1,3) by (auto intro!: codec.roundtrip_exact)
  show ?thesis
  proof (cases "\<exists>f off d. m0 = Base (Twrite f off d)")
    case True
    then obtain tw where tw: "Twrite_DecodeFrom b = Inr (tw, [])" "m = Base tw" "\<exists>f off d. m0 = Base (Twrite f off d)"
      using dec by (auto simp: rd_map_iff)
    then have "Twrite_DecodeFromBuf b = Inr tw" using Twrite_DecodeFromBuf_iff [OF assms(4)] by blast
    then show ?thesis using tw by (auto simp: decode_request_def)
  next
    case False
    then have "decode_request m0 b = (case DecodeFrom m0 b of Inl _ \<Rightarrow> None | Inr (m, _) \<Rightarrow> Some m)"
      by (auto simp: decode_request_def split: message.split base_msg.split)
    then show ?thesis by (simp add: dec)
  qed
qed

text \<open>The size and the body of a frame, read back.\<close>

lemma ReadSize_frame:
  assumes "EncodeFrame tag m = Inr p"
  obtains b sz where "EncodeTo m = Inr b" "length p = 7 + length b" "drop 4 p = Type m # le_bytes 2 tag @ b"
    "unat sz = 7 + length b" "\<And>rest. ReadSize (p @ rest) = Inr (sz, Type m # le_bytes 2 tag @ b @ rest)"
proof -
  obtain b where b: "EncodeTo m = Inr b"
    and p: "p = le_bytes 4 (of_nat (HeaderSize + length b) :: u32) @ [Type m] @ le_bytes 2 tag @ b"
    using assms by (auto simp: EncodeFrame_def rbind_Inr_iff)
  have lt: "HeaderSize + length b < 2 ^ 32"
    using EncodeTo_fits [OF b] by (simp add: MaxMessageSize_def proto_consts)
  define sz where "sz = (of_nat (HeaderSize + length b) :: u32)"
  have sz: "unat sz = HeaderSize + length b" unfolding sz_def using lt by (intro unat_of_nat_small) simp
  have "ReadSize (p @ rest) = Inr (sz, Type m # le_bytes 2 tag @ b @ rest)" for rest
    using sz by (simp add: ReadSize_def p sz_def [symmetric] codec_run del: of_nat_add)
  then show ?thesis by (intro that [OF b]) (use p sz in \<open>simp_all add: HeaderSize_def\<close>)
qed

lemma readFrame_run:
  assumes "speaks_of (c_protocol c) m" "conn_newMessage (c_protocol c) (Type m) \<noteq> None"
    and "EncodeFrame tag m = Inr p" "length p \<le> unat (c_msize c)"
  shows "readFrameLocked c (p @ rest) = Some (Request tag m, rest)"
  using assms(3)
proof (rule ReadSize_frame)
  fix b sz assume b: "EncodeTo m = Inr b" and len: "length p = 7 + length b" and sz: "unat sz = 7 + length b"
    and size: "\<And>rest. ReadSize (p @ rest) = Inr (sz, Type m # le_bytes 2 tag @ b @ rest)"
  obtain m0 where m0: "conn_newMessage (c_protocol c) (Type m) = Some m0" using assms(2) by blast
  have "(4 :: u32) \<le> sz" unfolding word_le_nat_alt sz by simp
  then have "unat (sz - 4) = unat sz - unat (4 :: u32)" by (rule unat_sub)
  then have "unat (sz - 4) = 3 + length b" unfolding sz by simp
  then have body: "ReadBody (unat (sz - 4)) (Type m # le_bytes 2 tag @ b @ rest)
      = Inr (Type m # le_bytes 2 tag @ b, rest)"
    by (simp add: ReadBody_def ReadFull_iff)
  have "\<not> sz > c_msize c" using sz len assms(4) by (simp add: word_less_nat_alt)
  moreover have "Type m \<noteq> 100"
    using m0 by (auto simp: conn_newMessage_def base_requests_def newLMessage_def newUMessage_def split: protocol.splits)
  moreover have "length b < 2 ^ 32"
    using EncodeTo_fits [OF b] by (simp add: MaxMessageSize_def proto_consts)
  ultimately show ?thesis
    using decode_request_run [OF assms(1) m0 b]
    by (simp add: readFrameLocked_def size body Let_def m0)
qed

text \<open>A batch of requests the connection accepts, as the client sends them.\<close>

definition request_ok :: "('n, 'h, 'x, 'w) cfg \<Rightarrow> u16 \<times> message \<Rightarrow> bool" where
  "request_ok c r = (case r of (tag, m) \<Rightarrow>
     speaks_of (c_protocol c) m \<and> conn_newMessage (c_protocol c) (Type m) \<noteq> None \<and> Type m \<noteq> 108
     \<and> (case EncodeFrame tag m of Inl _ \<Rightarrow> False | Inr p \<Rightarrow> length p \<le> unat (c_msize c)))"

definition reply_to :: "('n, 'h, 'x, 'w) cfg \<Rightarrow> (u16 \<times> message) \<times> outcome \<Rightarrow> bytes" where
  "reply_to c x = (case x of ((tag, _), Reply r) \<Rightarrow> sendResponseInline c tag r | (_, Deadlock) \<Rightarrow> [])"

text \<open>One request is read, handled and answered.\<close>

lemma conn_step_request:
  assumes "request_ok (cn_cfg cn) (tag, m)" "EncodeFrame tag m = Inr p"
    "run_state (dispatch V (cn_cfg cn) m) (cn_srv cn) = (Reply r, s')"
  shows "conn_step V order now cn (p @ rest)
    = (sendResponseInline (cn_cfg cn) tag r, None, cn\<lparr>cn_srv := s'\<rparr>, rest)"
proof -
  have frame: "readFrameLocked (cn_cfg cn) (p @ rest) = Some (Request tag m, rest)"
    by (rule readFrame_run) (use assms(1,2) in \<open>auto simp: request_ok_def\<close>)
  have "m \<noteq> Base (Tflush t)" for t using assms(1) by (auto simp: request_ok_def)
  note step = request_step_dispatch [of m, OF this]
  show ?thesis by (simp add: conn_step_def frame step assms(3))
qed


definition demo_wire :: "(u16 \<times> message) list" where
  "demo_wire = [(1, Base (Tattach 1 NoFid [] [] NoFid)), (2, Base (Twalk 1 2 [[97]])), (3, Base (Tread 2 0 9))]"

definition demo_conn :: "(nat, unit, unit, memfs) conn" where
  "demo_conn = \<lparr>cn_cfg = demo_cfg, cn_srv = demo_tree, cn_maxMsize = 65536, cn_lastNegotiation = 0\<rparr>"


text \<open>C25. What negotiation agrees on. If the handshake succeeds, the message size lies between 256
  and the server's limit and does not exceed the client's, the dialect is one of
  the two supported, and the server has answered with exactly one \<^verbatim>\<open>Rversion\<close> frame
  naming that size and dialect.\<close>

theorem negotiation_sound:
  assumes "negotiateVersion maxMsize input = (out, Inr ((msize, p), rest))"
  shows "\<exists>tag Msize. minMsize \<le> msize \<and> msize \<le> maxMsize \<and> msize \<le> Msize \<and> p \<noteq> protocolNone
    \<and> EncodeFrame tag (Base (Rversion msize (protocol_String p))) = Inr out
    \<and> (\<exists>sz body r. input = le_bytes 4 (sz :: u32) @ [100] @ le_bytes 2 tag @ body @ rest
        \<and> sz \<le> maxVersionFrame \<and> Tversion_DecodeFrom body = Inr (Tversion Msize (protocol_String p), r))"
proof -
  obtain sz r1 tag r2 r3 body b r Msize Version res where
    steps: "ReadSize input = Inr (sz, r1)" "\<not> sz > min maxMsize maxVersionFrame" "ReadUint8 r1 = Inr (100, r2)"
      "ReadUint16 r2 = Inr (tag, r3)" "ReadFull (unat (sz - of_nat HeaderSize)) r3 = Inr (body, rest)"
      "Tversion_DecodeFrom body = Inr (Tversion Msize Version, r)" "negotiate maxMsize Msize Version = Inr res"
      "writeRaw tag (Base (Rversion (nr_msize res) (nr_version res))) = Inr out" "nr_selected res \<noteq> protocolNone"
      "msize = nr_msize res" "p = nr_selected res"
    using assms unfolding negotiateVersion_def
    by (auto split: sum.splits prod.splits if_splits base_msg.splits)
  have "Version = protocol_String p \<and> nr_version res = Version \<and> msize = min Msize maxMsize \<and> minMsize \<le> msize"
    using steps(7,9-11) by (auto simp: negotiate_def Let_def not_less split: if_splits)
  moreover have "input = le_bytes 4 sz @ [100] @ le_bytes 2 tag @ body @ rest"
    using steps(1-5) by (auto simp: ReadSize_def codec_iff split: if_splits)
  ultimately show ?thesis
    using steps by (intro exI [of _ tag] exI [of _ Msize]) (auto simp: writeRaw_frame not_less)
qed

text \<open>The handshake of a client that proposes 9P2000.L with 4096 bytes.\<close>

theorem negotiation_sound_witness:
  "\<exists>tag Msize. minMsize \<le> 4096 \<and> 4096 \<le> (65536 :: u32) \<and> 4096 \<le> Msize \<and> protocolL \<noteq> protocolNone
    \<and> EncodeFrame tag (Base (Rversion 4096 (protocol_String protocolL)))
      = Inr (fst (negotiateVersion 65536 ([21, 0, 0, 0, 100, 255, 255, 0, 16, 0, 0, 8, 0] @ gostr ''9P2000.L'')))
    \<and> (\<exists>sz body r. [21, 0, 0, 0, 100, 255, 255, 0, 16, 0, 0, 8, 0] @ gostr ''9P2000.L''
          = le_bytes 4 (sz :: u32) @ [100] @ le_bytes 2 tag @ body @ []
        \<and> sz \<le> maxVersionFrame \<and> Tversion_DecodeFrom body = Inr (Tversion Msize (protocol_String protocolL), r))"
proof (rule negotiation_sound)
  show "negotiateVersion 65536 ([21, 0, 0, 0, 100, 255, 255, 0, 16, 0, 0, 8, 0] @ gostr ''9P2000.L'')
    = (fst (negotiateVersion 65536 ([21, 0, 0, 0, 100, 255, 255, 0, 16, 0, 0, 8, 0] @ gostr ''9P2000.L'')),
       Inr ((4096, protocolL), []))"
    by (rule prod_eqI)
      (simp_all add: negotiateVersion_def ReadSize_def rd_bind_def rd_return_def ReadUint32_def ReadLE_def
        ReadUint8_def ReadUint16_def ReadFull_def HeaderSize_def maxVersionFrame_def Tversion_DecodeFrom_def
        ReadString_def MaxStringLen_def negotiate_def minMsize_def writeRaw_def codec_defs WriteString_def
        WriteUint32_def WriteUint16_def WriteUint8_def Let_def gostr_def)
qed

section \<open>Sizes of responses\<close>

text \<open>The requests whose answer carries a string chosen by the file system.\<close>

fun unbounded_reply :: "message \<Rightarrow> bool" where
  "unbounded_reply (L (Treadlink _)) = True"
| "unbounded_reply (L (Tgetlock _ _ _ _ _ _)) = True"
| "unbounded_reply (U (Tstat _)) = True"
| "unbounded_reply _ = False"

fun too_many_names :: "message \<Rightarrow> bool" where
  "too_many_names (Base (Twalk _ _ names)) = (length names > MaxWalkElements)"
| "too_many_names _ = False"

definition small_types :: "u8 list" where
  "small_types = [9, 13, 15, 17, 19, 21, 25, 27, 31, 33, 51, 53, 71, 73, 75, 77, 105, 113, 115, 119, 121, 123]"

lemma small_reply: "Type r \<in> set small_types \<Longrightarrow> EncodeTo r = Inr p \<Longrightarrow> length p \<le> 217"
proof (cases r)
  case (Base b)
  then show "Type r \<in> set small_types \<Longrightarrow> EncodeTo r = Inr p \<Longrightarrow> ?thesis"
    by (cases b) (simp_all add: small_types_def codec_defs rbind_Inr_iff, auto simp: codec_iff)
next
  case (L l)
  then show "Type r \<in> set small_types \<Longrightarrow> EncodeTo r = Inr p \<Longrightarrow> ?thesis"
    by (cases l) (simp_all add: small_types_def codec_defs rbind_Inr_iff, auto simp: codec_iff)
next
  case (U u)
  then show "Type r \<in> set small_types \<Longrightarrow> EncodeTo r = Inr p \<Longrightarrow> ?thesis"
    by (cases u) (simp_all add: small_types_def codec_defs rbind_Inr_iff, auto simp: codec_iff)
qed

lemma reply_kind:
  assumes "fst (run_state (dispatch V c m) s) = Reply r" "\<not> unbounded_reply m"
  shows "(\<exists>errno. r = errorMsg c errno) \<or> Type r \<in> set small_types
    \<or> (\<exists>fid off cnt. m = Base (Tread fid off cnt) \<or> m = L (Treaddir fid off cnt))
    \<or> (\<exists>fid newfid names. m = Base (Twalk fid newfid names))"
proof -
  have ans: "Type r = Type m + 1 \<or> (\<exists>errno. r = errorMsg c errno)"
    using yieldsD [OF dispatch_answers, of c m V s] assms(1) by (auto simp: answers_def is_error_def)
  show ?thesis
  proof (cases m)
    case (Base b)
    then show ?thesis using assms ans by (cases b) (auto simp: small_types_def)
  next
    case (L l)
    then show ?thesis using assms ans by (cases l) (auto simp: small_types_def)
  next
    case (U u)
    then show ?thesis using assms ans by (cases u) (auto simp: small_types_def)
  qed
qed

lemma WriteQIDs_length: "wseq (map WriteQID qs) = Inr p \<Longrightarrow> length p = 13 * length qs"
  by (induction qs arbitrary: p) (auto simp: rbind_Inr_iff codec_defs codec_iff WriteQID_def)

lemma Type_walk: "Type r = 111 \<Longrightarrow> \<exists>qids. r = Base (Rwalk qids)"
proof (cases r)
  case (Base b)
  then show "Type r = 111 \<Longrightarrow> ?thesis" by (cases b) simp_all
next
  case (L l)
  then show "Type r = 111 \<Longrightarrow> ?thesis" by (cases l) simp_all
next
  case (U u)
  then show "Type r = 111 \<Longrightarrow> ?thesis" by (cases u) simp_all
qed

lemma walk_reply_length:
  "yields (\<lambda>r. case r of Reply (Base (Rwalk qids)) \<Rightarrow> length qids \<le> length names | _ \<Rightarrow> True)
     (handleWalk V c fid newfid names)"
proof -
  let ?Q = "\<lambda>r. case r of Reply (Base (Rwalk qids)) \<Rightarrow> length qids \<le> length names | _ \<Rightarrow> True"
  have error: "yields ?Q (fail c errno)" for errno
    by (rule yields_return) (simp add: errorMsg_def split: protocol.split)
  have walk: "yields ?Q (reply (Base (Rwalk qids)))" if "length qids \<le> length names" for qids
    using that by (intro yields_return) simp
  show ?thesis
    unfolding handleWalk_def
    by (intro yields_bind_with [OF walk_loop_length [where qids = "[]"]] yields_option yields_if yields_sum
        yields_prod yields_let yields_bind error walk)
      auto
qed

lemma reply_fits:
  assumes "minMsize \<le> c_msize c" "\<not> unbounded_reply m" "\<not> too_many_names m"
    and "fst (run_state (dispatch V c m) s) = Reply r" "EncodeFrame tag r = Inr bs"
  shows "length bs \<le> unat (c_msize c)"
proof -
  have m: "256 \<le> c_msize c" "256 \<le> unat (c_msize c)"
    using assms(1) by (auto simp: minMsize_def word_le_nat_alt)
  obtain p where p: "EncodeTo r = Inr p" "length bs = 7 + length p"
    using assms(5) by (auto simp: EncodeFrame_def rbind_Inr_iff)
  from reply_kind [OF assms(4,2)] consider
    (error) errno where "r = errorMsg c errno" | (small) "Type r \<in> set small_types"
    | (data) fid off cnt where "m = Base (Tread fid off cnt) \<or> m = L (Treaddir fid off cnt)"
    | (walk) fid newfid names where "m = Base (Twalk fid newfid names)"
    by blast
  then show ?thesis
  proof cases
    case error
    then show ?thesis using error_fits assms(5) m(2) by fastforce
  next
    case small
    then show ?thesis using small_reply p m(2) by fastforce
  next
    case data
    then show ?thesis using data_reply_fits [where V = V and fid = fid and off = off and cnt = cnt and s = s, OF m(1) _ assms(5)] assms(4)
      by auto
  next
    case walk
    have names: "length names \<le> 16" using assms(3) by (simp add: walk MaxWalkElements_def)
    have "answers c False 111 (Reply r)"
      using yieldsD [OF dispatch_answers, of c m V s] assms(4) by (simp add: walk)
    then consider (err) errno where "r = errorMsg c errno" | (qids) "Type r = 111"
      by (auto simp: answers_def is_error_def)
    then show ?thesis
    proof cases
      case err
      then show ?thesis using error_fits assms(5) m(2) by fastforce
    next
      case qids
      then obtain qs where "r = Base (Rwalk qs)" using Type_walk by blast
      then show ?thesis
        using yieldsD [OF walk_reply_length, of names V c fid newfid s] assms(4) names p m(2)
        by (auto simp: walk codec_defs rbind_Inr_iff codec_iff dest!: WriteQIDs_length)
    qed
  qed
qed

text \<open>C12. Answers fit the negotiated message size. With a negotiated size (at least 256), the
  response frame of every request is no longer than that size, whatever the file
  system returns, except for the three requests whose answer carries a string
  chosen by the file system: \<^verbatim>\<open>Treadlink\<close>, \<^verbatim>\<open>Tgetlock\<close> and \<^verbatim>\<open>Tstat\<close>. (A \<^verbatim>\<open>Twalk\<close> has at most
  \<^verbatim>\<open>MaxWalkElements\<close> names, which its decoder enforces.)\<close>

theorem reply_fits_msize:
  assumes "minMsize \<le> c_msize c" "\<not> unbounded_reply m" "\<not> too_many_names m"
    and "fst (run_state (dispatch V c m) s) = Reply r" "EncodeFrame tag r = Inr bs"
  shows "length bs \<le> unat (c_msize c)"
  using assms by (rule reply_fits)

theorem reply_fits_msize_witness:
  "\<exists>bs. EncodeFrame 5 (Base (Rread [1, 2, 3])) = Inr bs \<and> length bs \<le> 256"
proof -
  let ?c = "mem_cfg 256 protocolL 3 0"
  have run: "fst (run_state (dispatch memfs_vfs ?c (Base (Tread 2 0 9))) demo_open) = Reply (Base (Rread [1, 2, 3]))"
  proof -
    have "opened_on demo_open 2 1" by (simp add: demo_open_def demo_defs run_defs opened_on_def)
    moreover have "node_at 1 demo_open = MemFile [1, 2, 3] 0x1A4 0 0" by (simp add: demo_open_def demo_defs run_defs)
    ultimately have "run_state (handleRead memfs_vfs ?c 2 0 9) demo_open
        = (Reply (Base (Rread (read_at [1, 2, 3] (unat (clampCount ?c 9)) 0))), demo_open)"
      by (rule run_handleRead)
    then show ?thesis by (simp add: read_at_eq clampCount_def mem_cfg_def HeaderSize_def)
  qed
  obtain bs where bs: "EncodeFrame 5 (Base (Rread [1, 2, 3])) = Inr bs"
    by (simp add: EncodeFrame_def codec_defs WriteUint32_def MaxDataSize_def WriteRaw_def)
  have "length bs \<le> unat (c_msize ?c)"
    by (rule reply_fits_msize [OF _ _ _ run bs]) (simp_all add: minMsize_def mem_cfg_def)
  then show ?thesis using bs by (simp add: mem_cfg_def)
qed

text \<open>C38. The exception is real: no check stands between a handler's reply and the wire. If the
  node a fid is bound to returns a link target within nine bytes of the negotiated
  size or longer, the server answers \<^verbatim>\<open>Treadlink\<close> with a frame longer than the size
  it negotiated, which a peer treats as a protocol violation.\<close>

theorem readlink_reply_exceeds_msize:
  assumes "get (s_tab s) fid = Some a" "n_Readlink V (fs_node (deref (s_tab s) a)) = Some f"
    and "run_state f s = (Inr target, s')" "length target \<le> MaxStringLen" "unat (c_msize c) < 9 + length target"
  shows "\<exists>r. fst (run_state (dispatch V c (L (Treadlink fid))) s) = Reply r
    \<and> length (sendResponseInline c tag r) > unat (c_msize c)"
proof -
  have "fst (run_state (dispatch V c (L (Treadlink fid))) s) = Reply (L (Rreadlink target))"
    using assms(1-3) by (simp add: handleReadlink_def fid_get_def currentNode_def)
  moreover have "EncodeTo (L (Rreadlink target)) = Inr (le_bytes 2 (of_nat (length target) :: u16) @ target)"
    using assms(4) by (simp add: codec_defs WriteString_def)
  then have "length (sendResponseInline c tag (L (Rreadlink target))) = 9 + length target"
    by (simp add: sendResponseInline_def response_frame_eq EncodeFrame_def)
  ultimately show ?thesis using assms(5) by auto
qed

definition demo_target :: gostring where
  "demo_target = replicate 300 120"

definition demo_link :: mem_srv where
  "demo_link = snd (run_state (do {
     root \<leftarrow> NewDir;
     _ \<leftarrow> AddSymlink root [108] demo_target;
     _ \<leftarrow> dispatch memfs_vfs (mem_cfg 256 protocolL 3 0) (Base (Tattach 1 NoFid [] [] NoFid));
     _ \<leftarrow> dispatch memfs_vfs (mem_cfg 256 protocolL 3 0) (Base (Twalk 1 2 [[108]]));
     ret () }) empty_mem)"

theorem readlink_reply_exceeds_msize_witness:
  "\<exists>r. fst (run_state (dispatch memfs_vfs (mem_cfg 256 protocolL 3 0) (L (Treadlink 2))) demo_link) = Reply r
    \<and> length (sendResponseInline (mem_cfg 256 protocolL 3 0) 7 r) > unat (c_msize (mem_cfg 256 protocolL 3 0))"
proof -
  have fid: "get (s_tab demo_link) 2 = Some 1" "fs_node (deref (s_tab demo_link) 1) = 1"
    "node_at 1 demo_link = Symlink demo_target"
    by (simp_all add: demo_link_def demo_defs run_defs AddSymlink_def SymlinkTo_def)
  have run: "run_state (mem_Readlink 1) demo_link = (Inr demo_target, demo_link)"
    using fid(3) by (simp add: mem_Readlink_def)
  have link: "n_Readlink memfs_vfs (fs_node (deref (s_tab demo_link) 1)) = Some (mem_Readlink 1)"
    unfolding fid(2) by (simp add: memfs_simps)
  have "length demo_target = 300" unfolding demo_target_def by (rule length_replicate)
  then show ?thesis
    by (intro readlink_reply_exceeds_msize [OF fid(1) link run]) (simp_all add: MaxStringLen_def mem_cfg_def)
qed

end
