(* ===== verification/ClientIds.thy ===== *)
theory ClientIds
  imports Wire
begin

text \<open>
  The client's allocators of request tags (\<^verbatim>\<open>src/client/tags.go\<close>) and of fids
  (\<^verbatim>\<open>src/client/fidalloc.go\<close>), with the mirror tags of \<^verbatim>\<open>Tflush\<close>
  (\<^verbatim>\<open>src/client/flush.go\<close>). Both allocators satisfy one contract, \<^verbatim>\<open>id_pool\<close>, from
  which follows that no two outstanding requests share a tag and no two open files
  share a fid, whatever the order of acquisitions and releases.
\<close>

section \<open>Tags\<close>

text \<open>The channel of free tags, oldest first, and its capacity. \<^verbatim>\<open>None\<close> is a caller
  that blocks (until a release, its context or shutdown wakes it).\<close>

record tagAllocator =
  ta_free :: "u16 list"
  ta_cap :: nat

definition newTagAllocator :: "nat \<Rightarrow> tagAllocator" where
  "newTagAllocator n = \<lparr>ta_free = map of_nat [1..<Suc n], ta_cap = n\<rparr>"

definition tag_acquire :: "tagAllocator \<Rightarrow> (u16 \<times> tagAllocator) option" where
  "tag_acquire ta = (case ta_free ta of [] \<Rightarrow> None | t # ts \<Rightarrow> Some (t, ta\<lparr>ta_free := ts\<rparr>))"

definition tag_release :: "u16 \<Rightarrow> tagAllocator \<Rightarrow> tagAllocator" where
  "tag_release tag ta = (if length (ta_free ta) < ta_cap ta then ta\<lparr>ta_free := ta_free ta @ [tag]\<rparr> else ta)"

definition maxMaxInflight :: nat where "maxMaxInflight = 32766"

definition flushTagBit :: u16 where "flushTagBit = 0x8000"

definition flushTagFor :: "u16 \<Rightarrow> u16" where
  "flushTagFor oldTag = oldTag OR flushTagBit"

section \<open>Fids\<close>

definition fidStart :: u32 where "fidStart = 1"

definition reuseCacheSize :: nat where "reuseCacheSize = 1024"

record fidAllocator =
  fa_next :: u32
  fa_reuse :: "u32 list"

definition newFidAllocator :: fidAllocator where
  "newFidAllocator = \<lparr>fa_next = fidStart, fa_reuse = []\<rparr>"

text \<open>\<^verbatim>\<open>None\<close> is \<^verbatim>\<open>ErrFidExhausted\<close>.\<close>

definition fid_acquire :: "fidAllocator \<Rightarrow> (u32 \<times> fidAllocator) option" where
  "fid_acquire fa =
     (if fa_reuse fa \<noteq> [] then Some (last (fa_reuse fa), fa\<lparr>fa_reuse := butlast (fa_reuse fa)\<rparr>)
      else if fa_next fa \<ge> NoFid then None
      else Some (fa_next fa, fa\<lparr>fa_next := fa_next fa + 1\<rparr>))"

definition fid_release :: "u32 \<Rightarrow> fidAllocator \<Rightarrow> fidAllocator" where
  "fid_release fid fa =
     (if length (fa_reuse fa) < reuseCacheSize then fa\<lparr>fa_reuse := fa_reuse fa @ [fid]\<rparr> else fa)"

section \<open>The contract of an allocator\<close>

text \<open>Histories of an allocator: \<^verbatim>\<open>Release\<close> is called only by a holder, once.\<close>

datatype 'i pool_op = Acquire | Release 'i

fun pool_step :: "('p \<Rightarrow> ('i \<times> 'p) option) \<Rightarrow> ('i \<Rightarrow> 'p \<Rightarrow> 'p) \<Rightarrow> 'i pool_op \<Rightarrow> 'p \<times> 'i list \<Rightarrow> 'p \<times> 'i list" where
  "pool_step acq rel Acquire (p, held) = (case acq p of None \<Rightarrow> (p, held) | Some (i, p') \<Rightarrow> (p', i # held))"
| "pool_step acq rel (Release i) (p, held) =
     (if i \<in> set held then (rel i p, remove1 i held) else (p, held))"

definition pool_run :: "('p \<Rightarrow> ('i \<times> 'p) option) \<Rightarrow> ('i \<Rightarrow> 'p \<Rightarrow> 'p) \<Rightarrow> 'i pool_op list \<Rightarrow> 'p \<Rightarrow> 'p \<times> 'i list" where
  "pool_run acq rel ops p = fold (pool_step acq rel) ops (p, [])"

locale id_pool =
  fixes acquire :: "'p \<Rightarrow> ('i \<times> 'p) option" and release :: "'i \<Rightarrow> 'p \<Rightarrow> 'p"
    and avail :: "'p \<Rightarrow> 'i set" and universe :: "'i set" and ok :: "'p \<Rightarrow> bool"
  assumes avail_universe: "ok p \<Longrightarrow> avail p \<subseteq> universe"
    and acquire_law: "ok p \<Longrightarrow> acquire p = Some (i, p') \<Longrightarrow>
       ok p' \<and> i \<in> avail p \<and> avail p' = avail p - {i}"
    and acquire_none: "ok p \<Longrightarrow> acquire p = None \<Longrightarrow> avail p = {}"
    and release_law: "ok p \<Longrightarrow> i \<in> universe \<Longrightarrow> i \<notin> avail p \<Longrightarrow>
       ok (release i p) \<and> avail (release i p) \<subseteq> insert i (avail p)"
begin

definition held_ok :: "'p \<times> 'i list \<Rightarrow> bool" where
  "held_ok = (\<lambda>(p, held). ok p \<and> distinct held \<and> set held \<subseteq> universe \<and> set held \<inter> avail p = {})"

lemma step_held_ok: "held_ok s \<Longrightarrow> held_ok (pool_step acquire release op s)"
proof (cases s; cases op)
  fix p held assume s: "held_ok s" "s = (p, held)"
  then have inv: "ok p" "distinct held" "set held \<subseteq> universe" "set held \<inter> avail p = {}"
    by (auto simp: held_ok_def)
  show ?thesis if "op = Acquire"
  proof (cases "acquire p")
    case (Some r)
    then obtain i p' where r: "acquire p = Some (i, p')" by (cases r) auto
    show ?thesis
      using inv acquire_law [OF inv(1) r] avail_universe [OF inv(1)] by (auto simp: held_ok_def that s(2) r)
  qed (use inv in \<open>simp add: held_ok_def that s(2)\<close>)
  show ?thesis if "op = Release i" for i
  proof (cases "i \<in> set held")
    case True
    then have "i \<in> universe" "i \<notin> avail p" using inv by auto
    from release_law [OF inv(1) this] show ?thesis
      using inv True by (auto simp: held_ok_def that s(2) set_remove1_eq)
  qed (use inv in \<open>simp add: held_ok_def that s(2)\<close>)
qed

lemma run_held_ok: "ok p \<Longrightarrow> held_ok (pool_run acquire release ops p)"
  unfolding pool_run_def
  by (rule fold_invariant [where Q = "\<lambda>_. True"]) (simp, simp add: held_ok_def, rule step_held_ok)

end

text \<open>A pool that never loses an identifier: what is not held can be acquired.\<close>

locale complete_pool = id_pool acquire release avail universe ok
  for acquire :: "'p \<Rightarrow> ('i \<times> 'p) option" and release :: "'i \<Rightarrow> 'p \<Rightarrow> 'p" and avail universe ok +
  assumes release_all: "ok p \<Longrightarrow> i \<in> universe \<Longrightarrow> i \<notin> avail p \<Longrightarrow> avail (release i p) = insert i (avail p)"
begin

lemma step_complete:
  assumes "held_ok s" "case s of (p, held) \<Rightarrow> avail p \<union> set held = universe"
  shows "case pool_step acquire release op s of (p, held) \<Rightarrow> avail p \<union> set held = universe"
proof (cases s; cases op)
  fix p held assume s: "s = (p, held)"
  then have inv: "ok p" "distinct held" "set held \<inter> avail p = {}" "avail p \<union> set held = universe"
    using assms by (simp_all add: held_ok_def)
  show ?thesis if "op = Acquire"
  proof (cases "acquire p")
    case (Some r)
    then obtain i p' where r: "acquire p = Some (i, p')" by (cases r) auto
    have "i \<in> avail p" "avail p' = avail p - {i}" using acquire_law [OF inv(1) r] by auto
    then have "avail p' \<union> set (i # held) = universe" unfolding inv(4) [symmetric] by auto
    then show ?thesis by (simp add: that s r)
  qed (use inv(4) in \<open>simp add: that s\<close>)
  show ?thesis if "op = Release i" for i
  proof (cases "i \<in> set held")
    case True
    then have "i \<in> universe" "i \<notin> avail p" using inv(3,4) by blast+
    from release_all [OF inv(1) this] have "avail (release i p) \<union> (set held - {i}) = universe"
      unfolding inv(4) [symmetric] using True by auto
    then show ?thesis using inv(2) True by (simp add: that s set_remove1_eq)
  qed (use inv in \<open>simp add: that s\<close>)
qed

lemma run_complete:
  assumes "ok p" "avail p = universe" "pool_run acquire release ops p = (p', held)"
  shows "avail p' = universe - set held"
proof -
  let ?full = "\<lambda>s. held_ok s \<and> (case s of (p, held) \<Rightarrow> avail p \<union> set held = universe)"
  have "?full (pool_run acquire release ops p)"
    unfolding pool_run_def
  proof (rule fold_invariant [where Q = "\<lambda>_. True"])
    show "?full (pool_step acquire release op s)" if "?full s" for op s
      using that step_held_ok [of s op] step_complete [of s op] by simp
  qed (use assms(1,2) in \<open>simp_all add: held_ok_def\<close>)
  then have "avail p' \<union> set held = universe" "set held \<inter> avail p' = {}"
    using assms(3) by (simp_all add: held_ok_def)
  then show ?thesis by blast
qed

end

section \<open>The allocators satisfy it\<close>

definition tag_range :: "nat \<Rightarrow> u16 set" where
  "tag_range n = of_nat ` {1..n}"

definition tag_ok :: "nat \<Rightarrow> tagAllocator \<Rightarrow> bool" where
  "tag_ok n ta \<longleftrightarrow> ta_cap ta = n \<and> n \<le> maxMaxInflight \<and> distinct (ta_free ta) \<and> set (ta_free ta) \<subseteq> tag_range n"

lemma unat_tag: "i \<le> n \<Longrightarrow> n \<le> maxMaxInflight \<Longrightarrow> unat (of_nat i :: u16) = i"
  by (rule unat_of_nat_small) (simp add: maxMaxInflight_def)

lemma tag_inj: "n \<le> maxMaxInflight \<Longrightarrow> inj_on (of_nat :: nat \<Rightarrow> u16) {1..n}"
  by (rule inj_onI) (metis atLeastAtMost_iff unat_tag)

lemma tag_room:
  assumes "tag_ok n p" "i \<in> tag_range n" "i \<notin> set (ta_free p)"
  shows "length (ta_free p) < ta_cap p"
proof -
  have "card (insert i (set (ta_free p))) \<le> card (tag_range n)"
    using assms by (intro card_mono) (auto simp: tag_ok_def tag_range_def)
  also have "\<dots> \<le> n" using card_image_le [of "{1..n}" "of_nat :: nat \<Rightarrow> u16"] by (simp add: tag_range_def)
  finally show ?thesis using assms by (simp add: tag_ok_def distinct_card)
qed

interpretation tags: complete_pool tag_acquire tag_release "\<lambda>ta. set (ta_free ta)" "tag_range n" "tag_ok n" for n
proof (unfold_locales, goal_cases)
  case (4 p i)
  then show ?case using tag_room [OF 4] by (auto simp: tag_release_def tag_ok_def)
next
  case (5 p i)
  then show ?case using tag_room [OF 5] by (simp add: tag_release_def)
qed (auto simp: tag_ok_def tag_acquire_def split: list.splits)

definition fid_avail :: "fidAllocator \<Rightarrow> u32 set" where
  "fid_avail fa = set (fa_reuse fa) \<union> {fa_next fa..<NoFid}"

definition fid_ok :: "fidAllocator \<Rightarrow> bool" where
  "fid_ok fa \<longleftrightarrow> fidStart \<le> fa_next fa \<and> fa_next fa \<le> NoFid \<and> distinct (fa_reuse fa)
     \<and> set (fa_reuse fa) \<subseteq> {fidStart..<fa_next fa}"

lemma fid_next:
  assumes "fidStart \<le> k" "k < NoFid"
  shows "{fidStart..<k + 1} = insert k {fidStart..<k}" "{k + 1..<NoFid} = {k..<NoFid} - {k}" "k + 1 \<le> NoFid"
    "fidStart \<le> k + 1"
proof -
  have "unat k < 2 ^ 32 - 1" using assms(2) by (simp add: NoFid_def word_less_nat_alt)
  then have k: "unat (k + 1) = Suc (unat k)" by (simp add: unat_word_ariths)
  show "{fidStart..<k + 1} = insert k {fidStart..<k}" "{k + 1..<NoFid} = {k..<NoFid} - {k}" "k + 1 \<le> NoFid"
    "fidStart \<le> k + 1"
    using assms k by (auto simp: word_le_nat_alt word_less_nat_alt word_unat_eq_iff)
qed

interpretation fids: id_pool fid_acquire fid_release fid_avail "{fidStart..<NoFid}" fid_ok
proof (unfold_locales, goal_cases)
  case (1 p)
  then have "set (fa_reuse p) \<subseteq> {fidStart..<fa_next p}" "fidStart \<le> fa_next p" "fa_next p \<le> NoFid"
    by (simp_all add: fid_ok_def)
  then show ?case by (force simp: fid_avail_def)
next
  case (2 p i p')
  show ?case
  proof (cases "fa_reuse p = []")
    case True
    then show ?thesis
      using 2 fid_next [of "fa_next p"] by (auto simp: fid_ok_def fid_avail_def fid_acquire_def split: if_splits)
  next
    case False
    then obtain xs where xs: "fa_reuse p = xs @ [i]" "p' = p\<lparr>fa_reuse := xs\<rparr>"
      using 2 by (cases "fa_reuse p" rule: rev_cases) (auto simp: fid_acquire_def)
    then show ?thesis using 2(1) by (auto simp: fid_ok_def fid_avail_def)
  qed
next
  case (3 p)
  then show ?case by (auto simp: fid_ok_def fid_avail_def fid_acquire_def split: if_splits)
next
  case (4 p i)
  then show ?case by (auto simp: fid_ok_def fid_avail_def fid_release_def not_le)
qed

section \<open>Mirror tags\<close>

lemma flushTag_eq:
  assumes "i \<le> maxMaxInflight"
  shows "flushTagFor (of_nat i) = of_nat (i + 32768)"
proof -
  have "i div 2 ^ 15 = 0" using assms by (simp add: maxMaxInflight_def)
  then have "\<not> bit i 15" unfolding bit_iff_odd by simp
  then have "\<not> bit (of_nat i :: u16) 15" by (simp only: bit_of_nat_iff) simp
  moreover have "bit (0x8000 :: u16) k \<longleftrightarrow> k = 15" for k
  proof -
    have "(0x8000 :: u16) = push_bit 15 1" by (simp add: push_bit_eq_mult)
    then show ?thesis by (simp only: bit_push_bit_iff bit_1_iff) auto
  qed
  ultimately have "of_nat i + 0x8000 = (of_nat i OR 0x8000 :: u16)" by (intro disjunctive_add) auto
  then show ?thesis by (simp add: flushTagFor_def flushTagBit_def)
qed

lemma tag_mirror_distinct:
  assumes "n \<le> maxMaxInflight" "distinct held" "set held \<subseteq> tag_range n"
  shows "distinct (0 # NoTag # held @ map flushTagFor held)"
proof -
  have tag: "\<exists>i. t = of_nat i \<and> 1 \<le> i \<and> i \<le> 32766 \<and> unat t = i \<and> flushTagFor t = of_nat (i + 32768)
      \<and> unat (flushTagFor t) = i + 32768" if t: "t \<in> set held" for t
  proof -
    obtain i where i: "t = of_nat i" "1 \<le> i" "i \<le> n" using t assms(3) by (auto simp: tag_range_def)
    then have "i \<le> maxMaxInflight" using assms(1) by simp
    then show ?thesis
      using i flushTag_eq [of i]
      by (intro exI [of _ i]) (auto simp: maxMaxInflight_def simp del: of_nat_add)
  qed
  have inj: "inj_on flushTagFor (set held)"
    by (rule inj_onI) (metis tag add_right_cancel)
  have "0 \<notin> set held" "NoTag \<notin> set held" "0 \<notin> flushTagFor ` set held" "NoTag \<notin> flushTagFor ` set held"
    using tag by (fastforce simp: NoTag_def)+
  moreover have "set held \<inter> flushTagFor ` set held = {}"
  proof (rule ccontr)
    assume "set held \<inter> flushTagFor ` set held \<noteq> {}"
    then obtain t u where "t \<in> set held" "u \<in> set held" "t = flushTagFor u" by blast
    then show False using tag [of t] tag [of u] by auto
  qed
  ultimately show ?thesis using assms(2) inj by (simp add: distinct_map NoTag_def)
qed

section \<open>Properties\<close>

text \<open>C23. Tags. Over any history of acquisitions and releases, the tags held by outstanding
  requests and the mirror tags of their flushes are pairwise distinct and none of
  them is 0 or \<^verbatim>\<open>NoTag\<close>; and a caller is made to wait exactly when the full number of
  requests is outstanding, so no tag is ever lost.\<close>

theorem tags_unique:
  assumes "n \<le> maxMaxInflight" "pool_run tag_acquire tag_release ops (newTagAllocator n) = (ta, held)"
  shows "distinct (0 # NoTag # held @ map flushTagFor held) \<and> (tag_acquire ta = None \<longleftrightarrow> length held = n)"
proof -
  have init: "tag_ok n (newTagAllocator n)" "set (ta_free (newTagAllocator n)) = tag_range n"
    using assms(1) tag_inj [OF assms(1)]
    by (auto simp: tag_ok_def newTagAllocator_def distinct_map tag_range_def atLeastLessThanSuc_atLeastAtMost
        simp del: upt_Suc)
  then have held: "distinct held" "set held \<subseteq> tag_range n"
    using tags.run_held_ok [of n "newTagAllocator n" ops] assms(2) by (simp_all add: tags.held_ok_def)
  have free: "set (ta_free ta) = tag_range n - set held"
    using tags.run_complete [OF init assms(2)] .
  have card: "card (set held) = length held" "card (tag_range n) = n" "finite (tag_range n)"
    using held(1) tag_inj [OF assms(1)] by (simp_all add: distinct_card tag_range_def card_image)
  have "tag_acquire ta = None \<longleftrightarrow> tag_range n \<subseteq> set held"
    using free by (auto simp: tag_acquire_def split: list.splits)
  also have "\<dots> \<longleftrightarrow> length held = n"
    using held(2) card card_subset_eq [OF card(3) held(2)] by auto
  finally show ?thesis using tag_mirror_distinct [OF assms(1) held] by blast
qed

theorem tags_unique_witness:
  "distinct (0 # NoTag # [1, 2] @ map flushTagFor [1, 2])
   \<and> (tag_acquire \<lparr>ta_free = [], ta_cap = 2\<rparr> = None \<longleftrightarrow> length [1, 2 :: u16] = 2)"
  by (rule tags_unique [of 2 "[Acquire, Acquire, Release 1, Acquire]"])
    (simp_all add: pool_run_def newTagAllocator_def tag_acquire_def tag_release_def maxMaxInflight_def
      numeral_2_eq_2 upt_rec)

text \<open>C24. Fids. Over any history of acquisitions and releases, the fids held by open files are
  pairwise distinct and none of them is 0 or \<^verbatim>\<open>NoFid\<close>.\<close>

theorem fids_unique:
  assumes "pool_run fid_acquire fid_release ops newFidAllocator = (fa, held)"
  shows "distinct (0 # NoFid # held)"
proof -
  have "fid_ok newFidAllocator" by (simp add: fid_ok_def newFidAllocator_def fidStart_def NoFid_def)
  then have "distinct held" "set held \<subseteq> {fidStart..<NoFid}"
    using fids.run_held_ok [of newFidAllocator ops] assms by (simp_all add: fids.held_ok_def)
  then show ?thesis by (auto simp: fidStart_def NoFid_def)
qed

theorem fids_unique_witness: "distinct (0 # NoFid # [1, 3, 2])"
  by (rule fids_unique [of "[Acquire, Acquire, Acquire, Release 1, Release 3, Acquire, Acquire]"
        "\<lparr>fa_next = 4, fa_reuse = []\<rparr>"])
    (simp add: pool_run_def newFidAllocator_def fid_acquire_def fid_release_def fidStart_def NoFid_def
      reuseCacheSize_def word_le_nat_alt)

end
