(* ===== verification/ClientConn.thy ===== *)
theory ClientConn
  imports Conn ClientIds
begin

text \<open>
  The client's side of a connection (\<^verbatim>\<open>src/client/conn.go\<close>, \<^verbatim>\<open>dial.go\<close>, \<^verbatim>\<open>write.go\<close>,
  \<^verbatim>\<open>read_loop.go\<close>, \<^verbatim>\<open>inflight.go\<close>, \<^verbatim>\<open>ops.go\<close>): the handshake, the framing of
  requests, the read loop that decodes responses and delivers them to the
  request of their tag, and the exchange of one request for one response.

  The peer and the network are the parameter \<^verbatim>\<open>link\<close>: what comes back for the bytes
  written, with \<^verbatim>\<open>None\<close> for a failed write. The model is the schedule in which a
  call runs to its end before the next begins and no context is cancelled: the
  read loop runs while the caller waits, up to the response of its request, and
  what the peer has sent beyond it is read by the next call. A caller whose
  response never comes returns only when the connection ends, so a stream that
  ends without the response is the end of the connection. The \<^verbatim>\<open>protocol\<close>
  enumeration of the client is that of the server.
\<close>

type_synonym 'p link = "bytes \<Rightarrow> 'p \<Rightarrow> bytes option \<times> 'p"

section \<open>Errors\<close>

text \<open>\<^verbatim>\<open>ServerError\<close> is the type \<^verbatim>\<open>Error\<close> with its fields \<^verbatim>\<open>Errno\<close> and \<^verbatim>\<open>Msg\<close>; the
  errors made by \<^verbatim>\<open>errors.New\<close> and \<^verbatim>\<open>fmt.Errorf\<close> are named by their text.\<close>

datatype client_error =
    ErrClosed
  | ErrNotSupported
  | ErrDialectInvariant
  | ErrFidExhausted
  | ErrVersionMismatch
  | ErrClientMsizeTooSmall
  | ServerError u32 gostring
  | ErrEncode error
  | ErrExceedsMsize
  | ErrWrite
  | ErrUnexpectedResponse u8
  | ErrReadCount
  | ErrWriteCount
  | ErrHandshake error
  | ErrRversionSize
  | ErrRversionType
  | ErrRversionTag
  | IoEOF
  | ErrShortWrite
  | ErrNegativeOffset
  | ErrInvalidWhence
  | ErrNegativePosition
  | ErrDirents error
  | ErrCursorStuck
  | ErrPartialWalk
  | ErrNoNames
  | ErrNotAttached
  | ErrRootPath
  | ErrXattrSize
  | ErrXattrChunk
  | ErrXattrShort
  | ErrXattrOverRead
  | ErrLockStatusUnknown
  | CtxErr

section \<open>State\<close>

text \<open>A \<^verbatim>\<open>File\<close>; its two mutexes order the calls and have no state of their own.\<close>

record File =
  f_fid :: u32
  f_qid :: QID
  f_iounit :: u32
  f_closed :: bool
  f_offset :: u64
  f_cachedSize :: u64
  f_readdirOffset :: u64

text \<open>A response channel holds at most one value: a decoded message, or the sentinel
  that says the payload of an \<^verbatim>\<open>Rread\<close> has been copied into the caller's buffer.\<close>

datatype delivery = Response message | RreadSentinelOK

record requestEntry =
  re_ch :: "delivery option"
  re_dst :: "bytes option"
  re_n :: nat

type_synonym inflightMap_client = "u16 \<rightharpoonup> requestEntry"

text \<open>The connection, with the files it has made, the bytes received and not yet
  read, and the peer. \<^verbatim>\<open>closing\<close> and \<^verbatim>\<open>closeCh\<close> are set together.\<close>

record 'p client =
  cl_dialect :: protocol
  cl_msize :: u32
  cl_tags :: tagAllocator
  cl_fids :: fidAllocator
  cl_inflight :: inflightMap_client
  cl_root :: "nat option"
  cl_closed :: bool
  cl_files :: "File list"
  cl_wire :: bytes
  cl_peer :: 'p

type_synonym ('p, 'a) op = "('p client, client_error + 'a) state"

text \<open>The statement \<^verbatim>\<open>if err != nil { return err }\<close> after a call.\<close>

definition try_bind :: "('s, 'e + 'a) state \<Rightarrow> ('a \<Rightarrow> ('s, 'e + 'b) state) \<Rightarrow> ('s, 'e + 'b) state" where
  "try_bind m f = do { r \<leftarrow> m; case r of Inl e \<Rightarrow> ret (Inl e) | Inr x \<Rightarrow> f x }"

abbreviation ok :: "'a \<Rightarrow> ('s, 'e + 'a) state" where "ok x \<equiv> ret (Inr x)"
abbreviation err :: "'e \<Rightarrow> ('s, 'e + 'a) state" where "err e \<equiv> ret (Inl e)"

section \<open>The request table\<close>

definition register :: "u16 \<Rightarrow> inflightMap_client \<Rightarrow> inflightMap_client" where
  "register tag im = im(tag \<mapsto> \<lparr>re_ch = None, re_dst = None, re_n = 0\<rparr>)"

definition registerZC :: "u16 \<Rightarrow> bytes \<Rightarrow> inflightMap_client \<Rightarrow> inflightMap_client" where
  "registerZC tag dst im = im(tag \<mapsto> \<lparr>re_ch = None, re_dst = Some dst, re_n = 0\<rparr>)"

definition send :: "delivery \<Rightarrow> requestEntry \<Rightarrow> requestEntry" where
  "send d e = (if re_ch e = None then e\<lparr>re_ch := Some d\<rparr> else e)"

definition deliver :: "u16 \<Rightarrow> message \<Rightarrow> inflightMap_client \<Rightarrow> inflightMap_client" where
  "deliver tag msg im = (case im tag of None \<Rightarrow> im | Some e \<Rightarrow> im(tag \<mapsto> send (Response msg) e))"

definition unregister :: "u16 \<Rightarrow> inflightMap_client \<Rightarrow> inflightMap_client" where
  "unregister tag im = im(tag := None)"

text \<open>Every channel is closed: the callers find their entry gone.\<close>

definition cancelAll_client :: "inflightMap_client \<Rightarrow> inflightMap_client" where
  "cancelAll_client im = Map.empty"

definition signalShutdown :: "'p client \<Rightarrow> 'p client" where
  "signalShutdown cl =
     (if cl_closed cl then cl else cl\<lparr>cl_closed := True, cl_inflight := cancelAll_client (cl_inflight cl)\<rparr>)"

section \<open>Writing requests\<close>

text \<open>\<^verbatim>\<open>Twrite\<close> is the only payloader among the requests.\<close>

definition request_parts :: "message \<Rightarrow> (bytes \<times> bytes) result" where
  "request_parts m = (case m of
       Base (Twrite fid off d) \<Rightarrow> rbind (Twrite_EncodeFixed fid off d) (\<lambda>b. Inr (b, d))
     | _ \<Rightarrow> rbind (EncodeTo m) (\<lambda>b. Inr (b, [])))"

definition writeT :: "'p link \<Rightarrow> u16 \<Rightarrow> message \<Rightarrow> ('p, u32) op" where
  "writeT N tag msg = State (\<lambda>cl.
     if cl_closed cl then (Inl ErrClosed, cl)
     else case request_parts msg of
       Inl e \<Rightarrow> (Inl (ErrEncode e), cl)
     | Inr (body, pay) \<Rightarrow>
         let sz = of_nat HeaderSize + of_nat (length body) + of_nat (length pay) :: u32 in
         if sz > cl_msize cl then (Inl ErrExceedsMsize, cl)
         else case N ((le_bytes 4 sz @ [Type msg] @ le_bytes 2 tag) @ body @ pay) (cl_peer cl) of
           (None, p) \<Rightarrow> (Inl ErrWrite, signalShutdown (cl\<lparr>cl_peer := p\<rparr>))
         | (Some got, p) \<Rightarrow> (Inr sz, cl\<lparr>cl_peer := p, cl_wire := cl_wire cl @ got\<rparr>))"

section \<open>Reading responses\<close>

definition base_responses :: "u8 list" where
  "base_responses = [101, 105, 111, 117, 119, 121, 123, 109]"

definition newRMessage :: "protocol \<Rightarrow> u8 \<Rightarrow> message option" where
  "newRMessage d t =
     (if t \<in> set base_responses then map_option Base (NewBaseMessage t)
      else if t = 7 then map_option L (newLMsg t)
      else if t = 107 then map_option U (newUMsg t)
      else if t \<in> set [13, 15, 41, 25, 27, 9, 17, 23, 53, 55, 31, 33, 71, 19, 73, 51, 21, 75, 77] then
        (if d = protocolL then map_option L (newLMsg t) else None)
      else if t \<in> set [113, 115, 125, 127] then
        (if d = protocolU then map_option U (newUMsg t) else None)
      else None)"

text \<open>The zero-copy path of an \<^verbatim>\<open>Rread\<close> whose request brought a buffer: \<^verbatim>\<open>None\<close> for each
  of the protocol errors that end the connection.\<close>

definition zc_Rread :: "bytes \<Rightarrow> bytes \<Rightarrow> requestEntry \<Rightarrow> requestEntry option" where
  "zc_Rread b dst e =
     (if length b < 7 then None
      else let count = le_word (take 4 (drop 3 b)) :: u32 in
        if unat count > MaxDataSize then None
        else if count > of_nat (length dst) then None
        else if unat count > length b - 7 then None
        else Some (send RreadSentinelOK
               (e\<lparr>re_dst := Some (take (unat count) (drop 7 b) @ drop (unat count) dst), re_n := unat count\<rparr>)))"

text \<open>The bound on the count-prefixed payloads that is checked before decoding.\<close>

definition prevalid :: "u8 \<Rightarrow> bytes \<Rightarrow> bool" where
  "prevalid t b \<longleftrightarrow> (t = 117 \<or> t = 41) \<longrightarrow>
     length b \<ge> 7 \<and> unat (le_word (take 4 (drop 3 b)) :: u32) \<le> length b - 7"

text \<open>One iteration of the read loop on the frame body that follows the size.\<close>

definition handle_response :: "protocol \<Rightarrow> bytes \<Rightarrow> inflightMap_client \<Rightarrow> inflightMap_client option" where
  "handle_response d b im =
     (if length b < 3 then None
      else let msgType = b ! 0; tag = le_word (take 2 (drop 1 b)) in
        case (if msgType = 117 then Option.bind (im tag) (\<lambda>e. map_option (\<lambda>dst. (e, dst)) (re_dst e)) else None) of
          Some (e, dst) \<Rightarrow> map_option (\<lambda>e'. im(tag \<mapsto> e')) (zc_Rread b dst e)
        | None \<Rightarrow>
            if \<not> prevalid msgType b then None
            else case newRMessage d msgType of
              None \<Rightarrow> None
            | Some m0 \<Rightarrow> (case DecodeFrom m0 (drop 3 b) of
                Inl _ \<Rightarrow> None
              | Inr (m, _) \<Rightarrow> Some (deliver tag m im)))"

definition readLoop_iter :: "'p client \<Rightarrow> 'p client option" where
  "readLoop_iter cl =
     (case ReadSize (cl_wire cl) of
        Inl _ \<Rightarrow> None
      | Inr (sz, r1) \<Rightarrow>
          if sz > cl_msize cl then None
          else case ReadBody (unat sz - 4) r1 of
            Inl _ \<Rightarrow> None
          | Inr (b, rest) \<Rightarrow>
              map_option (\<lambda>im. cl\<lparr>cl_inflight := im, cl_wire := rest\<rparr>)
                (handle_response (cl_dialect cl) b (cl_inflight cl)))"

lemma readLoop_iter_shorter: "readLoop_iter cl = Some cl' \<Longrightarrow> length (cl_wire cl') < length (cl_wire cl)"
  by (auto simp: readLoop_iter_def ReadSize_def ReadBody_def codec_iff split: sum.splits if_splits prod.splits)

text \<open>The read loop, run until the caller of \<^verbatim>\<open>tag\<close> can go on: its channel holds a value,
  or it is closed.\<close>

function readLoop :: "u16 \<Rightarrow> 'p client \<Rightarrow> requestEntry option \<times> 'p client" where
  "readLoop tag cl =
     (case cl_inflight cl tag of
        None \<Rightarrow> (None, cl)
      | Some e \<Rightarrow>
          if re_ch e \<noteq> None then (Some e, cl)
          else case readLoop_iter cl of
            None \<Rightarrow> (None, signalShutdown cl)
          | Some cl' \<Rightarrow> readLoop tag cl')"
  by pat_completeness auto
termination
  by (relation "measure (\<lambda>(tag, cl). length (cl_wire cl))") (auto dest: readLoop_iter_shorter)

declare readLoop.simps [simp del]

section \<open>One exchange\<close>

definition retire :: "u16 \<Rightarrow> 'p client \<Rightarrow> 'p client" where
  "retire tag cl = cl\<lparr>cl_inflight := unregister tag (cl_inflight cl), cl_tags := tag_release tag (cl_tags cl)\<rparr>"

text \<open>The response and, for a zero-copy read, the bytes copied into the buffer. A caller
  that finds no free tag waits for one or for the end of the connection; in this
  schedule none will come free.\<close>

definition exchange :: "'p link \<Rightarrow> message \<Rightarrow> bytes option \<Rightarrow> ('p, delivery \<times> bytes) op" where
  "exchange N msg dst = do {
     closed \<leftarrow> gets cl_closed;
     if closed then err ErrClosed
     else do {
       t \<leftarrow> gets (\<lambda>cl. tag_acquire (cl_tags cl));
       case t of
         None \<Rightarrow> err ErrClosed
       | Some (tag, ta) \<Rightarrow> do {
           modify (\<lambda>cl. cl\<lparr>cl_tags := ta, cl_inflight := (case dst of
             None \<Rightarrow> register tag (cl_inflight cl) | Some d \<Rightarrow> registerZC tag d (cl_inflight cl))\<rparr>);
           w \<leftarrow> writeT N tag msg;
           case w of
             Inl e \<Rightarrow> do {
               modify (retire tag);
               closed \<leftarrow> gets cl_closed;
               err (if closed then ErrClosed else e)
             }
           | Inr _ \<Rightarrow> do {
               r \<leftarrow> State (readLoop tag);
               modify (retire tag);
               case r of
                 None \<Rightarrow> err ErrClosed
               | Some e \<Rightarrow> (case re_ch e of
                   None \<Rightarrow> err ErrClosed
                 | Some d \<Rightarrow> ok (d, take (re_n e) (case_option [] id (re_dst e))))
             }
         }
     }
   }"

text \<open>The sentinel is a zero \<^verbatim>\<open>Rread\<close>.\<close>

definition roundTrip :: "'p link \<Rightarrow> message \<Rightarrow> ('p, message) op" where
  "roundTrip N msg = do {
     closed \<leftarrow> gets cl_closed;
     if closed then err ErrClosed
     else try_bind (exchange N msg None) (\<lambda>(d, _).
       ok (case d of Response m \<Rightarrow> m | RreadSentinelOK \<Rightarrow> Base (Rread [])))
   }"

definition toError :: "message \<Rightarrow> client_error option" where
  "toError m = (case m of
       L (Rlerror ecode) \<Rightarrow> Some (ServerError ecode [])
     | U (Rerror ename errno) \<Rightarrow> Some (ServerError errno ename)
     | _ \<Rightarrow> None)"

text \<open>\<^verbatim>\<open>rtrip[T]\<close>; \<^verbatim>\<open>sel\<close> is the assertion to the response type \<^verbatim>\<open>T\<close> with the fields the
  caller uses.\<close>

definition rtrip :: "'p link \<Rightarrow> (message \<Rightarrow> 'a option) \<Rightarrow> message \<Rightarrow> ('p, 'a) op" where
  "rtrip N sel req = try_bind (roundTrip N req) (\<lambda>resp. case toError resp of
       Some e \<Rightarrow> err e
     | None \<Rightarrow> (case sel resp of
         Some x \<Rightarrow> ok x
       | None \<Rightarrow> err (ErrUnexpectedResponse (Type resp))))"

definition requireDialect :: "protocol \<Rightarrow> ('p, unit) op" where
  "requireDialect want = do { d \<leftarrow> gets cl_dialect; if d = want then ok () else err ErrNotSupported }"

section \<open>Dial\<close>

text \<open>The options of \<^verbatim>\<open>Dial\<close> the model depends on; an empty version lets the server choose.\<close>

record config =
  co_msize :: u32
  co_version :: gostring
  co_maxInflight :: nat

definition minMsizeClient :: u32 where "minMsizeClient = 256"

definition dial_dialect :: "gostring \<Rightarrow> protocol option" where
  "dial_dialect version =
     (if version = gostr ''9P2000.L'' then Some protocolL
      else if version = gostr ''9P2000.u'' \<or> version = gostr ''9P2000'' then Some protocolU
      else None)"

text \<open>The \<^verbatim>\<open>Rversion\<close> of the server and what follows it.\<close>

definition read_Rversion :: "u32 \<Rightarrow> bytes \<Rightarrow> client_error + (u32 \<times> gostring) \<times> bytes" where
  "read_Rversion msize input =
     (case ReadSize input of
        Inl e \<Rightarrow> Inl (ErrHandshake e)
      | Inr (rsize, r1) \<Rightarrow>
          if rsize > msize then Inl ErrRversionSize
          else case ReadBody (unat rsize - 4) r1 of
            Inl e \<Rightarrow> Inl (ErrHandshake e)
          | Inr (b, rest) \<Rightarrow>
              if length b < 3 then Inl ErrRversionSize
              else if b ! 0 \<noteq> 101 then Inl ErrRversionType
              else if le_word (take 2 (drop 1 b)) \<noteq> NoTag then Inl ErrRversionTag
              else case Rversion_DecodeFrom (drop 3 b) of
                Inl e \<Rightarrow> Inl (ErrHandshake e)
              | Inr (Rversion Msize Version, _) \<Rightarrow> Inr ((Msize, Version), rest)
              | Inr (_, _) \<Rightarrow> Inl ErrRversionType)"

text \<open>The two writes of the request are one write of the stream.\<close>

definition Dial :: "'p link \<Rightarrow> config \<Rightarrow> 'p \<Rightarrow> client_error + 'p client" where
  "Dial N cfg peer =
     (let proposed = (if co_version cfg = [] then gostr ''9P2000.L'' else co_version cfg) in
      case Tversion_EncodeTo (co_msize cfg) proposed of
        Inl e \<Rightarrow> Inl (ErrEncode e)
      | Inr body \<Rightarrow>
          let sz = of_nat HeaderSize + of_nat (length body) :: u32 in
          case N ((le_bytes 4 sz @ [100] @ le_bytes 2 NoTag) @ body) peer of
            (None, _) \<Rightarrow> Inl ErrWrite
          | (Some got, peer') \<Rightarrow> (case read_Rversion (co_msize cfg) got of
              Inl e \<Rightarrow> Inl e
            | Inr ((Msize, Version), rest) \<Rightarrow>
                if co_version cfg \<noteq> [] \<and> Version \<noteq> co_version cfg then Inl ErrVersionMismatch
                else case dial_dialect Version of
                  None \<Rightarrow> Inl ErrVersionMismatch
                | Some d \<Rightarrow>
                    let negotiated = min Msize (co_msize cfg) in
                    if negotiated < minMsizeClient then Inl ErrClientMsizeTooSmall
                    else Inr \<lparr>cl_dialect = d, cl_msize = negotiated, cl_tags = newTagAllocator (co_maxInflight cfg),
                      cl_fids = newFidAllocator, cl_inflight = Map.empty, cl_root = None, cl_closed = False,
                      cl_files = [], cl_wire = rest, cl_peer = peer'\<rparr>))"

section \<open>Requests are the frames of the codec\<close>

lemma request_frame:
  assumes "EncodeFrame tag m = Inr p"
  shows "\<exists>body pay. request_parts m = Inr (body, pay)
    \<and> p = (le_bytes 4 (of_nat HeaderSize + of_nat (length body) + of_nat (length pay) :: u32) @ [Type m] @ le_bytes 2 tag)
        @ body @ pay
    \<and> unat (of_nat HeaderSize + of_nat (length body) + of_nat (length pay) :: u32) = length p"
proof -
  obtain b where b: "EncodeTo m = Inr b"
    and p: "p = le_bytes 4 (of_nat (HeaderSize + length b) :: u32) @ [Type m] @ le_bytes 2 tag @ b"
    using assms by (auto simp: EncodeFrame_def rbind_Inr_iff)
  have "HeaderSize + length b < 2 ^ 32"
    using EncodeTo_fits [OF b] by (simp add: MaxMessageSize_def proto_consts)
  then have sz: "unat (of_nat (HeaderSize + length b) :: u32) = length p"
    by (subst unat_of_nat_small) (simp_all add: p HeaderSize_def)
  have "\<exists>body pay. request_parts m = Inr (body, pay) \<and> b = body @ pay"
  proof (cases "\<exists>fid off d. m = Base (Twrite fid off d)")
    case True
    then show ?thesis using b
      by (auto simp: request_parts_def Twrite_EncodeTo_def WriteRaw_def rbind_Inr_iff)
  next
    case False
    then have "request_parts m = rbind (EncodeTo m) (\<lambda>b. Inr (b, []))"
      by (auto simp: request_parts_def split: message.split base_msg.split)
    then show ?thesis using b by auto
  qed
  then obtain body pay where parts: "request_parts m = Inr (body, pay)" "b = body @ pay" by blast
  then show ?thesis using p sz by (intro exI [of _ body] exI [of _ pay]) (simp add: add.assoc)
qed

lemma request_parts_error: "EncodeFrame tag m = Inl e \<Longrightarrow> request_parts m = Inl e"
proof -
  assume "EncodeFrame tag m = Inl e"
  then have e: "EncodeTo m = Inl e" by (cases "EncodeTo m") (simp_all add: EncodeFrame_def)
  show ?thesis
  proof (cases "\<exists>fid off d. m = Base (Twrite fid off d)")
    case True
    then show ?thesis using e
      by (auto simp: request_parts_def Twrite_EncodeTo_def WriteRaw_def rbind_def split: sum.splits)
  next
    case False
    then have "request_parts m = rbind (EncodeTo m) (\<lambda>b. Inr (b, []))"
      by (auto simp: request_parts_def split: message.split base_msg.split)
    then show ?thesis using e by simp
  qed
qed

section \<open>An exchange with a peer that answers one frame\<close>

definition rotate_tag :: "tagAllocator \<Rightarrow> tagAllocator" where
  "rotate_tag ta = ta\<lparr>ta_free := tl (ta_free ta) @ [hd (ta_free ta)]\<rparr>"

text \<open>A connection with no call in progress and nothing left to read.\<close>

definition idle :: "'p client \<Rightarrow> bool" where
  "idle cl \<longleftrightarrow> \<not> cl_closed cl \<and> cl_wire cl = [] \<and> cl_inflight cl = Map.empty
     \<and> ta_free (cl_tags cl) \<noteq> [] \<and> length (ta_free (cl_tags cl)) \<le> ta_cap (cl_tags cl)"

abbreviation next_tag :: "'p client \<Rightarrow> u16" where
  "next_tag cl \<equiv> hd (ta_free (cl_tags cl))"

definition new_entry :: "bytes option \<Rightarrow> requestEntry" where
  "new_entry dst = \<lparr>re_ch = None, re_dst = dst, re_n = 0\<rparr>"

lemma registered:
  "(case dst of None \<Rightarrow> register tag im | Some d \<Rightarrow> registerZC tag d im) = im(tag \<mapsto> new_entry dst)"
  by (simp add: register_def registerZC_def new_entry_def split: option.split)

lemma acquired:
  assumes "idle cl"
  shows "tag_acquire (cl_tags cl) = Some (next_tag cl, (cl_tags cl)\<lparr>ta_free := tl (ta_free (cl_tags cl))\<rparr>)"
    and "tag_release (next_tag cl) ((cl_tags cl)\<lparr>ta_free := tl (ta_free (cl_tags cl))\<rparr>) = rotate_tag (cl_tags cl)"
  using assms by (cases "ta_free (cl_tags cl)"; simp add: idle_def tag_acquire_def tag_release_def rotate_tag_def)+

text \<open>The state in which the caller waits.\<close>

definition waiting :: "bytes option \<Rightarrow> 'p \<Rightarrow> bytes \<Rightarrow> 'p client \<Rightarrow> 'p client" where
  "waiting dst peer q cl = cl\<lparr>cl_tags := (cl_tags cl)\<lparr>ta_free := tl (ta_free (cl_tags cl))\<rparr>,
     cl_inflight := [next_tag cl \<mapsto> new_entry dst], cl_peer := peer, cl_wire := q\<rparr>"

lemma exchange_waits:
  assumes "idle cl" "EncodeFrame (next_tag cl) m = Inr p" "length p \<le> unat (cl_msize cl)"
    and "N p (cl_peer cl) = (Some q, peer)"
  shows "run_state (exchange N m dst) cl = (case readLoop (next_tag cl) (waiting dst peer q cl) of
      (None, cl') \<Rightarrow> (Inl ErrClosed, retire (next_tag cl) cl')
    | (Some e, cl') \<Rightarrow> ((case re_ch e of None \<Rightarrow> Inl ErrClosed
        | Some d \<Rightarrow> Inr (d, take (re_n e) (case_option [] id (re_dst e)))), retire (next_tag cl) cl'))"
proof -
  obtain body pay where parts: "request_parts m = Inr (body, pay)"
    and p: "p = (le_bytes 4 (of_nat HeaderSize + of_nat (length body) + of_nat (length pay) :: u32) @ [Type m]
        @ le_bytes 2 (next_tag cl)) @ body @ pay"
    and sz: "unat (of_nat HeaderSize + of_nat (length body) + of_nat (length pay) :: u32) = length p"
    using request_frame [OF assms(2)] by blast
  define w where "w = (of_nat HeaderSize + of_nat (length body) + of_nat (length pay) :: u32)"
  have w: "\<not> w > cl_msize cl" using assms(3) sz by (simp add: word_less_nat_alt w_def)
  have N: "N ((le_bytes 4 w @ [Type m] @ le_bytes 2 (next_tag cl)) @ body @ pay) (cl_peer cl) = (Some q, peer)"
    using assms(4) by (simp add: p w_def)
  have cl: "\<not> cl_closed cl" "cl_wire cl = []" "cl_inflight cl = Map.empty" using assms(1) by (auto simp: idle_def)
  show ?thesis
    using cl w N
    by (simp add: exchange_def acquired [OF assms(1)] registered writeT_def parts w_def [symmetric] waiting_def Let_def
        split: prod.split option.split)
qed

lemma exchange_refused:
  assumes "idle cl" "case EncodeFrame (next_tag cl) m of Inl _ \<Rightarrow> True | Inr p \<Rightarrow> length p > unat (cl_msize cl)"
  shows "\<exists>e. run_state (exchange N m dst) cl = (Inl e, cl\<lparr>cl_tags := rotate_tag (cl_tags cl)\<rparr>)"
proof -
  have cl: "\<not> cl_closed cl" "cl_inflight cl = Map.empty" using assms(1) by (auto simp: idle_def)
  show ?thesis
  proof (cases "EncodeFrame (next_tag cl) m")
    case (Inl e)
    then show ?thesis using cl
      by (simp add: exchange_def acquired [OF assms(1)] registered writeT_def request_parts_error [OF Inl] retire_def
          unregister_def)
  next
    case (Inr p)
    obtain body pay where parts: "request_parts m = Inr (body, pay)"
      and sz: "unat (of_nat HeaderSize + of_nat (length body) + of_nat (length pay) :: u32) = length p"
      using request_frame [OF Inr] by blast
    define w where "w = (of_nat HeaderSize + of_nat (length body) + of_nat (length pay) :: u32)"
    have "w > cl_msize cl" using assms(2) sz Inr by (simp add: word_less_nat_alt w_def)
    then show ?thesis using cl
      by (simp add: exchange_def acquired [OF assms(1)] registered writeT_def parts w_def [symmetric] retire_def
          unregister_def Let_def)
  qed
qed

text \<open>What the read loop makes of the answer: it ends the connection, or it delivers to the
  request.\<close>

lemma handle_response_delivers:
  assumes "handle_response d (t # le_bytes 2 tag @ b) [tag \<mapsto> new_entry dst] = Some im"
  shows "\<exists>e. im = [tag \<mapsto> e] \<and> re_ch e \<noteq> None"
  using assms
  by (auto simp: handle_response_def Let_def new_entry_def zc_Rread_def send_def deliver_def
      split: if_splits option.splits sum.splits)

lemma iter_frame:
  assumes "EncodeFrame tag r = Inr q" "cl_wire cl = q"
  shows "readLoop_iter cl = (if length q > unat (cl_msize cl) then None
     else map_option (\<lambda>im. cl\<lparr>cl_inflight := im, cl_wire := []\<rparr>)
       (handle_response (cl_dialect cl) (drop 4 q) (cl_inflight cl)))"
  using assms(1)
proof (rule ReadSize_frame)
  fix b sz assume len: "length q = 7 + length b" and body: "drop 4 q = Type r # le_bytes 2 tag @ b"
    and sz: "unat sz = 7 + length b"
    and size: "\<And>rest. ReadSize (q @ rest) = Inr (sz, Type r # le_bytes 2 tag @ b @ rest)"
  have "ReadBody (unat sz - 4) (Type r # le_bytes 2 tag @ b) = Inr (Type r # le_bytes 2 tag @ b, [])"
    using ReadFull_iff [of "unat sz - 4" "Type r # le_bytes 2 tag @ b" "Type r # le_bytes 2 tag @ b" "[]"]
    by (simp add: ReadBody_def sz)
  moreover have "sz > cl_msize cl \<longleftrightarrow> length q > unat (cl_msize cl)" by (simp add: word_less_nat_alt sz len)
  ultimately show ?thesis using size [of "[]"] by (simp add: readLoop_iter_def assms(2) body)
qed

text \<open>The outcome of an exchange with a peer that answers with the frame of \<^verbatim>\<open>r\<close>.\<close>

lemma waiting_simps [simp]:
  "cl_wire (waiting dst peer q cl) = q" "cl_inflight (waiting dst peer q cl) = [next_tag cl \<mapsto> new_entry dst]"
  "cl_dialect (waiting dst peer q cl) = cl_dialect cl" "cl_msize (waiting dst peer q cl) = cl_msize cl"
  "cl_files (waiting dst peer q cl) = cl_files cl"
  by (simp_all add: waiting_def)

lemma exchange_dies:
  assumes "idle cl" "EncodeFrame (next_tag cl) m = Inr p" "length p \<le> unat (cl_msize cl)"
    and "N p (cl_peer cl) = (Some q, peer)" "readLoop_iter (waiting dst peer q cl) = None"
  shows "\<exists>cl'. run_state (exchange N m dst) cl = (Inl ErrClosed, cl') \<and> cl_closed cl' \<and> cl_files cl' = cl_files cl"
proof -
  have "readLoop (next_tag cl) (waiting dst peer q cl) = (None, signalShutdown (waiting dst peer q cl))"
    by (subst readLoop.simps) (simp add: assms(5) new_entry_def)
  then show ?thesis
    by (simp add: exchange_waits [OF assms(1-3), of N q peer, OF assms(4)] retire_def signalShutdown_def)
qed

lemma exchange_delivers:
  assumes "idle cl" "EncodeFrame (next_tag cl) m = Inr p" "length p \<le> unat (cl_msize cl)"
    and "N p (cl_peer cl) = (Some q, peer)" "EncodeFrame (next_tag cl) r = Inr q" "length q \<le> unat (cl_msize cl)"
    and "handle_response (cl_dialect cl) (drop 4 q) [next_tag cl \<mapsto> new_entry dst] = Some [next_tag cl \<mapsto> e]"
    and "re_ch e = Some d"
  shows "run_state (exchange N m dst) cl = (Inr (d, take (re_n e) (case_option [] id (re_dst e))),
      cl\<lparr>cl_tags := rotate_tag (cl_tags cl), cl_peer := peer\<rparr>)"
proof -
  let ?t = "next_tag cl" and ?w = "waiting dst peer q cl"
  let ?cl = "?w\<lparr>cl_inflight := [?t \<mapsto> e], cl_wire := []\<rparr>"
  have "readLoop_iter ?w = Some ?cl" using assms(6,7) by (simp add: iter_frame [OF assms(5)])
  then have "readLoop ?t ?w = (Some e, ?cl)"
    by (subst readLoop.simps) (simp add: new_entry_def, subst readLoop.simps, simp add: assms(8))
  moreover have "retire ?t ?cl = cl\<lparr>cl_tags := rotate_tag (cl_tags cl), cl_peer := peer\<rparr>"
    using assms(1) acquired(2) [OF assms(1)]
    by (cases cl) (auto simp: retire_def waiting_def unregister_def idle_def)
  ultimately show ?thesis
    using assms(8) by (simp add: exchange_waits [OF assms(1-3), of N q peer, OF assms(4)])
qed

lemma exchange_answered:
  assumes "idle cl" "EncodeFrame (next_tag cl) m = Inr p" "length p \<le> unat (cl_msize cl)"
    and "N p (cl_peer cl) = (Some q, peer)" "EncodeFrame (next_tag cl) r = Inr q"
  shows "(\<exists>cl'. run_state (exchange N m dst) cl = (Inl ErrClosed, cl') \<and> cl_closed cl' \<and> cl_files cl' = cl_files cl)
    \<or> (\<exists>d. run_state (exchange N m dst) cl = (Inr d, cl\<lparr>cl_tags := rotate_tag (cl_tags cl), cl_peer := peer\<rparr>))"
proof (cases "readLoop_iter (waiting dst peer q cl)")
  case None
  then show ?thesis using exchange_dies [OF assms(1-3), of N q peer, OF assms(4)] by blast
next
  case (Some cl')
  obtain b where b: "drop 4 q = Type r # le_bytes 2 (next_tag cl) @ b" using ReadSize_frame [OF assms(5)] by metis
  obtain im where im: "handle_response (cl_dialect cl) (drop 4 q) [next_tag cl \<mapsto> new_entry dst] = Some im"
    "length q \<le> unat (cl_msize cl)"
    using Some by (auto simp: iter_frame [OF assms(5)] not_less split: if_splits)
  then obtain e d where "im = [next_tag cl \<mapsto> e]" "re_ch e = Some d"
    using handle_response_delivers [of _ _ _ b] unfolding b by blast
  then show ?thesis
    using exchange_delivers [OF assms(1-3), of N q peer, OF assms(4,5) im(2)] im(1) by blast
qed

lemma exchange_silent:
  assumes "idle cl" "EncodeFrame (next_tag cl) m = Inr p" "length p \<le> unat (cl_msize cl)"
    and "N p (cl_peer cl) = (Some [], peer)"
  shows "\<exists>cl'. run_state (exchange N m dst) cl = (Inl ErrClosed, cl') \<and> cl_closed cl' \<and> cl_files cl' = cl_files cl"
  by (rule exchange_dies [OF assms(1-3), of N "[]" peer, OF assms(4)])
    (simp add: readLoop_iter_def ReadSize_def rd_bind_def ReadUint32_def ReadLE_def)

section \<open>What arrives is what was sent\<close>

lemma newRMessage_dialect:
  assumes "speaks_of d r" "newRMessage d (Type r) = Some m0"
  shows "codec EncodeTo (DecodeFrom m0) (\<lambda>x. speaks_of d x \<and> Type x = Type r)"
proof (cases d)
  case protocolL
  have "p9l_newMessage (Type r) = Inr m0"
  proof (cases r)
    case (Base b)
    moreover have "base_Type b \<noteq> 7" "base_Type b \<noteq> 107" by (cases b; simp)+
    ultimately show ?thesis using assms(2)
      by (auto simp: newRMessage_def p9l_newMessage_def protocolL split: if_splits)
  next
    case (L l)
    moreover have "l_Type l \<noteq> 107" by (cases l) simp_all
    ultimately show ?thesis using assms(2)
      by (auto simp: newRMessage_def p9l_newMessage_def protocolL split: if_splits)
  qed (use assms(1) protocolL in simp)
  then show ?thesis using p9l.body by (simp add: protocolL)
next
  case protocolU
  have "p9u_newMessage (Type r) = Inr m0"
  proof (cases r)
    case (Base b)
    moreover have "base_Type b \<noteq> 7" "base_Type b \<noteq> 107" by (cases b; simp)+
    ultimately show ?thesis using assms(2)
      by (auto simp: newRMessage_def p9u_newMessage_def protocolU split: if_splits)
  next
    case (U u)
    moreover have "u_Type u \<noteq> 7" by (cases u) simp_all
    ultimately show ?thesis using assms(2)
      by (auto simp: newRMessage_def p9u_newMessage_def protocolU split: if_splits)
  qed (use assms(1) protocolU in simp)
  then show ?thesis using p9u.body by (simp add: protocolU)
qed (use assms(1) in simp)

lemma data_prevalid:
  assumes "EncodeTo r = Inr b"
  shows "prevalid (Type r) (Type r # le_bytes 2 tag @ b)"
proof -
  have "prevalid t (t # le_bytes 2 tag @ le_bytes 4 (of_nat (length d) :: u32) @ d)" if "length d \<le> MaxDataSize" for d t
  proof -
    have "unat (of_nat (length d) :: u32) = length d"
      using that by (intro unat_of_nat_small) (simp add: MaxDataSize_def)
    then show ?thesis by (simp add: prevalid_def)
  qed
  then show ?thesis
    using assms Type_data [of r]
    by (cases "Type r = 117 \<or> Type r = 41")
      (auto simp: prevalid_def codec_defs codec_iff rbind_Inr_iff WriteRaw_def WriteUint32_def)
qed

lemma handle_response_exact:
  assumes "speaks_of d r" "newRMessage d (Type r) \<noteq> None" "EncodeFrame tag r = Inr q"
  shows "handle_response d (drop 4 q) [tag \<mapsto> new_entry None]
    = Some [tag \<mapsto> (new_entry None)\<lparr>re_ch := Some (Response r)\<rparr>]"
  using assms(3)
proof (rule ReadSize_frame)
  fix b assume b: "EncodeTo r = Inr b" and q: "drop 4 q = Type r # le_bytes 2 tag @ b"
  obtain m0 where m0: "newRMessage d (Type r) = Some m0" using assms(2) by blast
  have "DecodeFrom m0 b = Inr (r, [])"
    using codec.roundtrip_exact [OF newRMessage_dialect [OF assms(1) m0]] b assms(1) by simp
  then show ?thesis
    using data_prevalid [OF b, of tag] m0
    by (cases "Type r = 117") (simp_all add: q handle_response_def Let_def new_entry_def deliver_def send_def)
qed

lemma handle_response_zc:
  assumes "EncodeFrame tag (Base (Rread data)) = Inr q" "length data \<le> length dst" "length dst < 2 ^ 32"
  shows "handle_response d (drop 4 q) [tag \<mapsto> new_entry (Some dst)]
    = Some [tag \<mapsto> \<lparr>re_ch = Some RreadSentinelOK, re_dst = Some (data @ drop (length data) dst), re_n = length data\<rparr>]"
  using assms(1)
proof (rule ReadSize_frame)
  fix b assume b: "EncodeTo (Base (Rread data)) = Inr b" and q: "drop 4 q = Type (Base (Rread data)) # le_bytes 2 tag @ b"
  have len: "length data \<le> MaxDataSize" and b': "b = le_bytes 4 (of_nat (length data) :: u32) @ data"
    using b by (auto simp: codec_defs codec_iff rbind_Inr_iff WriteRaw_def WriteUint32_def)
  have u: "unat (of_nat (length data) :: u32) = length data" "unat (of_nat (length dst) :: u32) = length dst"
    using len assms(3) by (auto intro!: unat_of_nat_small simp: MaxDataSize_def)
  have "\<not> (of_nat (length dst) :: u32) < of_nat (length data)" using assms(2) by (simp add: word_less_nat_alt u)
  then show ?thesis
    using len by (simp add: q b' handle_response_def Let_def new_entry_def zc_Rread_def u send_def)
qed

end
