(* ===== verification/ClientOps.thy ===== *)
theory ClientOps
  imports ClientConn
begin

text \<open>
  The client's wire operations and the operations on paths
  (\<^verbatim>\<open>src/client/ops.go\<close>, \<^verbatim>\<open>raw_advanced.go\<close>, \<^verbatim>\<open>dialect.go\<close>, \<^verbatim>\<open>walknew.go\<close>,
  \<^verbatim>\<open>session.go\<close> and the \<^verbatim>\<open>advanced_*.go\<close> files that work on paths). One definition per
  method; the methods of \<^verbatim>\<open>Raw\<close> are the operations of the connection under the same
  names.
\<close>

section \<open>Wire operations of both dialects\<close>

definition tattach :: "'p link \<Rightarrow> u32 \<Rightarrow> gostring \<Rightarrow> gostring \<Rightarrow> u32 \<Rightarrow> ('p, QID) op" where
  "tattach N fid uname aname uid =
     rtrip N (\<lambda>m. case m of Base (Rattach q) \<Rightarrow> Some q | _ \<Rightarrow> None) (Base (Tattach fid NoFid uname aname uid))"

definition twalk :: "'p link \<Rightarrow> u32 \<Rightarrow> u32 \<Rightarrow> gostring list \<Rightarrow> ('p, QID list) op" where
  "twalk N fid newFid names =
     rtrip N (\<lambda>m. case m of Base (Rwalk qs) \<Rightarrow> Some qs | _ \<Rightarrow> None) (Base (Twalk fid newFid names))"

definition tclunk :: "'p link \<Rightarrow> u32 \<Rightarrow> ('p, unit) op" where
  "tclunk N fid = rtrip N (\<lambda>m. case m of Base Rclunk \<Rightarrow> Some () | _ \<Rightarrow> None) (Base (Tclunk fid))"

definition tflush :: "'p link \<Rightarrow> u16 \<Rightarrow> ('p, unit) op" where
  "tflush N oldTag = rtrip N (\<lambda>m. case m of Base Rflush \<Rightarrow> Some () | _ \<Rightarrow> None) (Base (Tflush oldTag))"

definition tread :: "'p link \<Rightarrow> u32 \<Rightarrow> u64 \<Rightarrow> u32 \<Rightarrow> ('p, bytes) op" where
  "tread N fid offset count = try_bind
     (rtrip N (\<lambda>m. case m of Base (Rread d) \<Rightarrow> Some d | _ \<Rightarrow> None) (Base (Tread fid offset count))) (\<lambda>d.
     if length d > unat count then do { modify signalShutdown; err ErrReadCount } else ok d)"

text \<open>The bytes left in \<^verbatim>\<open>dst[:n]\<close>.\<close>

definition readAtZeroCopy :: "'p link \<Rightarrow> u32 \<Rightarrow> u64 \<Rightarrow> u32 \<Rightarrow> bytes \<Rightarrow> ('p, bytes) op" where
  "readAtZeroCopy N fid offset count dst = do {
     closed \<leftarrow> gets cl_closed;
     if closed then err ErrClosed
     else try_bind (exchange N (Base (Tread fid offset count)) (Some dst)) (\<lambda>(resp, data). case resp of
       RreadSentinelOK \<Rightarrow> ok data
     | Response m \<Rightarrow> (case toError m of
         Some e \<Rightarrow> err e
       | None \<Rightarrow> err (ErrUnexpectedResponse (Type m))))
   }"

definition twrite :: "'p link \<Rightarrow> u32 \<Rightarrow> u64 \<Rightarrow> bytes \<Rightarrow> ('p, u32) op" where
  "twrite N fid offset data = try_bind
     (rtrip N (\<lambda>m. case m of Base (Rwrite c) \<Rightarrow> Some c | _ \<Rightarrow> None) (Base (Twrite fid offset data))) (\<lambda>count.
     if unat count > length data then do { modify signalShutdown; err ErrWriteCount } else ok count)"

definition Tremove_op :: "'p link \<Rightarrow> u32 \<Rightarrow> ('p, unit) op" where
  "Tremove_op N fid = rtrip N (\<lambda>m. case m of Base Rremove \<Rightarrow> Some () | _ \<Rightarrow> None) (Base (Tremove fid))"

section \<open>Wire operations of one dialect\<close>

definition rtripL :: "'p link \<Rightarrow> (l_msg \<Rightarrow> 'a option) \<Rightarrow> l_msg \<Rightarrow> ('p, 'a) op" where
  "rtripL N sel req = try_bind (requireDialect protocolL) (\<lambda>_.
     rtrip N (\<lambda>m. case m of L r \<Rightarrow> sel r | _ \<Rightarrow> None) (L req))"

definition rtripU :: "'p link \<Rightarrow> (u_msg \<Rightarrow> 'a option) \<Rightarrow> u_msg \<Rightarrow> ('p, 'a) op" where
  "rtripU N sel req = try_bind (requireDialect protocolU) (\<lambda>_.
     rtrip N (\<lambda>m. case m of U r \<Rightarrow> sel r | _ \<Rightarrow> None) (U req))"

definition tlopen :: "'p link \<Rightarrow> u32 \<Rightarrow> u32 \<Rightarrow> ('p, QID \<times> u32) op" where
  "tlopen N fid flags = rtripL N (\<lambda>r. case r of Rlopen q i \<Rightarrow> Some (q, i) | _ \<Rightarrow> None) (Tlopen fid flags)"

definition tlcreate :: "'p link \<Rightarrow> u32 \<Rightarrow> gostring \<Rightarrow> u32 \<Rightarrow> u32 \<Rightarrow> u32 \<Rightarrow> ('p, QID \<times> u32) op" where
  "tlcreate N fid name flags mode gid =
     rtripL N (\<lambda>r. case r of Rlcreate q i \<Rightarrow> Some (q, i) | _ \<Rightarrow> None) (Tlcreate fid name flags mode gid)"

definition topen :: "'p link \<Rightarrow> u32 \<Rightarrow> u8 \<Rightarrow> ('p, QID \<times> u32) op" where
  "topen N fid mode = rtripU N (\<lambda>r. case r of Ropen q i \<Rightarrow> Some (q, i) | _ \<Rightarrow> None) (Topen fid mode)"

definition tcreate :: "'p link \<Rightarrow> u32 \<Rightarrow> gostring \<Rightarrow> u32 \<Rightarrow> u8 \<Rightarrow> gostring \<Rightarrow> ('p, QID \<times> u32) op" where
  "tcreate N fid name perm mode extension =
     rtripU N (\<lambda>r. case r of Rcreate q i \<Rightarrow> Some (q, i) | _ \<Rightarrow> None) (Tcreate fid name perm mode extension)"

definition Tsymlink_op :: "'p link \<Rightarrow> u32 \<Rightarrow> gostring \<Rightarrow> gostring \<Rightarrow> u32 \<Rightarrow> ('p, QID) op" where
  "Tsymlink_op N dfid name target gid =
     rtripL N (\<lambda>r. case r of Rsymlink q \<Rightarrow> Some q | _ \<Rightarrow> None) (Tsymlink dfid name target gid)"

definition Treadlink_op :: "'p link \<Rightarrow> u32 \<Rightarrow> ('p, gostring) op" where
  "Treadlink_op N fid = rtripL N (\<lambda>r. case r of Rreadlink t \<Rightarrow> Some t | _ \<Rightarrow> None) (Treadlink fid)"

definition Txattrwalk_op :: "'p link \<Rightarrow> u32 \<Rightarrow> u32 \<Rightarrow> gostring \<Rightarrow> ('p, u64) op" where
  "Txattrwalk_op N fid newFid name =
     rtripL N (\<lambda>r. case r of Rxattrwalk sz \<Rightarrow> Some sz | _ \<Rightarrow> None) (Txattrwalk fid newFid name)"

definition Txattrcreate_op :: "'p link \<Rightarrow> u32 \<Rightarrow> gostring \<Rightarrow> u64 \<Rightarrow> u32 \<Rightarrow> ('p, unit) op" where
  "Txattrcreate_op N fid name attrSize flags =
     rtripL N (\<lambda>r. case r of Rxattrcreate \<Rightarrow> Some () | _ \<Rightarrow> None) (Txattrcreate fid name attrSize flags)"

definition Tlock_op :: "'p link \<Rightarrow> u32 \<Rightarrow> u8 \<Rightarrow> u32 \<Rightarrow> u64 \<Rightarrow> u64 \<Rightarrow> u32 \<Rightarrow> gostring \<Rightarrow> ('p, u8) op" where
  "Tlock_op N fid lt flags start len procID clientID =
     rtripL N (\<lambda>r. case r of Rlock st \<Rightarrow> Some st | _ \<Rightarrow> None) (Tlock fid lt flags start len procID clientID)"

definition Tgetlock_op :: "'p link \<Rightarrow> u32 \<Rightarrow> u8 \<Rightarrow> u64 \<Rightarrow> u64 \<Rightarrow> u32 \<Rightarrow> gostring
    \<Rightarrow> ('p, u8 \<times> u64 \<times> u64 \<times> u32 \<times> gostring) op" where
  "Tgetlock_op N fid lt start len procID clientID =
     rtripL N (\<lambda>r. case r of Rgetlock t st ln pr ci \<Rightarrow> Some (t, st, ln, pr, ci) | _ \<Rightarrow> None)
       (Tgetlock fid lt start len procID clientID)"

definition Tstatfs_op :: "'p link \<Rightarrow> u32 \<Rightarrow> ('p, FSStat) op" where
  "Tstatfs_op N fid = rtripL N (\<lambda>r. case r of Rstatfs st \<Rightarrow> Some st | _ \<Rightarrow> None) (Tstatfs fid)"

definition Tfsync_op :: "'p link \<Rightarrow> u32 \<Rightarrow> bool \<Rightarrow> ('p, unit) op" where
  "Tfsync_op N fid dataSync =
     rtripL N (\<lambda>r. case r of Rfsync \<Rightarrow> Some () | _ \<Rightarrow> None) (Tfsync fid (if dataSync then 1 else 0))"

definition Tgetattr_op :: "'p link \<Rightarrow> u32 \<Rightarrow> u64 \<Rightarrow> ('p, Attr) op" where
  "Tgetattr_op N fid m = rtripL N (\<lambda>r. case r of Rgetattr a \<Rightarrow> Some a | _ \<Rightarrow> None) (Tgetattr fid m)"

definition Tsetattr_op :: "'p link \<Rightarrow> u32 \<Rightarrow> SetAttr \<Rightarrow> ('p, unit) op" where
  "Tsetattr_op N fid attr = rtripL N (\<lambda>r. case r of Rsetattr \<Rightarrow> Some () | _ \<Rightarrow> None) (Tsetattr fid attr)"

definition Trename_op :: "'p link \<Rightarrow> u32 \<Rightarrow> u32 \<Rightarrow> gostring \<Rightarrow> ('p, unit) op" where
  "Trename_op N fid dfid name = rtripL N (\<lambda>r. case r of Rrename \<Rightarrow> Some () | _ \<Rightarrow> None) (Trename fid dfid name)"

definition Trenameat_op :: "'p link \<Rightarrow> u32 \<Rightarrow> gostring \<Rightarrow> u32 \<Rightarrow> gostring \<Rightarrow> ('p, unit) op" where
  "Trenameat_op N oldDirFid oldName newDirFid newName =
     rtripL N (\<lambda>r. case r of Rrenameat \<Rightarrow> Some () | _ \<Rightarrow> None) (Trenameat oldDirFid oldName newDirFid newName)"

definition Tunlinkat_op :: "'p link \<Rightarrow> u32 \<Rightarrow> gostring \<Rightarrow> u32 \<Rightarrow> ('p, unit) op" where
  "Tunlinkat_op N dirFid name flags =
     rtripL N (\<lambda>r. case r of Runlinkat \<Rightarrow> Some () | _ \<Rightarrow> None) (Tunlinkat dirFid name flags)"

definition Tlink_op :: "'p link \<Rightarrow> u32 \<Rightarrow> u32 \<Rightarrow> gostring \<Rightarrow> ('p, unit) op" where
  "Tlink_op N dfid fid name = rtripL N (\<lambda>r. case r of Rlink \<Rightarrow> Some () | _ \<Rightarrow> None) (Tlink dfid fid name)"

definition Tmknod_op :: "'p link \<Rightarrow> u32 \<Rightarrow> gostring \<Rightarrow> u32 \<Rightarrow> u32 \<Rightarrow> u32 \<Rightarrow> u32 \<Rightarrow> ('p, QID) op" where
  "Tmknod_op N dfid name mode major minor gid =
     rtripL N (\<lambda>r. case r of Rmknod q \<Rightarrow> Some q | _ \<Rightarrow> None) (Tmknod dfid name mode major minor gid)"

definition Tmkdir_op :: "'p link \<Rightarrow> u32 \<Rightarrow> gostring \<Rightarrow> u32 \<Rightarrow> u32 \<Rightarrow> ('p, QID) op" where
  "Tmkdir_op N dfid name mode gid =
     rtripL N (\<lambda>r. case r of Rmkdir q \<Rightarrow> Some q | _ \<Rightarrow> None) (Tmkdir dfid name mode gid)"

definition Tstat_op :: "'p link \<Rightarrow> u32 \<Rightarrow> ('p, Stat) op" where
  "Tstat_op N fid = rtripU N (\<lambda>r. case r of Rstat st \<Rightarrow> Some st | _ \<Rightarrow> None) (Tstat fid)"

section \<open>Fids and files\<close>

definition acquireFid :: "('p, u32) op" where
  "acquireFid = State (\<lambda>cl. case fid_acquire (cl_fids cl) of
       None \<Rightarrow> (Inl ErrFidExhausted, cl)
     | Some (fid, fa) \<Rightarrow> (Inr fid, cl\<lparr>cl_fids := fa\<rparr>))"

definition releaseFid :: "u32 \<Rightarrow> ('p client, unit) state" where
  "releaseFid fid = modify (\<lambda>cl. cl\<lparr>cl_fids := fid_release fid (cl_fids cl)\<rparr>)"

text \<open>The number of a fid returns to the allocator when the server's view of it is known:
  a response, an error response, or the end of the connection.\<close>

definition cleanupFid :: "'p link \<Rightarrow> u32 \<Rightarrow> ('p, unit) op" where
  "cleanupFid N fid = do {
     r \<leftarrow> roundTrip N (Base (Tclunk fid));
     let res = (case r of
         Inl e \<Rightarrow> Inl e
       | Inr resp \<Rightarrow> (case toError resp of
           Some e \<Rightarrow> Inl e
         | None \<Rightarrow> if resp = Base Rclunk then Inr () else Inl (ErrUnexpectedResponse (Type resp))));
     (case res of
        Inr _ \<Rightarrow> releaseFid fid
      | Inl (ServerError _ _) \<Rightarrow> releaseFid fid
      | Inl ErrClosed \<Rightarrow> releaseFid fid
      | Inl _ \<Rightarrow> ret ());
     ret res
   }"

definition newFile :: "u32 \<Rightarrow> QID \<Rightarrow> u32 \<Rightarrow> ('p, nat) op" where
  "newFile fid qid iounit = State (\<lambda>cl. (Inr (length (cl_files cl)), cl\<lparr>cl_files := cl_files cl @
     [\<lparr>f_fid = fid, f_qid = qid, f_iounit = iounit, f_closed = False, f_offset = 0, f_cachedSize = 0,
       f_readdirOffset = 0\<rparr>]\<rparr>))"

definition file_at :: "nat \<Rightarrow> 'p client \<Rightarrow> File" where
  "file_at a cl = cl_files cl ! a"

definition set_file :: "nat \<Rightarrow> (File \<Rightarrow> File) \<Rightarrow> ('p client, unit) state" where
  "set_file a g = modify (\<lambda>cl. cl\<lparr>cl_files := (cl_files cl)[a := g (cl_files cl ! a)]\<rparr>)"

definition beginOp :: "nat \<Rightarrow> ('p, File) op" where
  "beginOp a = do { f \<leftarrow> gets (file_at a); if f_closed f then err ErrClosed else ok f }"

definition File_Close :: "'p link \<Rightarrow> nat \<Rightarrow> ('p, unit) op" where
  "File_Close N a = do {
     f \<leftarrow> gets (file_at a);
     if f_closed f then ok ()
     else do { set_file a (\<lambda>f. f\<lparr>f_closed := True\<rparr>); cleanupFid N (f_fid f) }
   }"

text \<open>After a failed or partial walk the number goes back at once.\<close>

definition walkNew :: "'p link \<Rightarrow> u32 \<Rightarrow> gostring list \<Rightarrow> ('p, u32 \<times> QID list) op" where
  "walkNew N base names = try_bind acquireFid (\<lambda>fid. do {
     r \<leftarrow> twalk N base fid names;
     case r of
       Inl e \<Rightarrow> do { releaseFid fid; err e }
     | Inr qids \<Rightarrow>
         if names \<noteq> [] \<and> length qids \<noteq> length names then do { releaseFid fid; err ErrPartialWalk }
         else ok (fid, qids)
   })"

definition File_Walk :: "'p link \<Rightarrow> nat \<Rightarrow> gostring list \<Rightarrow> ('p, nat) op" where
  "File_Walk N a names = try_bind (beginOp a) (\<lambda>f.
     if names = [] then err ErrNoNames
     else try_bind acquireFid (\<lambda>newFid. do {
       r \<leftarrow> twalk N (f_fid f) newFid names;
       case r of
         Inl e \<Rightarrow> do { releaseFid newFid; err e }
       | Inr qids \<Rightarrow>
           if length qids \<noteq> length names then do { releaseFid newFid; err ErrPartialWalk }
           else newFile newFid (last qids) 0
     }))"

definition clone_fid :: "'p link \<Rightarrow> nat \<Rightarrow> ('p, File \<times> u32) op" where
  "clone_fid N a = try_bind (beginOp a) (\<lambda>f. try_bind acquireFid (\<lambda>newFid. do {
     r \<leftarrow> twalk N (f_fid f) newFid [];
     case r of
       Inl e \<Rightarrow> do { releaseFid newFid; err e }
     | Inr _ \<Rightarrow> ok (f, newFid)
   }))"

definition File_Clone :: "'p link \<Rightarrow> nat \<Rightarrow> ('p, nat) op" where
  "File_Clone N a = try_bind (clone_fid N a) (\<lambda>(f, newFid).
     try_bind (newFile newFid (f_qid f) (f_iounit f)) (\<lambda>c. do {
       set_file c (\<lambda>g. g\<lparr>f_cachedSize := f_cachedSize f\<rparr>);
       ok c
     }))"

section \<open>Sessions\<close>

definition NoUID :: u32 where "NoUID = 0xFFFFFFFF"

definition Attach :: "'p link \<Rightarrow> gostring \<Rightarrow> gostring \<Rightarrow> u32 \<Rightarrow> ('p, nat) op" where
  "Attach N uname aname uid = try_bind acquireFid (\<lambda>fid. do {
     r \<leftarrow> tattach N fid uname aname uid;
     case r of
       Inl e \<Rightarrow> do { releaseFid fid; err e }
     | Inr qid \<Rightarrow> try_bind (newFile fid qid 0) (\<lambda>a. do {
         modify (\<lambda>cl. cl\<lparr>cl_root := Some a\<rparr>);
         ok a
       })
   })"

definition with_root :: "(File \<Rightarrow> ('p, 'a) op) \<Rightarrow> ('p, 'a) op" where
  "with_root k = do {
     root \<leftarrow> gets cl_root;
     case root of None \<Rightarrow> err ErrNotAttached | Some a \<Rightarrow> try_bind (beginOp a) k
   }"

text \<open>\<^verbatim>\<open>os.O_WRONLY\<close> is 1 and \<^verbatim>\<open>os.O_RDWR\<close> is 2.\<close>

definition posixToNinepMode :: "int \<Rightarrow> u8" where
  "posixToNinepMode flags =
     (let m = flags AND 3 in if m = 1 then 1 else if m = 2 then 2 else 0)"

definition open_fid :: "'p link \<Rightarrow> u32 \<Rightarrow> int \<Rightarrow> ('p, QID \<times> u32) op" where
  "open_fid N fid flags = do {
     d \<leftarrow> gets cl_dialect;
     case d of
       protocolL \<Rightarrow> tlopen N fid (word_of_int flags)
     | protocolU \<Rightarrow> topen N fid (posixToNinepMode flags)
     | protocolNone \<Rightarrow> err ErrDialectInvariant
   }"

definition OpenFile :: "'p link \<Rightarrow> gostring \<Rightarrow> int \<Rightarrow> ('p, nat) op" where
  "OpenFile N p flags = with_root (\<lambda>root.
     try_bind (walkNew N (f_fid root) (splitPath p)) (\<lambda>(fileFid, _). do {
       r \<leftarrow> open_fid N fileFid flags;
       case r of
         Inl e \<Rightarrow> do { cleanupFid N fileFid; err e }
       | Inr (qid, iounit) \<Rightarrow> newFile fileFid qid iounit
     }))"

definition OpenDir :: "'p link \<Rightarrow> gostring \<Rightarrow> ('p, nat) op" where
  "OpenDir N p = OpenFile N p 0"

text \<open>The parent of a path that is not the root, walked to a fresh fid.\<close>

definition with_parent :: "'p link \<Rightarrow> gostring \<Rightarrow> (u32 \<Rightarrow> gostring \<Rightarrow> ('p, 'a) op) \<Rightarrow> ('p, 'a) op" where
  "with_parent N p k = with_root (\<lambda>root.
     let full = splitPath p in
     if full = [] then err ErrRootPath
     else try_bind (walkNew N (f_fid root) (butlast full)) (\<lambda>(dirFid, _). k dirFid (last full)))"

definition create_fid_op :: "'p link \<Rightarrow> u32 \<Rightarrow> gostring \<Rightarrow> int \<Rightarrow> u32 \<Rightarrow> ('p, QID \<times> u32) op" where
  "create_fid_op N fid name flags perm = do {
     d \<leftarrow> gets cl_dialect;
     case d of
       protocolL \<Rightarrow> tlcreate N fid name (word_of_int flags) perm NoUID
     | protocolU \<Rightarrow> tcreate N fid name perm (posixToNinepMode flags) []
     | protocolNone \<Rightarrow> err ErrDialectInvariant
   }"

definition Create :: "'p link \<Rightarrow> gostring \<Rightarrow> int \<Rightarrow> u32 \<Rightarrow> ('p, nat) op" where
  "Create N p flags mode = with_parent N p (\<lambda>dirFid name. do {
     r \<leftarrow> create_fid_op N dirFid name flags (mode AND 0xFFF);
     case r of
       Inl e \<Rightarrow> do { cleanupFid N dirFid; err e }
     | Inr (qid, iounit) \<Rightarrow> newFile dirFid qid iounit
   })"

text \<open>The common end of \<^verbatim>\<open>Mkdir\<close>, \<^verbatim>\<open>Mknod\<close> and \<^verbatim>\<open>Symlink\<close>: a fid for the new node.\<close>

definition walk_made :: "'p link \<Rightarrow> u32 \<Rightarrow> gostring \<Rightarrow> ('p, QID) op \<Rightarrow> ('p, nat) op" where
  "walk_made N dirFid name mk = do {
     r \<leftarrow> mk;
     case r of
       Inl e \<Rightarrow> do { cleanupFid N dirFid; err e }
     | Inr qid \<Rightarrow> do {
         w \<leftarrow> walkNew N dirFid [name];
         cleanupFid N dirFid;
         case w of Inl e \<Rightarrow> err e | Inr (newFid, _) \<Rightarrow> newFile newFid qid 0
       }
   }"

definition Mkdir :: "'p link \<Rightarrow> gostring \<Rightarrow> u32 \<Rightarrow> u32 \<Rightarrow> ('p, nat) op" where
  "Mkdir N p mode gid = try_bind (requireDialect protocolL) (\<lambda>_. with_parent N p (\<lambda>dirFid name.
     walk_made N dirFid name (Tmkdir_op N dirFid name mode gid)))"

definition Mknod :: "'p link \<Rightarrow> gostring \<Rightarrow> u32 \<Rightarrow> u32 \<Rightarrow> u32 \<Rightarrow> u32 \<Rightarrow> ('p, nat) op" where
  "Mknod N p mode major minor gid = try_bind (requireDialect protocolL) (\<lambda>_. with_parent N p (\<lambda>dirFid name.
     walk_made N dirFid name (Tmknod_op N dirFid name mode major minor gid)))"

definition Symlink :: "'p link \<Rightarrow> gostring \<Rightarrow> gostring \<Rightarrow> ('p, nat) op" where
  "Symlink N linkPath target = try_bind (requireDialect protocolL) (\<lambda>_. with_parent N linkPath (\<lambda>dirFid name.
     walk_made N dirFid name (Tsymlink_op N dirFid name target NoUID)))"

definition atRemoveDir :: u32 where "atRemoveDir = 0x200"

text \<open>\<^verbatim>\<open>errors.Is(err, proto.EISDIR)\<close>: error number 21 in an error of the server.\<close>

definition Remove :: "'p link \<Rightarrow> gostring \<Rightarrow> ('p, unit) op" where
  "Remove N p = try_bind (requireDialect protocolL) (\<lambda>_. with_parent N p (\<lambda>dirFid name. do {
     r \<leftarrow> Tunlinkat_op N dirFid name 0;
     r \<leftarrow> (case r of
         Inl (ServerError e _) \<Rightarrow> if e = EISDIR then Tunlinkat_op N dirFid name atRemoveDir else ret r
       | _ \<Rightarrow> ret r);
     cleanupFid N dirFid;
     ret r
   }))"

text \<open>Two walks from the root, for the operations that take two paths.\<close>

definition with_two :: "'p link \<Rightarrow> u32 \<Rightarrow> gostring list \<Rightarrow> gostring list \<Rightarrow> (u32 \<Rightarrow> u32 \<Rightarrow> ('p, unit) op)
    \<Rightarrow> ('p, unit) op" where
  "with_two N root names1 names2 k = try_bind (walkNew N root names1) (\<lambda>(fid1, _). do {
     w \<leftarrow> walkNew N root names2;
     case w of
       Inl e \<Rightarrow> do { cleanupFid N fid1; err e }
     | Inr (fid2, _) \<Rightarrow> do {
         r \<leftarrow> k fid1 fid2;
         cleanupFid N fid2;
         cleanupFid N fid1;
         ret r
       }
   })"

definition Rename :: "'p link \<Rightarrow> gostring \<Rightarrow> gostring \<Rightarrow> ('p, unit) op" where
  "Rename N fromPath toPath = try_bind (requireDialect protocolL) (\<lambda>_. with_root (\<lambda>root.
     let fromFull = splitPath fromPath; toFull = splitPath toPath in
     if fromFull = [] \<or> toFull = [] then err ErrRootPath
     else with_two N (f_fid root) (butlast fromFull) (butlast toFull) (\<lambda>oldDirFid newDirFid.
       Trenameat_op N oldDirFid (last fromFull) newDirFid (last toFull))))"

definition Link :: "'p link \<Rightarrow> gostring \<Rightarrow> gostring \<Rightarrow> ('p, unit) op" where
  "Link N existingPath newPath = try_bind (requireDialect protocolL) (\<lambda>_. with_root (\<lambda>root.
     let srcFull = splitPath existingPath; dstFull = splitPath newPath in
     if srcFull = [] \<or> dstFull = [] then err ErrRootPath
     else with_two N (f_fid root) srcFull (butlast dstFull) (\<lambda>srcFid dstDirFid.
       Tlink_op N dstDirFid srcFid (last dstFull))))"

end
