(* ===== verification/ClientFile.thy ===== *)
theory ClientFile
  imports ClientOps Dirents
begin

text \<open>
  The operations on an open file (\<^verbatim>\<open>src/client/file.go\<close>, \<^verbatim>\<open>readdir.go\<close>,
  \<^verbatim>\<open>refresh_size.go\<close>, \<^verbatim>\<open>advanced_stat.go\<close>, \<^verbatim>\<open>advanced_setattr.go\<close>,
  \<^verbatim>\<open>advanced_statfs.go\<close>, \<^verbatim>\<open>advanced_fsync.go\<close>, \<^verbatim>\<open>advanced_symlink.go\<close>,
  \<^verbatim>\<open>advanced_lock.go\<close>, \<^verbatim>\<open>advanced_xattr.go\<close>). A method of \<^verbatim>\<open>File\<close> takes the index of the file. A read
  returns the bytes it has put into the buffer; a method that returns a count
  beside an error returns both.
\<close>

section \<open>Chunks\<close>

definition ioFrameOverhead :: u32 where "ioFrameOverhead = 24"

definition maxChunk :: "u32 \<Rightarrow> u32 \<Rightarrow> u32" where
  "maxChunk msize iounit =
     (let msizeLimit = msize - ioFrameOverhead;
          msizeLimit = (if iounit \<noteq> 0 \<and> iounit < msizeLimit then iounit else msizeLimit)
      in min msizeLimit (of_nat MaxDataSize))"

definition chunkLen :: "nat \<Rightarrow> u32 \<Rightarrow> u32" where
  "chunkLen n m = (if n > unat m then m else of_nat n)"

section \<open>Sequential reads and writes\<close>

text \<open>The count read and the error; a zero-byte response is the end of the file.\<close>

definition ReadCtx :: "'p link \<Rightarrow> nat \<Rightarrow> bytes \<Rightarrow> ('p, bytes) op" where
  "ReadCtx N a p = try_bind (beginOp a) (\<lambda>f.
     if p = [] then ok []
     else if sint (f_offset f) < 0 then err ErrNegativeOffset
     else do {
       msize \<leftarrow> gets cl_msize;
       let count = chunkLen (length p) (maxChunk msize (f_iounit f));
       try_bind (readAtZeroCopy N (f_fid f) (f_offset f) count (take (unat count) p)) (\<lambda>d. do {
         set_file a (\<lambda>f. f\<lparr>f_offset := f_offset f + of_nat (length d)\<rparr>);
         if d = [] then err IoEOF else ok d
       })
     })"

text \<open>The loop over the chunks of a write: the bytes written and the error. It returns if
  every chunk has at least one byte.\<close>

partial_function (option) write_loop :: "'p link \<Rightarrow> u32 \<Rightarrow> u32 \<Rightarrow> u64 \<Rightarrow> bytes \<Rightarrow> nat \<Rightarrow> 'p client
    \<Rightarrow> ((nat \<times> client_error option) \<times> 'p client) option" where
  "write_loop N fid iounit off p done_n cl =
     (if done_n < length p then
        let chunk = take (unat (maxChunk (cl_msize cl) iounit)) (drop done_n p) in
        case run_state (twrite N fid (off + of_nat done_n) chunk) cl of
          (Inl e, cl') \<Rightarrow> Some ((done_n, Some e), cl')
        | (Inr n, cl') \<Rightarrow>
            if unat n < length chunk then Some ((done_n + unat n, Some ErrShortWrite), cl')
            else write_loop N fid iounit off p (done_n + unat n) cl'
      else Some ((done_n, None), cl))"

definition WriteCtx :: "'p link \<Rightarrow> nat \<Rightarrow> bytes \<Rightarrow> 'p client \<Rightarrow> ((nat \<times> client_error option) \<times> 'p client) option" where
  "WriteCtx N a p cl =
     (let f = file_at a cl in
      if f_closed f then Some ((0, Some ErrClosed), cl)
      else if p = [] then Some ((0, None), cl)
      else if sint (f_offset f) < 0 then Some ((0, Some ErrNegativeOffset), cl)
      else map_option (\<lambda>((n, e), cl'). ((n, e),
             snd (run_state (set_file a (\<lambda>f. f\<lparr>f_offset := f_offset f + of_nat n\<rparr>)) cl')))
           (write_loop N (f_fid f) (f_iounit f) (f_offset f) p 0 cl))"

definition WriteAtCtx :: "'p link \<Rightarrow> nat \<Rightarrow> bytes \<Rightarrow> u64 \<Rightarrow> 'p client \<Rightarrow> ((nat \<times> client_error option) \<times> 'p client) option" where
  "WriteAtCtx N a p off cl =
     (let f = file_at a cl in
      if f_closed f then Some ((0, Some ErrClosed), cl)
      else if p = [] then Some ((0, None), cl)
      else if sint off < 0 then Some ((0, Some ErrNegativeOffset), cl)
      else write_loop N (f_fid f) (f_iounit f) off p 0 cl)"

section \<open>Positions\<close>

text \<open>The position returned and the error.\<close>

definition Seek :: "nat \<Rightarrow> u64 \<Rightarrow> int \<Rightarrow> ('p client, u64 \<times> client_error option) state" where
  "Seek a offset whence = do {
     f \<leftarrow> gets (file_at a);
     if f_closed f then ret (0, Some ErrClosed)
     else if whence \<notin> {0, 1, 2} then ret (f_offset f, Some ErrInvalidWhence)
     else do {
       let abs = (if whence = 0 then offset else if whence = 1 then f_offset f + offset else f_cachedSize f + offset);
       if sint abs < 0 then ret (f_offset f, Some ErrNegativePosition)
       else do { set_file a (\<lambda>f. f\<lparr>f_offset := abs\<rparr>); ret (abs, None) }
     }
   }"

text \<open>The loop of a positional read over the part of the buffer not yet filled, \<^verbatim>\<open>got\<close> being
  what has been read: every response carries at least one byte, or the loop ends.\<close>

function read_loop :: "'p link \<Rightarrow> u32 \<Rightarrow> u32 \<Rightarrow> u64 \<Rightarrow> bytes \<Rightarrow> bytes \<Rightarrow> 'p client
    \<Rightarrow> (bytes \<times> client_error option) \<times> 'p client" where
  "read_loop N fid iounit off p got cl =
     (if length got < length p then
        let count = chunkLen (length p - length got) (maxChunk (cl_msize cl) iounit);
            chunk = take (unat count) (drop (length got) p)
        in case run_state (readAtZeroCopy N fid (off + of_nat (length got)) count chunk) cl of
          (Inl e, cl') \<Rightarrow> ((got, Some e), cl')
        | (Inr d, cl') \<Rightarrow>
            if d = [] then ((got, Some IoEOF), cl')
            else read_loop N fid iounit off p (got @ d) cl'
      else ((got, None), cl))"
  by pat_completeness auto
termination
  by (relation "measure (\<lambda>(N, fid, iounit, off, p, got, cl). length p - length got)")
    (auto intro!: diff_less_mono2 simp flip: length_greater_0_conv)

declare read_loop.simps [simp del]

definition ReadAtCtx :: "'p link \<Rightarrow> nat \<Rightarrow> bytes \<Rightarrow> u64 \<Rightarrow> 'p client \<Rightarrow> (bytes \<times> client_error option) \<times> 'p client" where
  "ReadAtCtx N a p off cl =
     (let f = file_at a cl in
      if f_closed f then (([], Some ErrClosed), cl)
      else if p = [] then (([], None), cl)
      else if sint off < 0 then (([], Some ErrNegativeOffset), cl)
      else read_loop N (f_fid f) (f_iounit f) off p [] cl)"

section \<open>Directories\<close>

text \<open>The loop over one batch: the entries so far, the cursor, and whether the wanted number
  is reached.\<close>

fun readdir_batch :: "int \<Rightarrow> Dirent list \<Rightarrow> u64 \<Rightarrow> Dirent list \<Rightarrow> Dirent list \<times> u64 \<times> bool" where
  "readdir_batch n entries cursor [] = (entries, cursor, False)"
| "readdir_batch n entries cursor (d # ds) =
     (if n > 0 \<and> int (length (entries @ [d])) \<ge> n then (entries @ [d], Dirent_Offset d, True)
      else readdir_batch n (entries @ [d]) (Dirent_Offset d) ds)"

function readdir_loop :: "'p link \<Rightarrow> u32 \<Rightarrow> u32 \<Rightarrow> int \<Rightarrow> Dirent list \<Rightarrow> u64 \<Rightarrow> 'p client
    \<Rightarrow> (Dirent list \<times> client_error option) \<times> u64 \<times> 'p client" where
  "readdir_loop N fid iounit n entries cursor cl =
     (if n > 0 \<and> int (length entries) \<ge> n then ((take (nat n) entries, None), cursor, cl)
      else case run_state (roundTrip N (L (Treaddir fid cursor (maxChunk (cl_msize cl) iounit)))) cl of
        (Inl e, cl') \<Rightarrow> ((entries, Some e), cursor, cl')
      | (Inr resp, cl') \<Rightarrow> (case toError resp of
          Some e \<Rightarrow> ((entries, Some e), cursor, cl')
        | None \<Rightarrow> (case resp of
            L (Rreaddir data) \<Rightarrow>
              if data = [] then ((entries, None), cursor, cl')
              else (case ParseDirents data of
                (_, Some e) \<Rightarrow> ((entries, Some (ErrDirents e)), cursor, cl')
              | (parsed, None) \<Rightarrow>
                  if parsed = [] then ((entries, None), cursor, cl')
                  else (case readdir_batch n entries cursor parsed of
                    (entries', cursor', enough) \<Rightarrow>
                      if enough then ((take (nat n) entries', None), cursor', cl')
                      else if cursor' \<le> cursor then ((entries', Some ErrCursorStuck), cursor', cl')
                      else readdir_loop N fid iounit n entries' cursor' cl'))
          | _ \<Rightarrow> ((entries, Some (ErrUnexpectedResponse (Type resp))), cursor, cl'))))"
  by pat_completeness auto
termination
  by (relation "measure (\<lambda>(N, fid, iounit, n, entries, cursor, cl). 2 ^ 64 - unat cursor)")
    (auto simp: word_less_nat_alt not_le intro!: diff_less_mono2)

declare readdir_loop.simps [simp del]

definition readDir :: "'p link \<Rightarrow> nat \<Rightarrow> int \<Rightarrow> 'p client \<Rightarrow> (Dirent list \<times> client_error option) \<times> 'p client" where
  "readDir N a n cl =
     (let f = file_at a cl in
      if f_closed f then (([], Some ErrClosed), cl)
      else if cl_dialect cl \<noteq> protocolL then (([], Some ErrNotSupported), cl)
      else case readdir_loop N (f_fid f) (f_iounit f) n [] (f_readdirOffset f) cl of
        (r, cursor, cl') \<Rightarrow> (r, snd (run_state (set_file a (\<lambda>f. f\<lparr>f_readdirOffset := cursor\<rparr>)) cl')))"

definition DirEntry_IsDir :: "Dirent \<Rightarrow> bool" where
  "DirEntry_IsDir d \<longleftrightarrow> Dirent_Type d = DT_DIR"

text \<open>The type bits of \<^verbatim>\<open>fs.FileMode\<close>, by the \<^verbatim>\<open>DT_*\<close> byte.\<close>

definition DirEntry_Type :: "Dirent \<Rightarrow> u32" where
  "DirEntry_Type d =
     (let t = Dirent_Type d in
      if t = DT_DIR then 2 ^ 31
      else if t = DT_LNK then 2 ^ 27
      else if t = 6 then 2 ^ 26
      else if t = 2 then 2 ^ 26 OR 2 ^ 21
      else if t = 1 then 2 ^ 25
      else if t = 12 then 2 ^ 24
      else 0)"

section \<open>Attributes\<close>

definition AttrSize :: u64 where "AttrSize = 0x200"
definition AttrBasic :: u64 where "AttrBasic = 0x7ff"

definition RefreshSize :: "'p link \<Rightarrow> nat \<Rightarrow> ('p, unit) op" where
  "RefreshSize N a = try_bind (beginOp a) (\<lambda>f. do {
     d \<leftarrow> gets cl_dialect;
     try_bind (case d of
         protocolL \<Rightarrow> try_bind (Tgetattr_op N (f_fid f) AttrSize) (\<lambda>attr. ok (Attr_Size attr))
       | protocolU \<Rightarrow> try_bind (Tstat_op N (f_fid f)) (\<lambda>st. ok (Stat_Length st))
       | protocolNone \<Rightarrow> err ErrDialectInvariant) (\<lambda>sz. do {
       set_file a (\<lambda>f. f\<lparr>f_cachedSize := sz\<rparr>);
       ok ()
     })
   })"

text \<open>A time is the pair of seconds and nanoseconds given to \<^verbatim>\<open>time.Unix\<close>.\<close>

record FileInfo =
  fi_QID :: QID
  fi_Mode :: u32
  fi_Size :: u64
  fi_Atime :: "u64 \<times> u64"
  fi_Mtime :: "u64 \<times> u64"
  fi_UID :: u32
  fi_GID :: u32
  fi_Name :: gostring

definition attrToFileInfo :: "Attr \<Rightarrow> FileInfo" where
  "attrToFileInfo a = \<lparr>fi_QID = Attr_QID a, fi_Mode = Attr_Mode a, fi_Size = Attr_Size a,
     fi_Atime = (Attr_ATimeSec a, Attr_ATimeNSec a), fi_Mtime = (Attr_MTimeSec a, Attr_MTimeNSec a),
     fi_UID = Attr_UID a, fi_GID = Attr_GID a, fi_Name = []\<rparr>"

definition statToFileInfo :: "Stat \<Rightarrow> FileInfo" where
  "statToFileInfo st = \<lparr>fi_QID = Stat_QID st, fi_Mode = Stat_Mode st, fi_Size = Stat_Length st,
     fi_Atime = (ucast (Stat_Atime st), 0), fi_Mtime = (ucast (Stat_Mtime st), 0),
     fi_UID = Stat_NUid st, fi_GID = Stat_NGid st, fi_Name = Stat_Name st\<rparr>"

definition File_Stat :: "'p link \<Rightarrow> nat \<Rightarrow> ('p, FileInfo) op" where
  "File_Stat N a = try_bind (beginOp a) (\<lambda>f. do {
     d \<leftarrow> gets cl_dialect;
     case d of
       protocolL \<Rightarrow> try_bind (Tgetattr_op N (f_fid f) AttrBasic) (\<lambda>attr. ok (attrToFileInfo attr))
     | protocolU \<Rightarrow> try_bind (Tstat_op N (f_fid f)) (\<lambda>st. ok (statToFileInfo st))
     | protocolNone \<Rightarrow> err ErrDialectInvariant
   })"

definition File_Getattr :: "'p link \<Rightarrow> nat \<Rightarrow> u64 \<Rightarrow> ('p, Attr) op" where
  "File_Getattr N a m = try_bind (beginOp a) (\<lambda>f.
     try_bind (requireDialect protocolL) (\<lambda>_. Tgetattr_op N (f_fid f) m))"

definition File_Setattr :: "'p link \<Rightarrow> nat \<Rightarrow> SetAttr \<Rightarrow> ('p, unit) op" where
  "File_Setattr N a attr = try_bind (beginOp a) (\<lambda>f.
     try_bind (requireDialect protocolL) (\<lambda>_. Tsetattr_op N (f_fid f) attr))"

definition zero_SetAttr :: SetAttr where
  "zero_SetAttr = \<lparr>SetAttr_Valid = 0, SetAttr_Mode = 0, SetAttr_UID = 0, SetAttr_GID = 0, SetAttr_Size = 0,
     SetAttr_ATimeSec = 0, SetAttr_ATimeNSec = 0, SetAttr_MTimeSec = 0, SetAttr_MTimeNSec = 0\<rparr>"

definition Chmod :: "'p link \<Rightarrow> nat \<Rightarrow> u32 \<Rightarrow> ('p, unit) op" where
  "Chmod N a mode = File_Setattr N a (zero_SetAttr\<lparr>SetAttr_Valid := SetAttrMode, SetAttr_Mode := mode AND 0xFFF\<rparr>)"

definition Chown :: "'p link \<Rightarrow> nat \<Rightarrow> u32 \<Rightarrow> u32 \<Rightarrow> ('p, unit) op" where
  "Chown N a uid gid = File_Setattr N a
     (zero_SetAttr\<lparr>SetAttr_Valid := SetAttrUID OR SetAttrGID, SetAttr_UID := uid, SetAttr_GID := gid\<rparr>)"

definition Truncate :: "'p link \<Rightarrow> nat \<Rightarrow> u64 \<Rightarrow> ('p, unit) op" where
  "Truncate N a sz = File_Setattr N a (zero_SetAttr\<lparr>SetAttr_Valid := SetAttrSize, SetAttr_Size := sz\<rparr>)"

definition Statfs :: "'p link \<Rightarrow> nat \<Rightarrow> ('p, FSStat) op" where
  "Statfs N a = try_bind (beginOp a) (\<lambda>f.
     try_bind (requireDialect protocolL) (\<lambda>_. Tstatfs_op N (f_fid f)))"

definition Fsync :: "'p link \<Rightarrow> nat \<Rightarrow> bool \<Rightarrow> ('p, unit) op" where
  "Fsync N a dataSync = try_bind (beginOp a) (\<lambda>f. Tfsync_op N (f_fid f) dataSync)"

definition Readlink :: "'p link \<Rightarrow> nat \<Rightarrow> ('p, gostring) op" where
  "Readlink N a = try_bind (beginOp a) (\<lambda>f.
     try_bind (requireDialect protocolL) (\<lambda>_. Treadlink_op N (f_fid f)))"

section \<open>Locks\<close>

definition EACCES :: u32 where "EACCES = 13"

definition LockTypeUnlck :: u8 where "LockTypeUnlck = 2"
definition LockFlagBlock :: u32 where "LockFlagBlock = 1"

text \<open>The outcome of one \<^verbatim>\<open>Rlock\<close>: \<^verbatim>\<open>Some\<close> ends the call, \<^verbatim>\<open>None\<close> is \<^verbatim>\<open>LockStatusBlocked\<close> or
  \<^verbatim>\<open>LockStatusGrace\<close>.\<close>

definition lock_status :: "u8 \<Rightarrow> (client_error + unit) option" where
  "lock_status st =
     (if st = 0 then Some (Inr ())
      else if st = 1 \<or> st = 3 then None
      else if st = 2 then Some (Inl (ServerError EACCES []))
      else Some (Inl ErrLockStatusUnknown))"

definition unlockCleanup :: "'p link \<Rightarrow> u32 \<Rightarrow> u32 \<Rightarrow> ('p client, unit) state" where
  "unlockCleanup N fid procID = do { Tlock_op N fid LockTypeUnlck 0 0 0 procID []; ret () }"

text \<open>\<^verbatim>\<open>polls\<close> is the number of back-off waits that end before the caller's context is done.\<close>

primrec lock_poll :: "'p link \<Rightarrow> u32 \<Rightarrow> u8 \<Rightarrow> u32 \<Rightarrow> nat \<Rightarrow> ('p, unit) op" where
  "lock_poll N fid lt procID 0 = do {
     r \<leftarrow> Tlock_op N fid lt LockFlagBlock 0 0 procID [];
     case r of
       Inl e \<Rightarrow> err e
     | Inr st \<Rightarrow> (case lock_status st of
         Some res \<Rightarrow> ret res
       | None \<Rightarrow> do { unlockCleanup N fid procID; err CtxErr })
   }"
| "lock_poll N fid lt procID (Suc polls) = do {
     r \<leftarrow> Tlock_op N fid lt LockFlagBlock 0 0 procID [];
     case r of
       Inl e \<Rightarrow> err e
     | Inr st \<Rightarrow> (case lock_status st of
         Some res \<Rightarrow> ret res
       | None \<Rightarrow> lock_poll N fid lt procID polls)
   }"

definition File_Lock :: "'p link \<Rightarrow> nat \<Rightarrow> nat \<Rightarrow> u32 \<Rightarrow> u8 \<Rightarrow> ('p, unit) op" where
  "File_Lock N polls a procID lt = try_bind (beginOp a) (\<lambda>f. lock_poll N (f_fid f) lt procID polls)"

definition Unlock :: "'p link \<Rightarrow> nat \<Rightarrow> u32 \<Rightarrow> ('p, unit) op" where
  "Unlock N a procID = try_bind (beginOp a) (\<lambda>f.
     try_bind (Tlock_op N (f_fid f) LockTypeUnlck 0 0 0 procID []) (\<lambda>_. ok ()))"

definition TryLock :: "'p link \<Rightarrow> nat \<Rightarrow> u32 \<Rightarrow> u8 \<Rightarrow> ('p, bool) op" where
  "TryLock N a procID lt = try_bind (beginOp a) (\<lambda>f.
     try_bind (Tlock_op N (f_fid f) lt 0 0 0 procID []) (\<lambda>st. case lock_status st of
       Some (Inr _) \<Rightarrow> ok True
     | Some (Inl e) \<Rightarrow> err e
     | None \<Rightarrow> ok False))"

text \<open>\<^verbatim>\<open>None\<close> if the region is free, else type, start, length, process and client of the lock.\<close>

definition GetLock :: "'p link \<Rightarrow> nat \<Rightarrow> u32 \<Rightarrow> u8 \<Rightarrow> ('p, (u8 \<times> u64 \<times> u64 \<times> u32 \<times> gostring) option) op" where
  "GetLock N a procID lt = try_bind (beginOp a) (\<lambda>f.
     try_bind (Tgetlock_op N (f_fid f) lt 0 0 procID []) (\<lambda>l.
       ok (if fst l = LockTypeUnlck then None else Some l)))"

section \<open>Extended attributes\<close>

definition xattrChunk :: "u32 \<Rightarrow> u32" where
  "xattrChunk msize = (if msize \<le> ioFrameOverhead then 0 else msize - ioFrameOverhead)"

text \<open>The loop over the chunks of an attribute value, \<^verbatim>\<open>got\<close> being the part read.\<close>

function xattr_read_loop :: "'p link \<Rightarrow> u32 \<Rightarrow> nat \<Rightarrow> bytes \<Rightarrow> 'p client \<Rightarrow> (client_error + bytes) \<times> 'p client" where
  "xattr_read_loop N fid sz got cl =
     (if length got < sz then
        let want = min (unat (xattrChunk (cl_msize cl))) (sz - length got) in
        case run_state (tread N fid (of_nat (length got)) (of_nat want)) cl of
          (Inl e, cl') \<Rightarrow> (Inl e, cl')
        | (Inr d, cl') \<Rightarrow>
            if d = [] then (Inl ErrXattrShort, cl')
            else if length d > sz - length got then (Inl ErrXattrOverRead, cl')
            else xattr_read_loop N fid sz (got @ d) cl'
      else (Inr got, cl))"
  by pat_completeness auto
termination
  by (relation "measure (\<lambda>(N, fid, sz, got, cl). sz - length got)")
    (auto intro!: diff_less_mono2 simp flip: length_greater_0_conv)

declare xattr_read_loop.simps [simp del]

definition twoPhaseXattrRead :: "'p link \<Rightarrow> nat \<Rightarrow> gostring \<Rightarrow> ('p, bytes) op" where
  "twoPhaseXattrRead N a name = try_bind (beginOp a) (\<lambda>f. try_bind (requireDialect protocolL) (\<lambda>_.
     try_bind acquireFid (\<lambda>newFid. do {
       r \<leftarrow> Txattrwalk_op N (f_fid f) newFid name;
       msize \<leftarrow> gets cl_msize;
       case r of
         Inl e \<Rightarrow> do { releaseFid newFid; err e }
       | Inr sz \<Rightarrow>
           if unat sz > MaxDataSize then do { cleanupFid N newFid; err ErrXattrSize }
           else if sz = 0 then try_bind (cleanupFid N newFid) (\<lambda>_. ok [])
           else if xattrChunk msize = 0 then do { cleanupFid N newFid; err ErrXattrChunk }
           else do {
             r \<leftarrow> State (xattr_read_loop N newFid (unat sz) []);
             case r of
               Inl e \<Rightarrow> do { cleanupFid N newFid; err e }
             | Inr buf \<Rightarrow> try_bind (cleanupFid N newFid) (\<lambda>_. ok buf)
           }
     })))"

definition XattrGet :: "'p link \<Rightarrow> nat \<Rightarrow> gostring \<Rightarrow> ('p, bytes) op" where
  "XattrGet N a name = twoPhaseXattrRead N a name"

function xattr_write_loop :: "'p link \<Rightarrow> u32 \<Rightarrow> bytes \<Rightarrow> nat \<Rightarrow> 'p client \<Rightarrow> (client_error + unit) \<times> 'p client" where
  "xattr_write_loop N fid data off cl =
     (if off < length data then
        let part = take (unat (xattrChunk (cl_msize cl))) (drop off data) in
        case run_state (twrite N fid (of_nat off) part) cl of
          (Inl e, cl') \<Rightarrow> (Inl e, cl')
        | (Inr n, cl') \<Rightarrow>
            if n = 0 then (Inl ErrXattrShort, cl')
            else xattr_write_loop N fid data (off + unat n) cl'
      else (Inr (), cl))"
  by pat_completeness auto
termination
  by (relation "measure (\<lambda>(N, fid, data, off, cl). length data - off)") (auto intro!: diff_less_mono2 simp: unat_gt_0)

declare xattr_write_loop.simps [simp del]

text \<open>The \<^verbatim>\<open>File\<close> of the clone is local to the call: only its fid matters.\<close>

definition XattrSet :: "'p link \<Rightarrow> nat \<Rightarrow> gostring \<Rightarrow> bytes \<Rightarrow> u32 \<Rightarrow> ('p, unit) op" where
  "XattrSet N a name data flags = try_bind (requireDialect protocolL) (\<lambda>_.
     try_bind (clone_fid N a) (\<lambda>(_, fid). do {
       r \<leftarrow> Txattrcreate_op N fid name (of_nat (length data)) flags;
       msize \<leftarrow> gets cl_msize;
       case r of
         Inl e \<Rightarrow> do { cleanupFid N fid; err e }
       | Inr _ \<Rightarrow>
           if xattrChunk msize = 0 \<and> data \<noteq> [] then do { cleanupFid N fid; err ErrXattrChunk }
           else do {
             r \<leftarrow> State (xattr_write_loop N fid data 0);
             case r of
               Inl e \<Rightarrow> do { cleanupFid N fid; err e }
             | Inr _ \<Rightarrow> cleanupFid N fid
           }
     }))"

text \<open>\<^verbatim>\<open>strings.Split(s, "\x00")\<close> without the empty parts.\<close>

fun split_nul :: "bytes \<Rightarrow> bytes \<Rightarrow> gostring list" where
  "split_nul acc [] = (if acc = [] then [] else [acc])"
| "split_nul acc (b # bs) =
     (if b = 0 then (if acc = [] then [] else [acc]) @ split_nul [] bs else split_nul (acc @ [b]) bs)"

definition XattrList :: "'p link \<Rightarrow> nat \<Rightarrow> ('p, gostring list) op" where
  "XattrList N a = try_bind (twoPhaseXattrRead N a []) (\<lambda>data. ok (split_nul [] data))"

definition XattrRemove :: "'p link \<Rightarrow> nat \<Rightarrow> gostring \<Rightarrow> ('p, unit) op" where
  "XattrRemove N a name = XattrSet N a name [] 0"

end
