(* ===== verification/ClientLoops.thy ===== *)
theory ClientLoops
  imports ClientFile
begin

text \<open>
  The chunked loops of the client's \<^verbatim>\<open>File\<close> (\<^verbatim>\<open>src/client/file.go\<close>). Chunks are
  positive, so every call of \<^verbatim>\<open>Write\<close> and \<^verbatim>\<open>WriteAt\<close> returns, whatever the peer
  answers. The locale \<^verbatim>\<open>remote_file\<close> states what the loops rely on of the file at the
  other end, and shows that over such a file they read and write whole ranges.
\<close>

section \<open>Positive chunks\<close>

lemma maxChunk_pos: "ioFrameOverhead < msize \<Longrightarrow> 0 < unat (maxChunk msize iounit)"
  by (auto simp: maxChunk_def Let_def min_def unat_gt_0 MaxDataSize_def word_greater_zero_iff)

lemma maxChunk_le:
  assumes "ioFrameOverhead < msize"
  shows "unat (maxChunk msize iounit) + 24 \<le> unat msize" "unat (maxChunk msize iounit) \<le> MaxDataSize"
proof -
  have "unat (msize - ioFrameOverhead) + 24 = unat msize"
    using assms by (subst unat_sub) (auto simp: ioFrameOverhead_def word_less_nat_alt word_le_nat_alt)
  moreover have "maxChunk msize iounit \<le> msize - ioFrameOverhead" "maxChunk msize iounit \<le> of_nat MaxDataSize"
    by (auto simp: maxChunk_def Let_def min_le_iff_disj)
  ultimately show "unat (maxChunk msize iounit) + 24 \<le> unat msize" "unat (maxChunk msize iounit) \<le> MaxDataSize"
    by (auto simp: word_le_nat_alt MaxDataSize_def)
qed

section \<open>What the handshake settled stays\<close>

abbreviation settled :: "u32 \<Rightarrow> protocol \<Rightarrow> 'p client \<Rightarrow> bool" where
  "settled k d cl \<equiv> cl_msize cl = k \<and> cl_dialect cl = d"

lemma readLoop_settled: "settled (cl_msize cl) (cl_dialect cl) (snd (readLoop tag cl))"
proof (induction tag cl rule: readLoop.induct)
  case (1 tag cl)
  show ?case
    using 1 by (subst (1 2) readLoop.simps) (auto simp: readLoop_iter_def signalShutdown_def
        split: option.splits sum.splits if_splits)
qed

lemma keeps_try [keeps_intro]:
  "keeps P m \<Longrightarrow> (\<And>x. keeps P (f x)) \<Longrightarrow> keeps P (try_bind m f)"
  unfolding try_bind_def by (intro keeps_intro)

lemma exchange_settled: "keeps (settled k d) (exchange N m dst)"
proof -
  have "keeps (settled k d) (writeT N tag m)" for tag
    by (auto simp: keeps_def writeT_def signalShutdown_def Let_def split: sum.split prod.split option.split)
  moreover have "keeps (settled k d) (State (readLoop tag))" for tag
    using readLoop_settled by (auto simp: keeps_def)
  moreover have "keeps (settled k d) (modify (retire tag))" for tag by (simp add: keeps_def retire_def)
  moreover have "keeps (settled k d) (modify (\<lambda>cl. cl\<lparr>cl_tags := ta, cl_inflight := f cl\<rparr>))" for ta f
    by (simp add: keeps_def)
  ultimately show ?thesis unfolding exchange_def by (intro keeps_intro)
qed

lemma roundTrip_settled: "keeps (settled k d) (roundTrip N m)"
  unfolding roundTrip_def by (intro keeps_intro exchange_settled)

lemma twrite_msize: "run_state (twrite N fid off data) cl = (r, cl') \<Longrightarrow> cl_msize cl' = cl_msize cl"
proof -
  have "keeps (settled k d) (modify signalShutdown)" for k d by (simp add: keeps_def signalShutdown_def)
  then have "keeps (settled (cl_msize cl) (cl_dialect cl)) (twrite N fid off data)"
    unfolding twrite_def rtrip_def by (intro keeps_intro roundTrip_settled)
  from keepsD [OF this, of cl] show "run_state (twrite N fid off data) cl = (r, cl') \<Longrightarrow> ?thesis" by simp
qed

lemma twrite_count: "run_state (twrite N fid off data) cl = (Inr n, cl') \<Longrightarrow> unat n \<le> length data"
  by (auto simp: twrite_def try_bind_def split: prod.splits sum.splits if_splits)

section \<open>Loops return\<close>

lemma write_loop_returns:
  assumes "ioFrameOverhead < cl_msize cl" "done_n \<le> length p"
  shows "\<exists>n e cl'. write_loop N fid iounit off p done_n cl = Some ((n, e), cl')
    \<and> n \<le> length p \<and> (n = length p \<or> (\<exists>err. e = Some err))"
  using assms
proof (induction "length p - done_n" arbitrary: done_n cl rule: less_induct)
  case less
  let ?chunk = "take (unat (maxChunk (cl_msize cl) iounit)) (drop done_n p)"
  obtain r cl' where run: "run_state (twrite N fid (off + of_nat done_n) ?chunk) cl = (r, cl')" by fastforce
  have ms: "ioFrameOverhead < cl_msize cl'" using less.prems(1) twrite_msize [OF run] by simp
  show ?case
  proof (cases "done_n < length p")
    case True
    then have pos: "0 < length ?chunk" "length ?chunk \<le> length p - done_n"
      using maxChunk_pos [OF less.prems(1), of iounit] by auto
    show ?thesis
    proof (cases r)
      case (Inl e)
      then show ?thesis using True run less.prems by (subst write_loop.simps) (simp add: Let_def)
    next
      case (Inr n)
      have n: "unat n \<le> length ?chunk" using twrite_count run Inr by blast
      show ?thesis
      proof (cases "unat n < length ?chunk")
        case short: True
        then show ?thesis using True run Inr n pos by (subst write_loop.simps) (auto simp: Let_def)
      next
        case False
        then have "unat n = length ?chunk" using n by linarith
        then have "length p - (done_n + unat n) < length p - done_n" "done_n + unat n \<le> length p"
          using pos True by linarith+
        from less.hyps [OF this(1) ms this(2)] show ?thesis
          using True run Inr False by (subst write_loop.simps) (simp add: Let_def del: length_take)
      qed
    qed
  next
    case False
    then show ?thesis using less.prems by (subst write_loop.simps) simp
  qed
qed

section \<open>A file on the other side\<close>

text \<open>What the loops rely on: while the file is ready, a read returns what the file holds
  there, and a write within the limit is taken whole.\<close>

locale remote_file =
  fixes N :: "'p link" and fid :: u32 and ready :: "'p client \<Rightarrow> bool" and content :: "'p client \<Rightarrow> bytes"
  assumes room: "ready cl \<Longrightarrow> ioFrameOverhead < cl_msize cl"
    and reads: "ready cl \<Longrightarrow> unat cnt + 24 \<le> unat (cl_msize cl) \<Longrightarrow> unat cnt \<le> MaxDataSize
      \<Longrightarrow> length dst = unat cnt \<Longrightarrow>
      \<exists>cl'. run_state (readAtZeroCopy N fid off cnt dst) cl = (Inr (read_at (content cl) (unat cnt) off), cl')
        \<and> ready cl' \<and> content cl' = content cl \<and> cl_files cl' = cl_files cl \<and> cl_msize cl' = cl_msize cl"
    and writes: "ready cl \<Longrightarrow> length data + 24 \<le> unat (cl_msize cl) \<Longrightarrow> length data \<le> MaxDataSize
      \<Longrightarrow> write_at (content cl) data off = Inr new \<Longrightarrow>
      \<exists>cl'. run_state (twrite N fid off data) cl = (Inr (of_nat (length data)), cl')
        \<and> ready cl' \<and> content cl' = new \<and> cl_files cl' = cl_files cl \<and> cl_msize cl' = cl_msize cl"
begin

lemma write_loop_ready:
  assumes "ready cl" "done_n < length p" "unat off + length p \<le> maxMemFileSize"
  shows "\<exists>cl'. write_loop N fid iounit off p done_n cl = Some ((length p, None), cl') \<and> ready cl'
    \<and> cl_files cl' = cl_files cl \<and> cl_msize cl' = cl_msize cl
    \<and> write_at (content cl) (drop done_n p) (off + of_nat done_n) = Inr (content cl')"
  using assms
proof (induction "length p - done_n" arbitrary: done_n cl rule: less_induct)
  case less
  let ?m = "unat (maxChunk (cl_msize cl) iounit)" and ?off = "off + of_nat done_n :: u64"
  let ?chunk = "take ?m (drop done_n p)" and ?rest = "drop (done_n + ?m) p"
  have m: "0 < ?m" "?m + 24 \<le> unat (cl_msize cl)" "?m \<le> MaxDataSize"
    using maxChunk_pos maxChunk_le room [OF less.prems(1)] by blast+
  have split: "drop done_n p = ?chunk @ ?rest"
    by (metis add.commute append_take_drop_id drop_drop)
  have "done_n + unat off < 2 ^ 64" using less.prems by (simp add: maxMemFileSize_def MaxDataSize_def)
  then have off: "unat ?off = unat off + done_n"
    by (subst unat_word_ariths(1)) (simp add: unsigned_of_nat take_bit_nat_eq_self)
  obtain new where new: "write_at (content cl) ?chunk ?off = Inr new"
    using less.prems off by (fastforce simp: write_at_eq)
  have "length ?chunk + 24 \<le> unat (cl_msize cl)" "length ?chunk \<le> MaxDataSize" using m by simp_all
  from writes [OF less.prems(1) this new]
  obtain cl1 where cl1: "run_state (twrite N fid ?off ?chunk) cl = (Inr (of_nat (length ?chunk)), cl1)"
    "ready cl1" "content cl1 = new" "cl_files cl1 = cl_files cl" "cl_msize cl1 = cl_msize cl"
    by blast
  have n: "unat (of_nat (length ?chunk) :: u32) = length ?chunk"
    using m(3) by (intro unat_of_nat_small) (simp add: MaxDataSize_def min_def)
  have step: "write_loop N fid iounit off p done_n cl = write_loop N fid iounit off p (done_n + length ?chunk) cl1"
    using less.prems(2) cl1(1) n by (subst write_loop.simps) (simp add: Let_def del: length_take)
  show ?case
  proof (cases "done_n + length ?chunk < length p")
    case True
    then have dn: "done_n + length ?chunk = done_n + ?m" "length p - (done_n + ?m) < length p - done_n"
      using m(1) less.prems(2) by auto
    have "write_at new ?rest (?off + of_nat (length ?chunk)) = write_at (content cl) (?chunk @ ?rest) ?off"
      by (rule write_at_append [OF new]) (use off less.prems True in auto)
    then show ?thesis
      using less.hyps [of "done_n + ?m" cl1] dn True cl1 less.prems(3)
      by (simp add: step flip: split) (simp add: add.assoc)
  next
    case False
    then have "?rest = []" "done_n + length ?chunk = length p" using less.prems(2) by auto
    then show ?thesis
      using cl1 new split by (simp only: step) (subst write_loop.simps, simp)
  qed
qed

lemma read_loop_ready:
  assumes "ready cl" "length got \<le> length p" "unat off + length p < 2 ^ 64"
    "got = take (length got) (drop (unat off) (content cl))"
  shows "\<exists>cl'. read_loop N fid iounit off p got cl = ((read_at (content cl) (length p) off,
      if length (read_at (content cl) (length p) off) < length p then Some IoEOF else None), cl')
    \<and> ready cl' \<and> content cl' = content cl \<and> cl_files cl' = cl_files cl"
  using assms
proof (induction "length p - length got" arbitrary: got cl rule: less_induct)
  case less
  let ?c = "content cl" and ?k = "length got"
  let ?cnt = "chunkLen (length p - ?k) (maxChunk (cl_msize cl) iounit)" and ?off = "off + of_nat (length got) :: u64"
  let ?dst = "take (unat ?cnt) (drop ?k p)"
  have m: "0 < unat (maxChunk (cl_msize cl) iounit)" "unat (maxChunk (cl_msize cl) iounit) + 24 \<le> unat (cl_msize cl)"
    "unat (maxChunk (cl_msize cl) iounit) \<le> MaxDataSize"
    using maxChunk_pos maxChunk_le room [OF less.prems(1)] by blast+
  have cnt: "unat ?cnt = min (length p - ?k) (unat (maxChunk (cl_msize cl) iounit))"
  proof (cases "length p - ?k > unat (maxChunk (cl_msize cl) iounit)")
    case False
    then have "length p - ?k \<le> unat (maxChunk (cl_msize cl) iounit)" by simp
    from order_le_less_trans [OF this unsigned_less] have "length p - ?k < 2 ^ LENGTH(32)" .
    then show ?thesis using False by (simp add: chunkLen_def)
  qed (simp add: chunkLen_def)
  show ?case
  proof (cases "?k < length p")
    case True
    have "?k + unat off < 2 ^ 64" using less.prems True by simp
    then have off: "unat ?off = unat off + ?k"
      by (subst unat_word_ariths(1)) (simp add: unsigned_of_nat take_bit_nat_eq_self)
    let ?d = "read_at ?c (unat ?cnt) ?off"
    have d: "?d = take (unat ?cnt) (drop ?k (drop (unat off) ?c))" by (simp add: read_at_eq off add.commute)
    have "unat ?cnt + 24 \<le> unat (cl_msize cl)" "unat ?cnt \<le> MaxDataSize" "length ?dst = unat ?cnt"
      using m unfolding cnt by simp_all
    from reads [OF less.prems(1) this, of ?off]
    obtain cl1 where cl1: "run_state (readAtZeroCopy N fid ?off ?cnt ?dst) cl = (Inr ?d, cl1)" "ready cl1"
      "content cl1 = ?c" "cl_files cl1 = cl_files cl"
      by blast
    have got: "got @ ?d = take (?k + unat ?cnt) (drop (unat off) ?c)"
      unfolding d take_add by (subst less.prems(4)) simp
    show ?thesis
    proof (cases "?d = []")
      case empty: True
      have "0 < unat ?cnt" using cnt m(1) True by simp
      then have "length (drop (unat off) ?c) \<le> ?k" using empty by (simp add: d)
      then have "read_at ?c (length p) off = got"
        unfolding read_at_eq by (subst less.prems(4)) (use less.prems(2) in simp)
      then show ?thesis
        using empty True cl1 by (subst read_loop.simps) (simp add: Let_def)
    next
      case False
      have len: "length (got @ ?d) \<le> length p" using cnt less.prems(2) unfolding got by simp
      have dec: "length p - length (got @ ?d) < length p - ?k" using False len True by (cases ?d) auto
      have gd: "got @ ?d = take (length (got @ ?d)) (drop (unat off) (content cl1))"
        unfolding cl1(3) got by (simp add: min_def)
      from less.hyps [OF dec cl1(2) len less.prems(3) gd] show ?thesis
        using True False cl1 by (subst read_loop.simps) (simp add: Let_def)
    qed
  next
    case False
    then have "read_at ?c (length p) off = got" using less.prems(2,4) by (simp add: read_at_eq)
    then show ?thesis using False less.prems by (subst read_loop.simps) simp
  qed
qed

end

section \<open>Writes return\<close>


text \<open>A peer that takes every frame and never answers.\<close>

definition mute_client :: "unit client" where
  "mute_client = \<lparr>cl_dialect = protocolL, cl_msize = 256, cl_tags = newTagAllocator 1, cl_fids = newFidAllocator,
     cl_inflight = Map.empty, cl_root = None, cl_closed = False,
     cl_files = [\<lparr>f_fid = 1, f_qid = \<lparr>QID_Type = 0, QID_Version = 0, QID_Path = 1\<rparr>, f_iounit = 0, f_closed = False,
       f_offset = 0, f_cachedSize = 0, f_readdirOffset = 0\<rparr>], cl_wire = [], cl_peer = ()\<rparr>"


end
