(* ===== verification/ConnServe.thy ===== *)
theory ConnServe
  imports Conn
begin

text \<open>
  A connection of the server from its first byte to its end
  (\<^verbatim>\<open>src/server/conn.go\<close>, \<^verbatim>\<open>src/server/cleanup.go\<close>): the handshake, the request loop and the
  cleanup. Whatever bytes arrive, the connection leaves no fid bound and no
  reference held.
\<close>

section \<open>The life of a connection\<close>

text \<open>What a successful negotiation sets.\<close>

definition start_conn :: "int \<Rightarrow> u32 \<times> protocol \<Rightarrow> ('n, 'h, 'x, 'w) conn \<Rightarrow> ('n, 'h, 'x, 'w) conn" where
  "start_conn now res cn = (case res of (msize, p) \<Rightarrow>
     cn\<lparr>cn_cfg := (cn_cfg cn)\<lparr>c_msize := msize, c_protocol := p\<rparr>, cn_lastNegotiation := now\<rparr>)"

text \<open>The handlers have drained unless the loop ended in a handler that never returns.\<close>

definition cleanup :: "('n, 'h, 'x, 'w) vfs \<Rightarrow> (nat set \<Rightarrow> nat list) \<Rightarrow> bool \<Rightarrow> ('n, 'h, 'x, 'w) srv
    \<Rightarrow> ('n, 'h, 'x, 'w) srv" where
  "cleanup V order drained s = snd (run_state (cleanup_fids V drained (order (fst (clunkAll (s_tab s))))) s)"

definition conn_serve :: "('n, 'h, 'x, 'w) vfs \<Rightarrow> (nat set \<Rightarrow> nat list) \<Rightarrow> (nat \<Rightarrow> int)
    \<Rightarrow> ('n, 'h, 'x, 'w) conn \<Rightarrow> bytes \<Rightarrow> bytes \<times> ('n, 'h, 'x, 'w) conn" where
  "conn_serve V order clock cn input = (case negotiateVersion (cn_maxMsize cn) input of
       (out, Inl _) \<Rightarrow> (out, cn)
     | (out, Inr (res, rest)) \<Rightarrow> (case serve_conn V order clock 1 (start_conn (clock 0) res cn) rest of
         (later, e, cn') \<Rightarrow> (out @ later, cn'\<lparr>cn_srv := cleanup V order (e = Closed) (cn_srv cn')\<rparr>)))"

section \<open>References over a connection\<close>

text \<open>The contract of the file system is about its own calls: negotiation does not touch it.\<close>

lemma vfs_contract_cong: "vfs_contract V c P \<Longrightarrow> c_attacher c' = c_attacher c \<Longrightarrow> vfs_contract V c' P"
  by (simp add: vfs_contract_def)

lemma refs_vfs_cong: "refs_vfs V c \<Longrightarrow> c_attacher c' = c_attacher c \<Longrightarrow> refs_vfs V c'"
  unfolding refs_vfs_def by (rule vfs_contract_cong)

text \<open>An order in which Go may range over the states taken from the table.\<close>

definition ranges :: "(nat set \<Rightarrow> nat list) \<Rightarrow> bool" where
  "ranges order \<longleftrightarrow> (\<forall>A. finite A \<longrightarrow> distinct (order A) \<and> set (order A) = A)"

lemma cleanup_refs_ok:
  assumes "refs_vfs V c" "ranges order" "refs_ok V [] s"
  shows "refs_ok V [] (cleanup V order drained s)"
proof -
  have "finite (fst (clunkAll (s_tab s)))" by (simp add: clunkAll_def)
  then show ?thesis
    using refs_vfs.cleanup_refs [OF assms(1,3)] assms(2) by (simp add: cleanup_def ranges_def)
qed

lemma conn_step_refs:
  assumes "refs_vfs V (cn_cfg cn)" "ranges order" "refs_ok V [] (cn_srv cn)"
    and "conn_step V order now cn input = (out, e, cn', rest)"
  shows "refs_ok V [] (cn_srv cn') \<and> c_attacher (cn_cfg cn') = c_attacher (cn_cfg cn)"
proof -
  note disp = refs_vfs.dispatch_refs [OF assms(1,3)]
  have req: "refs_ok V [] s" if "request_step V (cn_cfg cn) tag m (cn_srv cn) = (r, s)" for tag m r s
    using that disp [of m] assms(3)
    by (auto simp: request_step_def split: message.splits base_msg.splits prod.splits outcome.splits)
  have "refs_ok V [] (cn_srv cn1) \<and> c_attacher (cn_cfg cn1) = c_attacher (cn_cfg cn)"
    if "handleReVersion V order now tag body cn = (o1, b, cn1)" for tag body o1 b cn1
    using that cleanup_refs_ok [OF assms(1-3), of True, unfolded cleanup_def] assms(3)
    by (auto simp: handleReVersion_def Let_def split: if_splits sum.splits base_msg.splits prod.splits)
  then show ?thesis
    using assms(3,4) req by (auto simp: conn_step_def split: option.splits recvFrame.splits prod.splits)
qed

lemma serve_conn_refs:
  assumes "refs_vfs V (cn_cfg cn)" "ranges order" "refs_ok V [] (cn_srv cn)"
    and "serve_conn V order clock k cn input = (out, e, cn')"
  shows "refs_ok V [] (cn_srv cn') \<and> c_attacher (cn_cfg cn') = c_attacher (cn_cfg cn)"
  using assms
proof (induction V order clock k cn input arbitrary: out rule: serve_conn.induct)
  case (1 V order clock k cn input)
  obtain o1 e1 cn1 rest where step: "conn_step V order (clock k) cn input = (o1, e1, cn1, rest)"
    by (cases "conn_step V order (clock k) cn input") auto
  note s1 = conn_step_refs [OF 1(2-4) step]
  show ?case
  proof (cases e1)
    case None
    obtain o2 where "serve_conn V order clock (Suc k) cn1 rest = (o2, e, cn')"
      using 1(5) step None by (subst (asm) serve_conn.simps) (auto simp: sends_def split: prod.splits)
    moreover have "refs_vfs V (cn_cfg cn1)" using refs_vfs_cong [OF 1(2)] s1 by blast
    ultimately show ?thesis
      using 1(1) [OF step [symmetric] refl None refl] s1 1(3) by metis
  next
    case (Some a)
    then show ?thesis using 1(5) step s1 by (subst (asm) serve_conn.simps) simp
  qed
qed

text \<open>C6. Nothing is left behind. Over a file system that keeps the contract, whatever bytes a client
  sends on a fresh connection (garbage, truncated frames, renegotiations and
  requests in any order included), when the connection ends its fid table is empty
  and the reference count of every inode is zero again, in whatever order the fid
  states are released.\<close>

theorem connection_releases_all:
  assumes "refs_vfs V (cn_cfg cn)" "vfs_contract V (cn_cfg cn) (\<lambda>D s. fids (s_tab s) = Map.empty)"
    and "fresh_conn (cn_srv cn)" "ranges order"
    and "conn_serve V order clock cn input = (out, cn')"
  shows "fids (s_tab (cn_srv cn')) = Map.empty \<and> i_refs (s_inodes (cn_srv cn') i) = 0"
proof -
  have fresh: "refs_ok V [] (cn_srv cn)"
    using assms(3) by (simp add: fresh_conn_def refs_ok_def users_def newFidTable_def ft_ok_def)
  show ?thesis
  proof (cases "snd (negotiateVersion (cn_maxMsize cn) input)")
    case (Inl e)
    then have "cn' = cn" using assms(5) by (auto simp: conn_serve_def split: prod.splits)
    then show ?thesis using assms(3) by (simp add: fresh_conn_def newFidTable_def)
  next
    case (Inr r)
    obtain res rest where r: "r = (res, rest)" by fastforce
    let ?cn = "start_conn (clock 0) res cn"
    obtain later e cn1 where run: "serve_conn V order clock 1 ?cn rest = (later, e, cn1)"
      by (cases "serve_conn V order clock 1 ?cn rest") auto
    have cn': "cn_srv cn' = cleanup V order (e = Closed) (cn_srv cn1)"
      using assms(5) Inr run r by (auto simp: conn_serve_def split: prod.splits)
    have att: "c_attacher (cn_cfg ?cn) = c_attacher (cn_cfg cn)" "cn_srv ?cn = cn_srv cn"
      by (simp_all add: start_conn_def split: prod.split)
    have end_ok: "refs_ok V [] (cn_srv cn1)" and att1: "c_attacher (cn_cfg cn1) = c_attacher (cn_cfg cn)"
      using serve_conn_refs [OF refs_vfs_cong [OF assms(1) att(1)] assms(4) _ run] fresh att by simp_all
    have clean: "refs_ok V [] (cn_srv cn')"
      unfolding cn' by (rule cleanup_refs_ok [OF refs_vfs_cong [OF assms(1) att1] assms(4) end_ok])
    have "fids (s_tab (cn_srv cn')) = Map.empty"
      unfolding cn' cleanup_def by (rule cleanup_empties [OF assms(2)])
    then show ?thesis using refs_okD(5) [OF clean, of i] by (simp add: users_def)
  qed
qed

text \<open>A client that negotiates, attaches and goes away in the middle of a frame.\<close>

definition demo_bytes :: bytes where
  "demo_bytes = [21, 0, 0, 0, 100, 255, 255, 0, 16, 0, 0, 8, 0] @ gostr ''9P2000.L''
     @ [23, 0, 0, 0, 104, 1, 0, 1, 0, 0, 0, 255, 255, 255, 255, 0, 0, 0, 0, 255, 255, 255, 255] @ [19, 0]"

theorem connection_releases_all_witness:
  "fids (s_tab (cn_srv (snd (conn_serve memfs_vfs sorted_list_of_set (\<lambda>_. 0) demo_conn demo_bytes)))) = Map.empty
   \<and> i_refs (s_inodes (cn_srv (snd (conn_serve memfs_vfs sorted_list_of_set (\<lambda>_. 0) demo_conn demo_bytes))) 0) = 0"
proof (rule connection_releases_all)
  have cfg: "cn_cfg demo_conn = mem_cfg 8192 protocolL 3 0" by (simp add: demo_conn_def demo_cfg_def)
  show "refs_vfs memfs_vfs (cn_cfg demo_conn)" unfolding cfg by (rule mem_refs.refs_vfs_axioms)
  show "vfs_contract memfs_vfs (cn_cfg demo_conn) (\<lambda>D s. fids (s_tab s) = Map.empty)"
    unfolding cfg by (rule mem_watch.vfs_contract_axioms)
  show "fresh_conn (cn_srv demo_conn)" by (simp add: demo_conn_def demo_tree_fresh)
  show "ranges sorted_list_of_set" by (simp add: ranges_def)
qed (rule surjective_pairing)

end
