(* ===== verification/ClientStack.thy ===== *)
theory ClientStack
  imports ClientLoops ConnServe
begin

text \<open>
  The client and the server together: the peer of a client is a connection of the
  server (\<^verbatim>\<open>Conn\<close>), so that a call of the client is a request frame, one turn of the
  server's loop over the handlers and the file system, and a response frame. A
  call answers what the handlers answer; the handshake leaves both sides with the
  same dialect and message size; and the chunked reads and writes of a \<^verbatim>\<open>File\<close>
  are those of the file on the server.
\<close>

section \<open>The server as the peer\<close>

text \<open>One frame arrives at the server and is handled at time \<^verbatim>\<open>now\<close>. The flag is whether the
  server still reads.\<close>

type_synonym ('n, 'h, 'x, 'w) peer = "('n, 'h, 'x, 'w) conn \<times> bool"

definition server_peer :: "('n, 'h, 'x, 'w) vfs \<Rightarrow> (nat set \<Rightarrow> nat list) \<Rightarrow> int \<Rightarrow> ('n, 'h, 'x, 'w) peer link" where
  "server_peer V order now out p = (case p of (cn, up) \<Rightarrow>
     if \<not> up then (None, (cn, up))
     else case conn_step V order now cn out of
       (q, None, cn', _) \<Rightarrow> (Some q, (cn', True))
     | (q, Some _, cn', _) \<Rightarrow> (Some q, (cn', False)))"

text \<open>Both ends of a connection, at rest, with what the handshake agreed on.\<close>

definition live :: "('n, 'h, 'x, 'w) peer client \<Rightarrow> bool" where
  "live cl \<longleftrightarrow> idle cl \<and> snd (cl_peer cl) \<and> cl_dialect cl \<noteq> protocolNone
     \<and> cl_dialect cl = c_protocol (cn_cfg (fst (cl_peer cl)))
     \<and> cl_msize cl = c_msize (cn_cfg (fst (cl_peer cl))) \<and> minMsize \<le> cl_msize cl"

abbreviation peer_cfg :: "('n, 'h, 'x, 'w) peer client \<Rightarrow> ('n, 'h, 'x, 'w) cfg" where
  "peer_cfg cl \<equiv> cn_cfg (fst (cl_peer cl))"

abbreviation peer_srv :: "('n, 'h, 'x, 'w) peer client \<Rightarrow> ('n, 'h, 'x, 'w) srv" where
  "peer_srv cl \<equiv> cn_srv (fst (cl_peer cl))"

text \<open>The state after a call that the server has answered, its state now being \<^verbatim>\<open>s\<close>.\<close>

definition called :: "('n, 'h, 'x, 'w) srv \<Rightarrow> ('n, 'h, 'x, 'w) peer client \<Rightarrow> ('n, 'h, 'x, 'w) peer client" where
  "called s cl = cl\<lparr>cl_tags := rotate_tag (cl_tags cl), cl_peer := ((fst (cl_peer cl))\<lparr>cn_srv := s\<rparr>, True)\<rparr>"

lemma called_simps [simp]:
  "cl_files (called s cl) = cl_files cl" "cl_fids (called s cl) = cl_fids cl" "cl_root (called s cl) = cl_root cl"
  "cl_msize (called s cl) = cl_msize cl" "cl_dialect (called s cl) = cl_dialect cl"
  "cl_closed (called s cl) = cl_closed cl" "peer_srv (called s cl) = s" "peer_cfg (called s cl) = peer_cfg cl"
  by (simp_all add: called_def)

lemma live_called [simp]: "live cl \<Longrightarrow> live (called s cl)"
  by (auto simp: live_def idle_def called_def rotate_tag_def)

text \<open>A request of the dialect; the client sends no \<^verbatim>\<open>Tauth\<close>, and in this schedule no
  \<^verbatim>\<open>Tflush\<close>.\<close>

definition sendable :: "('n, 'h, 'x, 'w) peer client \<Rightarrow> message \<Rightarrow> bool" where
  "sendable cl m \<longleftrightarrow> speaks_of (cl_dialect cl) m \<and> conn_newMessage (cl_dialect cl) (Type m) \<noteq> None
     \<and> Type m \<notin> {102, 108}"

abbreviation frame_fits :: "'p client \<Rightarrow> message \<Rightarrow> bool" where
  "frame_fits cl m \<equiv> (case EncodeFrame (next_tag cl) m of Inl _ \<Rightarrow> False | Inr p \<Rightarrow> length p \<le> unat (cl_msize cl))"

text \<open>What the server writes for a reply: the reply, or \<^verbatim>\<open>EIO\<close> if it cannot be encoded.\<close>

definition sent :: "('n, 'h, 'x, 'w) cfg \<Rightarrow> message \<Rightarrow> message" where
  "sent c r = (case EncodeTo r of Inr _ \<Rightarrow> r | Inl _ \<Rightarrow> errorMsg c EIO)"

lemma sent_frame: "EncodeFrame tag (sent c r) = Inr (sendResponseInline c tag r)"
  using errorMsg_encodes [of tag c EIO]
  by (cases "EncodeTo r") (auto simp: sent_def sendResponseInline_def response_frame_eq EncodeFrame_def)

lemma peer_answers:
  assumes "live cl" "sendable cl m" "frame_fits cl m" "run_state (dispatch V (peer_cfg cl) m) (peer_srv cl) = (Reply r, s')"
  obtains p where "EncodeFrame (next_tag cl) m = Inr p" "length p \<le> unat (cl_msize cl)"
    "server_peer V order now p (cl_peer cl)
      = (Some (sendResponseInline (peer_cfg cl) (next_tag cl) r), ((fst (cl_peer cl))\<lparr>cn_srv := s'\<rparr>, True))"
proof -
  obtain p where p: "EncodeFrame (next_tag cl) m = Inr p" "length p \<le> unat (cl_msize cl)"
    using assms(3) by (auto split: sum.splits)
  have "request_ok (peer_cfg cl) (next_tag cl, m)"
    using assms(1,2) p by (simp add: request_ok_def sendable_def live_def)
  from conn_step_request [OF this p(1) assms(4), of order now "[]"] show ?thesis
    using assms(1) by (intro that [OF p]) (cases "cl_peer cl", simp add: server_peer_def live_def)
qed

text \<open>Every request the server accepts has a response the client accepts.\<close>

lemma response_known:
  assumes "sendable cl m" "cl_dialect cl \<noteq> protocolNone" "Type r = Type m + 1"
  shows "newRMessage (cl_dialect cl) (Type r) \<noteq> None"
proof -
  have L: "newRMessage protocolL (t + 1) \<noteq> None" if "newLMessage t \<noteq> None" for t
  proof -
    have "t \<in> set [12, 14, 24, 26, 40, 72, 16, 70, 18, 22, 8, 50, 76, 74, 20, 52, 54, 30, 32]"
      using that by (metis newLMessage_def)
    then show ?thesis by (simp, elim disjE; simp add: newRMessage_def base_responses_def newLMsg_def)
  qed
  have U: "newRMessage protocolU (t + 1) \<noteq> None" if "newUMessage t \<noteq> None" for t
  proof -
    have "t \<in> set [112, 114, 124, 126]" using that by (metis newUMessage_def)
    then show ?thesis by (simp, elim disjE; simp add: newRMessage_def base_responses_def newUMsg_def)
  qed
  have B: "newRMessage d (t + 1) \<noteq> None" if "t \<in> set base_requests" "t \<noteq> 102" for t d
    using that unfolding base_requests_def
    by (simp, elim disjE; simp add: newRMessage_def base_responses_def NewBaseMessage_def)
  show ?thesis
    using assms(1,2) L [of "Type m"] U [of "Type m"] B [of "Type m"]
    by (auto simp: assms(3) sendable_def conn_newMessage_def split: if_splits protocol.splits)
qed

section \<open>Calls\<close>

lemma answer_kind:
  assumes "run_state (dispatch V c m) s = (Reply r, s')"
  shows "Type r = Type m + 1 \<or> (\<exists>errno. r = errorMsg c errno)"
  using yieldsD [OF dispatch_answers, of c m V s] assms by (auto simp: answers_def is_error_def)

lemma error_known:
  assumes "live cl"
  shows "speaks_of (cl_dialect cl) (errorMsg (peer_cfg cl) e)"
    "newRMessage (cl_dialect cl) (Type (errorMsg (peer_cfg cl) e)) \<noteq> None"
  using assms
  by (auto simp: live_def errorMsg_def newRMessage_def base_responses_def newLMsg_def newUMsg_def split: protocol.splits)

lemma sent_known:
  assumes "live cl" "sendable cl m" "run_state (dispatch V (peer_cfg cl) m) (peer_srv cl) = (Reply r, s')"
  shows "newRMessage (cl_dialect cl) (Type (sent (peer_cfg cl) r)) \<noteq> None"
  using assms(1) answer_kind [OF assms(3)] response_known [OF assms(2), of r] error_known(2) [OF assms(1)]
  by (auto simp: sent_def live_def split: sum.split)

text \<open>A call in full: the client gets what the handlers answered.\<close>

lemma roundTrip_exact:
  assumes "live cl" "sendable cl m" "frame_fits cl m"
    and "run_state (dispatch V (peer_cfg cl) m) (peer_srv cl) = (Reply r, s')"
    and "speaks_of (cl_dialect cl) (sent (peer_cfg cl) r)"
    and "length (sendResponseInline (peer_cfg cl) (next_tag cl) r) \<le> unat (cl_msize cl)"
  shows "run_state (roundTrip (server_peer V order now) m) cl = (Inr (sent (peer_cfg cl) r), called s' cl)"
proof -
  let ?c = "peer_cfg cl" and ?N = "server_peer V order now" and ?q = "sendResponseInline (peer_cfg cl) (next_tag cl) r"
  have idle: "idle cl" and up: "\<not> cl_closed cl" using assms(1) by (auto simp: live_def idle_def)
  obtain p where p: "EncodeFrame (next_tag cl) m = Inr p" "length p \<le> unat (cl_msize cl)"
    "?N p (cl_peer cl) = (Some ?q, ((fst (cl_peer cl))\<lparr>cn_srv := s'\<rparr>, True))"
    using peer_answers [OF assms(1-4)] by blast
  have got: "handle_response (cl_dialect cl) (drop 4 ?q) [next_tag cl \<mapsto> new_entry None]
      = Some [next_tag cl \<mapsto> (new_entry None)\<lparr>re_ch := Some (Response (sent ?c r))\<rparr>]"
    by (rule handle_response_exact [OF assms(5) sent_known [OF assms(1,2,4)] sent_frame])
  have "run_state (exchange ?N m None) cl = (Inr (Response (sent ?c r), []), called s' cl)"
    using exchange_delivers [OF idle p(1,2), of ?N ?q, OF p(3) sent_frame assms(6) got]
    by (simp add: called_def new_entry_def)
  then show ?thesis by (simp add: roundTrip_def up try_bind_def)
qed

text \<open>A call in general: it leaves the handles alone, and ends with the connection closed, or with
  the server in the state its handler left it in; a request that cannot be sent
  does not reach the server.\<close>

lemma exchange_cases:
  assumes "live cl" "sendable cl m" "run_state (exchange (server_peer V order now) m dst) cl = (res, cl')"
  shows "cl_closed cl' \<and> cl_files cl' = cl_files cl
    \<or> \<not> frame_fits cl m \<and> (\<exists>e. res = Inl e) \<and> cl' = called (peer_srv cl) cl
    \<or> frame_fits cl m \<and> (\<exists>r s'. run_state (dispatch V (peer_cfg cl) m) (peer_srv cl) = (Reply r, s')
        \<and> (\<exists>d. res = Inr d) \<and> cl' = called s' cl)"
proof (cases "frame_fits cl m")
  case False
  have idle: "idle cl" using assms(1) by (simp add: live_def)
  have "case EncodeFrame (next_tag cl) m of Inl _ \<Rightarrow> True | Inr p \<Rightarrow> length p > unat (cl_msize cl)"
    using False by (simp add: not_le split: sum.splits)
  from exchange_refused [OF idle this, of "server_peer V order now" dst]
  obtain e where "res = Inl e" "cl' = cl\<lparr>cl_tags := rotate_tag (cl_tags cl)\<rparr>" using assms(3) by (metis prod.inject)
  moreover have "called (peer_srv cl) cl = cl\<lparr>cl_tags := rotate_tag (cl_tags cl)\<rparr>"
    using assms(1) by (cases "cl_peer cl") (simp add: called_def live_def)
  ultimately show ?thesis using False by simp
next
  case True
  have idle: "idle cl" using assms(1) by (simp add: live_def)
  obtain p where p: "EncodeFrame (next_tag cl) m = Inr p" "length p \<le> unat (cl_msize cl)"
    using True by (auto split: sum.splits)
  obtain r s' where run: "run_state (dispatch V (peer_cfg cl) m) (peer_srv cl) = (r, s')" by fastforce
  show ?thesis
  proof (cases r)
    case (Reply rep)
    let ?q = "sendResponseInline (peer_cfg cl) (next_tag cl) rep"
    have N: "server_peer V order now p (cl_peer cl) = (Some ?q, ((fst (cl_peer cl))\<lparr>cn_srv := s'\<rparr>, True))"
      using peer_answers [OF assms(1,2) True run [unfolded Reply], of order now] p(1) by auto
    from exchange_answered [OF idle p, of "server_peer V order now" ?q, OF N sent_frame, of dst]
    have "cl_closed cl' \<and> cl_files cl' = cl_files cl \<or> (\<exists>d. res = Inr d) \<and> cl' = called s' cl"
      unfolding assms(3) called_def by fastforce
    then show ?thesis using True run unfolding Reply by blast
  next
    case Deadlock
    have "m \<noteq> Base (Tflush t)" for t using assms(2) by (auto simp: sendable_def)
    note step = request_step_dispatch [of m, OF this]
    have "request_ok (peer_cfg cl) (next_tag cl, m)"
      using assms(1,2) p by (simp add: request_ok_def sendable_def live_def)
    then have "readFrameLocked (peer_cfg cl) (p @ []) = Some (Request (next_tag cl) m, [])"
      by (intro readFrame_run) (use p(1) in \<open>auto simp: request_ok_def\<close>)
    then have "server_peer V order now p (cl_peer cl) = (Some [], ((fst (cl_peer cl))\<lparr>cn_srv := s'\<rparr>, False))"
      using assms(1) run Deadlock by (cases "cl_peer cl") (simp add: server_peer_def live_def conn_step_def step)
    from exchange_silent [OF idle p, of "server_peer V order now", OF this, of dst]
    show ?thesis unfolding assms(3) by fastforce
  qed
qed

text \<open>The replies of the handlers belong to the dialect of the request, except that the status of an
  \<^verbatim>\<open>Rlock\<close> is whatever the file system says.\<close>

lemma request_types:
  assumes "conn_newMessage d (Type m) \<noteq> None" "Type m \<noteq> 102"
  shows "d = protocolL \<Longrightarrow> Type m + 1 \<notin> {52, 54, 107, 112, 113, 114, 115, 124, 125, 126, 127}"
    "d = protocolU \<Longrightarrow> 101 < Type m + 1 \<and> Type m + 1 \<noteq> 126"
  using assms
  by (auto simp: conn_newMessage_def base_requests_def newLMessage_def newUMessage_def split: if_splits protocol.splits)

lemma Type_fs_value: "Type m = 54 \<Longrightarrow> unbounded_reply m" "Type m = 124 \<Longrightarrow> unbounded_reply m"
proof -
  have "base_Type b \<noteq> 54" "base_Type b \<noteq> 124" for b by (cases b; simp)+
  moreover have "l_Type l \<noteq> 124" for l by (cases l) simp_all
  moreover have "u_Type u \<noteq> 54" for u by (cases u) simp_all
  ultimately show "Type m = 54 \<Longrightarrow> unbounded_reply m" "Type m = 124 \<Longrightarrow> unbounded_reply m"
    by (cases m; auto simp: l_Type_iff u_Type_iff)+
qed

lemma reply_speaks:
  assumes "live cl" "sendable cl m" "run_state (dispatch V (peer_cfg cl) m) (peer_srv cl) = (Reply r, s')"
    and "\<not> unbounded_reply m" "Type m \<noteq> 52"
  shows "speaks_of (cl_dialect cl) (sent (peer_cfg cl) r)"
proof -
  have known: "conn_newMessage (cl_dialect cl) (Type m) \<noteq> None" "Type m \<noteq> 102"
    using assms(2) by (auto simp: sendable_def)
  have no_fs: "Type m \<noteq> 54" "Type m \<noteq> 124" using assms(4) Type_fs_value by blast+
  have "speaks_of (cl_dialect cl) r" if r: "Type r = Type m + 1"
  proof (cases "cl_dialect cl")
    case protocolL
    then have n: "Type r \<notin> {52, 53, 54, 55, 107, 112, 113, 114, 115, 124, 125, 126, 127}"
      using request_types(1) [OF known] no_fs assms(5) by (simp add: r)
    have "l_ok l" if "r = L l" for l using n that by (cases l) simp_all
    moreover have "\<nexists>u. r = U u" using n by (auto, case_tac u; simp)
    ultimately show ?thesis unfolding protocolL by (cases r) simp_all
  next
    case protocolU
    then have n: "101 < Type r" "Type r \<noteq> 126" "Type r \<noteq> 125"
      using request_types(2) [OF known] no_fs by (auto simp: r)
    have "u_ok u" if "r = U u" for u using n that by (cases u) simp_all
    moreover have "\<nexists>l. r = L l" using n by (auto, case_tac l; simp)
    ultimately show ?thesis unfolding protocolU by (cases r) simp_all
  qed (use assms(1) in \<open>simp add: live_def\<close>)
  then show ?thesis
    using error_known(1) [OF assms(1)] answer_kind [OF assms(3)] by (auto simp: sent_def split: sum.split)
qed

lemma fits_names: "frame_fits cl m \<Longrightarrow> \<not> too_many_names m"
  by (cases m rule: too_many_names.cases)
    (auto simp: EncodeFrame_def codec_defs rbind_Inr_iff split: sum.splits if_splits)

text \<open>So a call answers what the handler answers.\<close>

lemma roundTrip_dispatch:
  assumes "live cl" "sendable cl m" "frame_fits cl m" "\<not> unbounded_reply m" "Type m \<noteq> 52"
    and "run_state (dispatch V (peer_cfg cl) m) (peer_srv cl) = (Reply r, s')"
  shows "run_state (roundTrip (server_peer V order now) m) cl = (Inr (sent (peer_cfg cl) r), called s' cl)"
proof (rule roundTrip_exact [OF assms(1-3,6)])
  show "speaks_of (cl_dialect cl) (sent (peer_cfg cl) r)"
    by (rule reply_speaks [OF assms(1,2,6,4,5)])
  have ms: "cl_msize cl = c_msize (peer_cfg cl)" "minMsize \<le> c_msize (peer_cfg cl)" using assms(1) by (auto simp: live_def)
  show "length (sendResponseInline (peer_cfg cl) (next_tag cl) r) \<le> unat (cl_msize cl)"
  proof (cases "EncodeTo r")
    case (Inr b)
    then have "EncodeFrame (next_tag cl) r = Inr (sendResponseInline (peer_cfg cl) (next_tag cl) r)"
      using sent_frame [of "next_tag cl" "peer_cfg cl" r] by (simp add: sent_def)
    from reply_fits [OF ms(2) assms(4) fits_names [OF assms(3)], of V "peer_srv cl", OF _ this] show ?thesis
      using assms(6) ms(1) by simp
  next
    case (Inl e)
    then have "EncodeFrame (next_tag cl) (errorMsg (peer_cfg cl) EIO) = Inr (sendResponseInline (peer_cfg cl) (next_tag cl) r)"
      using sent_frame [of "next_tag cl" "peer_cfg cl" r] by (simp add: sent_def)
    from error_fits [OF this] show ?thesis using ms by (simp add: minMsize_def word_le_nat_alt)
  qed
qed

section \<open>Reads and writes\<close>

lemma Tread_encodes: "\<exists>p. EncodeFrame tag (Base (Tread fid off cnt)) = Inr p \<and> length p = 23"
  by (simp add: EncodeFrame_def codec_defs WriteFid_def WriteUint32_def WriteUint64_def HeaderSize_def)

lemma Rread_encodes:
  "length d \<le> MaxDataSize \<Longrightarrow> \<exists>p. EncodeFrame tag (Base (Rread d)) = Inr p \<and> length p = 11 + length d"
  by (simp add: EncodeFrame_def codec_defs WriteUint32_def WriteRaw_def HeaderSize_def)

lemma Twrite_encodes:
  "length d \<le> MaxDataSize \<Longrightarrow> \<exists>p. EncodeFrame tag (Base (Twrite fid off d)) = Inr p \<and> length p = 23 + length d"
  by (simp add: EncodeFrame_def codec_defs WriteFid_def WriteUint32_def WriteUint64_def WriteRaw_def HeaderSize_def)

lemma sendable_io:
  assumes "cl_dialect cl \<noteq> protocolNone"
  shows "sendable cl (Base (Tread fid off cnt))" "sendable cl (Base (Twrite fid off data))"
  using assms
  by (cases "cl_dialect cl"; simp add: sendable_def conn_newMessage_def base_requests_def NewBaseMessage_def)+

lemma live_dialect: "live cl \<Longrightarrow> cl_dialect cl \<noteq> protocolNone"
  unfolding live_def by blast

text \<open>A zero-copy read: the payload of the reply lands in the caller's buffer.\<close>

lemma readAtZeroCopy_exact:
  assumes "live cl" "run_state (dispatch V (peer_cfg cl) (Base (Tread fid off cnt))) (peer_srv cl) = (Reply (Base (Rread d)), s')"
    and "length d \<le> length dst" "length d \<le> MaxDataSize" "length dst < 2 ^ 32" "11 + length d \<le> unat (cl_msize cl)"
  shows "run_state (readAtZeroCopy (server_peer V order now) fid off cnt dst) cl = (Inr d, called s' cl)"
proof -
  let ?N = "server_peer V order now" and ?m = "Base (Tread fid off cnt)" and ?r = "Base (Rread d)"
  let ?q = "sendResponseInline (peer_cfg cl) (next_tag cl) ?r"
  have l: "idle cl" "\<not> cl_closed cl" "cl_dialect cl \<noteq> protocolNone" "256 \<le> unat (cl_msize cl)"
    using assms(1) by (auto simp: live_def idle_def minMsize_def word_le_nat_alt)
  have fits: "frame_fits cl ?m" using Tread_encodes [of "next_tag cl" fid off cnt] l(4) by auto
  obtain p where p: "EncodeFrame (next_tag cl) ?m = Inr p" "length p \<le> unat (cl_msize cl)"
    "?N p (cl_peer cl) = (Some ?q, ((fst (cl_peer cl))\<lparr>cn_srv := s'\<rparr>, True))"
    using peer_answers [OF assms(1) sendable_io(1) [OF l(3)] fits assms(2)] by blast
  obtain b where b: "EncodeFrame (next_tag cl) ?r = Inr b" "length b = 11 + length d"
    using Rread_encodes [OF assms(4)] by blast
  then have q: "EncodeFrame (next_tag cl) ?r = Inr ?q"
    by (simp add: sendResponseInline_def response_frame_eq)
  have "length ?q \<le> unat (cl_msize cl)" using q b assms(6) by simp
  from exchange_delivers [OF l(1) p(1,2), of ?N ?q, OF p(3) q this handle_response_zc [OF q assms(3,5)]]
  have "run_state (exchange ?N ?m (Some dst)) cl = (Inr (RreadSentinelOK, d), called s' cl)"
    by (simp add: called_def)
  then show ?thesis by (simp add: readAtZeroCopy_def l(2) try_bind_def)
qed

text \<open>A fid open on a \<^verbatim>\<open>MemFile\<close> of the server.\<close>

definition mem_file :: "u32 \<Rightarrow> nat \<Rightarrow> (nat, unit, unit, memfs) peer client \<Rightarrow> bool" where
  "mem_file fid n cl \<longleftrightarrow> live cl \<and> opened_on (peer_srv cl) fid n
     \<and> (case node_at n (peer_srv cl) of MemFile _ _ _ _ \<Rightarrow> True | _ \<Rightarrow> False)"

definition mem_content :: "nat \<Rightarrow> (nat, unit, unit, memfs) peer client \<Rightarrow> bytes" where
  "mem_content n cl = (case node_at n (peer_srv cl) of MemFile d _ _ _ \<Rightarrow> d | _ \<Rightarrow> [])"

lemma mem_file_called:
  assumes "mem_file fid n cl" "node_at n (peer_srv cl) = MemFile d mode uid gid"
  shows "mem_file fid n (called (peer_srv cl) cl)"
    "mem_file fid n (called (set_node n (MemFile new mode uid gid) (peer_srv cl)) cl)"
  using assms by (simp_all add: mem_file_def)

lemma clampCount_id:
  assumes "unat cnt + 24 \<le> unat (c_msize c)"
  shows "clampCount c cnt = cnt"
proof -
  have "unat (c_msize c - of_nat HeaderSize - 4) = unat (c_msize c) - 11"
    using assms by (subst unat_sub; (subst unat_sub)?) (auto simp: HeaderSize_def word_le_nat_alt unat_sub)
  then show ?thesis using assms by (auto simp: clampCount_def Let_def word_less_nat_alt)
qed

interpretation mem_remote: remote_file "server_peer memfs_vfs order now" fid "mem_file fid n" "mem_content n"
  for order now fid n
proof (unfold_locales, goal_cases)
  case (1 cl)
  then have "minMsize \<le> cl_msize cl" unfolding mem_file_def live_def by blast
  then show ?case by (simp add: minMsize_def ioFrameOverhead_def word_le_nat_alt word_less_nat_alt)
next
  case (2 cl cnt dst off)
  then obtain d mode uid gid where node: "node_at n (peer_srv cl) = MemFile d mode uid gid"
    and l: "live cl" "opened_on (peer_srv cl) fid n"
    by (auto simp: mem_file_def split: memnode.splits)
  have "c_msize (peer_cfg cl) = cl_msize cl" using l(1) by (simp add: live_def)
  then have run: "run_state (dispatch memfs_vfs (peer_cfg cl) (Base (Tread fid off cnt))) (peer_srv cl)
      = (Reply (Base (Rread (read_at d (unat cnt) off))), peer_srv cl)"
    using run_handleRead [OF l(2) node, of "peer_cfg cl" off cnt] clampCount_id [of cnt "peer_cfg cl"] 2(2) by simp
  have len: "length (read_at d (unat cnt) off) \<le> unat cnt" by (simp add: read_at_eq)
  have "run_state (readAtZeroCopy (server_peer memfs_vfs order now) fid off cnt dst) cl
      = (Inr (read_at d (unat cnt) off), called (peer_srv cl) cl)"
    by (rule readAtZeroCopy_exact [OF l(1) run]) (use len 2 in \<open>auto simp: MaxDataSize_def\<close>)
  then show ?case
    using mem_file_called(1) [OF 2(1) node] node by (simp add: mem_content_def)
next
  case (3 cl data off new)
  then obtain d mode uid gid where node: "node_at n (peer_srv cl) = MemFile d mode uid gid"
    and l: "live cl" "opened_on (peer_srv cl) fid n"
    by (auto simp: mem_file_def split: memnode.splits)
  let ?m = "Base (Twrite fid off data)" and ?s = "set_node n (MemFile new mode uid gid) (peer_srv cl)"
  have len: "length data < 2 ^ 32" using 3(3) by (simp add: MaxDataSize_def)
  have "write_at d data off = Inr new" using 3(4) node by (simp add: mem_content_def)
  then have run: "run_state (dispatch memfs_vfs (peer_cfg cl) ?m) (peer_srv cl)
      = (Reply (Base (Rwrite (of_nat (length data)))), ?s)"
    using run_handleWrite [OF l(2) node _ len] by simp
  have fits: "frame_fits cl ?m" using Twrite_encodes [OF 3(3), of "next_tag cl" fid off] 3(2) by auto
  have "sent (peer_cfg cl) (Base (Rwrite (of_nat (length data)))) = Base (Rwrite (of_nat (length data)))"
    by (simp add: sent_def codec_defs WriteUint32_def)
  then have "run_state (roundTrip (server_peer memfs_vfs order now) ?m) cl
      = (Inr (Base (Rwrite (of_nat (length data)))), called ?s cl)"
    using roundTrip_dispatch [OF l(1) sendable_io(2) [OF live_dialect [OF l(1)]] fits _ _ run] by simp
  then have "run_state (twrite (server_peer memfs_vfs order now) fid off data) cl
      = (Inr (of_nat (length data)), called ?s cl)"
    using len by (simp add: twrite_def rtrip_def try_bind_def toError_def)
  then show ?case
    using mem_file_called(2) [OF 3(1) node] by (simp add: mem_content_def)
qed

lemma small_offset: "unat (off :: u64) < 2 ^ 63 \<Longrightarrow> \<not> sint off < 0"
proof -
  assume "unat off < 2 ^ 63"
  then have "int (unat off) < int (2 ^ 63)" by (simp only: of_nat_less_iff)
  then have "uint off < 2 ^ 63" by (simp only: uint_nat of_nat_power of_nat_numeral)
  then have "sint off = uint off" 
    unfolding sint_uint by (intro signed_take_bit_int_eq_self) (auto intro: order_trans [of _ 0])
  then show ?thesis by simp
qed

text \<open>C2. A file over the network. On a connection between the client and a server of the in-memory
  file system, a \<^verbatim>\<open>WriteAt\<close> on an open file, within the size limit of the file
  system, writes everything, in as many \<^verbatim>\<open>Twrite\<close> frames as the message size and
  the \<^verbatim>\<open>iounit\<close> ask for, and leaves the file with the contents one write of the whole
  buffer gives it; a \<^verbatim>\<open>ReadAt\<close> of the same range then returns exactly the bytes written.\<close>

theorem remote_write_read:
  assumes "mem_file (f_fid (file_at a cl)) n cl" "\<not> f_closed (file_at a cl)"
    and "p \<noteq> []" "unat off + length p \<le> maxMemFileSize" "length q = length p"
  shows "\<exists>cl1 cl2. WriteAtCtx (server_peer memfs_vfs order now) a p off cl = Some ((length p, None), cl1)
    \<and> write_at (mem_content n cl) p off = Inr (mem_content n cl1)
    \<and> ReadAtCtx (server_peer memfs_vfs order now) a q off cl1 = ((p, None), cl2)"
proof -
  let ?f = "file_at a cl" and ?N = "server_peer memfs_vfs order now"
  have off: "\<not> sint off < 0" "unat off + length q < 2 ^ 64"
    using assms(4,5) by (auto intro!: small_offset simp: maxMemFileSize_def MaxDataSize_def)
  obtain cl1 where w: "write_loop ?N (f_fid ?f) (f_iounit ?f) off p 0 cl = Some ((length p, None), cl1)"
    "mem_file (f_fid ?f) n cl1" "cl_files cl1 = cl_files cl"
    "write_at (mem_content n cl) p off = Inr (mem_content n cl1)"
    using mem_remote.write_loop_ready [OF assms(1), where done_n = 0 and p = p and off = off and iounit = "f_iounit ?f"] assms(3,4) by auto
  have f: "file_at a cl1 = ?f" by (simp add: file_at_def w(3))
  have "read_at (mem_content n cl1) (length q) off = p" using read_write_at [OF w(4)] assms(5) by simp
  then have "\<exists>cl2. read_loop ?N (f_fid ?f) (f_iounit ?f) off q [] cl1 = ((p, None), cl2)"
    using mem_remote.read_loop_ready [OF w(2), where got = "[]" and p = q and off = off and iounit = "f_iounit ?f"] off(2) assms(5) by auto
  then show ?thesis
    using w assms(2,3,5) off(1) by (auto simp: WriteAtCtx_def ReadAtCtx_def f Let_def)
qed

text \<open>A client with a file open on the demonstration tree, over a connection of 256 bytes.\<close>

definition demo_client :: "(nat, unit, unit, memfs) peer client" where
  "demo_client = \<lparr>cl_dialect = protocolL, cl_msize = 256, cl_tags = newTagAllocator 4, cl_fids = newFidAllocator,
     cl_inflight = Map.empty, cl_root = None, cl_closed = False,
     cl_files = [\<lparr>f_fid = 2, f_qid = \<lparr>QID_Type = 0, QID_Version = 0, QID_Path = 2\<rparr>, f_iounit = 0, f_closed = False,
       f_offset = 0, f_cachedSize = 0, f_readdirOffset = 0\<rparr>],
     cl_wire = [], cl_peer = (\<lparr>cn_cfg = mem_cfg 256 protocolL 3 0, cn_srv = demo_open, cn_maxMsize = 65536,
       cn_lastNegotiation = 0\<rparr>, True)\<rparr>"

lemma demo_client_file: "mem_file 2 1 demo_client" "file_at 0 demo_client = cl_files demo_client ! 0"
proof -
  have "opened_on demo_open 2 1" by (simp add: demo_open_def demo_defs run_defs opened_on_def)
  moreover have "node_at 1 demo_open = MemFile [1, 2, 3] 0x1A4 0 0" by (simp add: demo_open_def demo_defs run_defs)
  ultimately show "mem_file 2 1 demo_client"
    by (simp add: mem_file_def demo_client_def live_def idle_def newTagAllocator_def mem_cfg_def minMsize_def)
qed (simp add: file_at_def)

theorem remote_write_read_witness:
  "\<exists>cl1 cl2. WriteAtCtx (server_peer memfs_vfs sorted_list_of_set 0) 0 (replicate 600 7) 5 demo_client
      = Some ((length (replicate 600 (7 :: byte)), None), cl1)
    \<and> write_at (mem_content 1 demo_client) (replicate 600 7) 5 = Inr (mem_content 1 cl1)
    \<and> ReadAtCtx (server_peer memfs_vfs sorted_list_of_set 0) 0 (replicate 600 0) 5 cl1 = ((replicate 600 7, None), cl2)"
  by (rule remote_write_read)
    (use demo_client_file in \<open>simp_all add: demo_client_def maxMemFileSize_def MaxDataSize_def\<close>)



end
