(* ===== verification/ClientDial.thy ===== *)
theory ClientDial
  imports ClientStack
begin

text \<open>
  The handshake between the two halves (\<^verbatim>\<open>src/client/dial.go\<close> against
  \<^verbatim>\<open>src/server/conn.go\<close>): when it succeeds, and what both ends then agree on.
\<close>

section \<open>The handshake\<close>

text \<open>The server's first read of a connection: the proposal arrives and is answered.\<close>

definition accept_peer :: "int \<Rightarrow> ('n, 'h, 'x, 'w) peer link" where
  "accept_peer now out p = (case p of (cn, up) \<Rightarrow>
     if \<not> up then (None, (cn, up))
     else case negotiateVersion (cn_maxMsize cn) out of
       (q, Inl _) \<Rightarrow> (Some q, (cn, False))
     | (q, Inr (res, _)) \<Rightarrow> (Some q, (start_conn now res cn, True)))"

lemma negotiateVersion_frame:
  assumes "EncodeFrame tag (Base (Tversion Msize Version)) = Inr p"
  shows "negotiateVersion maxMsize p =
    (if length p > unat (min maxMsize maxVersionFrame) then ([], Inl VersionFrameTooLarge)
     else case negotiate maxMsize Msize Version of
       Inl e \<Rightarrow> ([], Inl e)
     | Inr res \<Rightarrow> (case EncodeFrame tag (Base (Rversion (nr_msize res) (nr_version res))) of
         Inl e \<Rightarrow> ([], Inl (WriteFailed e))
       | Inr out \<Rightarrow> if nr_selected res = protocolNone then (out, Inl ErrNotNegotiated)
           else (out, Inr ((nr_msize res, nr_selected res), []))))"
  using assms
proof (rule ReadSize_frame)
  fix b sz assume b: "EncodeTo (Base (Tversion Msize Version)) = Inr b" and len: "length p = 7 + length b"
    and sz: "unat sz = 7 + length b"
    and size: "\<And>rest. ReadSize (p @ rest) = Inr (sz, Type (Base (Tversion Msize Version)) # le_bytes 2 tag @ b @ rest)"
  have "(7 :: u32) \<le> sz" unfolding word_le_nat_alt sz by simp
  then have "unat (sz - of_nat HeaderSize) = length b" using sz by (simp add: HeaderSize_def unat_sub)
  moreover have "Tversion_DecodeFrom b = Inr (Tversion Msize Version, [])"
    using b base_dec_iff [of "Tversion 0 []" b "Tversion Msize Version" "[]"] by simp
  moreover have "sz > min maxMsize maxVersionFrame \<longleftrightarrow> length p > unat (min maxMsize maxVersionFrame)"
    unfolding word_less_nat_alt sz len ..
  moreover have "ReadFull (length b) b = Inr (b, [])" by (simp add: ReadFull_iff)
  ultimately show ?thesis
    using size [of "[]"]
    by (simp add: negotiateVersion_def writeRaw_frame codec_run ReadUint8_def ReadLE_def split: sum.split)
qed

lemma read_Rversion_frame:
  assumes "EncodeFrame NoTag (Base (Rversion Msize Version)) = Inr q" "length q \<le> unat msize"
  shows "read_Rversion msize q = Inr ((Msize, Version), [])"
  using assms(1)
proof (rule ReadSize_frame)
  fix b sz assume b: "EncodeTo (Base (Rversion Msize Version)) = Inr b" and len: "length q = 7 + length b"
    and sz: "unat sz = 7 + length b"
    and size: "\<And>rest. ReadSize (q @ rest) = Inr (sz, Type (Base (Rversion Msize Version)) # le_bytes 2 NoTag @ b @ rest)"
  have "Rversion_DecodeFrom b = Inr (Rversion Msize Version, [])"
    using b base_dec_iff [of "Rversion 0 []" b "Rversion Msize Version" "[]"] by simp
  moreover have "ReadBody (unat sz - 4) (101 # le_bytes 2 NoTag @ b) = Inr (101 # le_bytes 2 NoTag @ b, [])"
    using ReadFull_iff [of "unat sz - 4" "101 # le_bytes 2 NoTag @ b" "101 # le_bytes 2 NoTag @ b" "[]"]
    by (simp add: ReadBody_def sz)
  moreover have "\<not> sz > msize" using assms(2) by (simp add: word_less_nat_alt sz len)
  ultimately show ?thesis using size [of "[]"] by (simp add: read_Rversion_def)
qed

text \<open>What the options ask for and what the server can give.\<close>

definition dialable :: "config \<Rightarrow> u32 \<Rightarrow> bool" where
  "dialable cfg maxMsize \<longleftrightarrow> co_version cfg \<in> {[], gostr ''9P2000.L'', gostr ''9P2000.u''}
     \<and> minMsize \<le> min (co_msize cfg) maxMsize"

definition proposed :: "config \<Rightarrow> gostring" where
  "proposed cfg = (if co_version cfg = [] then gostr ''9P2000.L'' else co_version cfg)"

lemma Tversion_frame:
  assumes "Tversion_EncodeTo m v = Inr body"
  shows "EncodeFrame NoTag (Base (Tversion m v))
    = Inr ((le_bytes 4 (of_nat HeaderSize + of_nat (length body) :: u32) @ [100] @ le_bytes 2 NoTag) @ body)"
  using assms by (simp add: EncodeFrame_def codec_defs WriteUint32_def WriteUint16_def WriteUint8_def)

lemma Rversion_encodes:
  assumes "length v \<le> 8"
  shows "\<exists>q. EncodeFrame tag (Base (Rversion m v)) = Inr q \<and> length q = 13 + length v"
  using assms by (simp add: EncodeFrame_def codec_defs WriteString_def MaxStringLen_def WriteUint32_def HeaderSize_def)

lemma read_Rversion_empty: "\<exists>e. read_Rversion msize [] = Inl e"
  by (simp add: read_Rversion_def ReadSize_def rd_bind_def ReadUint32_def ReadLE_def)

text \<open>The client's view of the answer.\<close>

definition dialled :: "config \<Rightarrow> bytes \<Rightarrow> 'p \<Rightarrow> client_error + 'p client" where
  "dialled cfg q peer = (case read_Rversion (co_msize cfg) q of
       Inl e \<Rightarrow> Inl e
     | Inr ((Msize, Version), rest) \<Rightarrow>
         if co_version cfg \<noteq> [] \<and> Version \<noteq> co_version cfg then Inl ErrVersionMismatch
         else case dial_dialect Version of
           None \<Rightarrow> Inl ErrVersionMismatch
         | Some d \<Rightarrow>
             let negotiated = min Msize (co_msize cfg) in
             if negotiated < minMsizeClient then Inl ErrClientMsizeTooSmall
             else Inr \<lparr>cl_dialect = d, cl_msize = negotiated, cl_tags = newTagAllocator (co_maxInflight cfg),
               cl_fids = newFidAllocator, cl_inflight = Map.empty, cl_root = None, cl_closed = False,
               cl_files = [], cl_wire = rest, cl_peer = peer\<rparr>)"

lemma Dial_frame:
  assumes "EncodeFrame NoTag (Base (Tversion (co_msize cfg) (proposed cfg))) = Inr p" "N p peer = (Some q, peer')"
  shows "Dial N cfg peer = dialled cfg q peer'"
proof -
  obtain body where body: "Tversion_EncodeTo (co_msize cfg) (proposed cfg) = Inr body"
    using assms(1) by (auto simp: EncodeFrame_def rbind_Inr_iff)
  have "p = (le_bytes 4 (of_nat HeaderSize + of_nat (length body) :: u32) @ [100] @ le_bytes 2 NoTag) @ body"
    using Tversion_frame [OF body] assms(1) by simp
  then show ?thesis
    using body assms(2) by (simp add: Dial_def dialled_def proposed_def Let_def)
qed

lemma negotiate_cases:
  assumes "negotiate maxMsize Msize Version = Inr res"
  shows "minMsize \<le> min Msize maxMsize" "nr_msize res = min Msize maxMsize" "length (nr_version res) \<le> 8"
    "nr_selected res = protocolNone \<longleftrightarrow> Version \<notin> {gostr ''9P2000.L'', gostr ''9P2000.u''}"
    "nr_selected res \<noteq> protocolNone \<Longrightarrow> nr_version res = Version"
    "Version = gostr ''9P2000.L'' \<Longrightarrow> nr_selected res = protocolL"
    "Version = gostr ''9P2000.u'' \<Longrightarrow> nr_selected res = protocolU"
    "nr_selected res = protocolNone \<Longrightarrow> nr_version res = gostr ''unknown''"
  using assms by (auto simp: negotiate_def Let_def gostr_def not_less split: if_splits)

text \<open>The three ways a proposal ends.\<close>

lemma dial_refused:
  assumes "EncodeFrame NoTag (Base (Tversion (co_msize cfg) (proposed cfg))) = Inr p"
    and "negotiateVersion (cn_maxMsize cn) p = ([], Inl e)"
  shows "\<exists>e. Dial (accept_peer now) cfg (cn, True) = Inl e"
  using Dial_frame [OF assms(1), of "accept_peer now" "(cn, True)"] assms(2) read_Rversion_empty [of "co_msize cfg"]
  by (fastforce simp: accept_peer_def dialled_def)

lemma Rversion_received:
  assumes "negotiate maxMsize (co_msize cfg) (proposed cfg) = Inr res"
  obtains q where "EncodeFrame NoTag (Base (Rversion (nr_msize res) (nr_version res))) = Inr q"
    "read_Rversion (co_msize cfg) q = Inr ((nr_msize res, nr_version res), [])"
proof -
  note nr = negotiate_cases [OF assms]
  obtain q where q: "EncodeFrame NoTag (Base (Rversion (nr_msize res) (nr_version res))) = Inr q" "length q \<le> 21"
    using Rversion_encodes [OF nr(3)] nr(3) by fastforce
  have "length q \<le> unat (co_msize cfg)"
    using q(2) nr(1) by (auto simp: minMsize_def word_le_nat_alt min_def split: if_splits)
  from that [OF q(1) read_Rversion_frame [OF q(1) this]] show ?thesis .
qed

lemma dial_unknown:
  assumes "EncodeFrame NoTag (Base (Tversion (co_msize cfg) (proposed cfg))) = Inr p"
    and "length p \<le> unat (min (cn_maxMsize cn) maxVersionFrame)"
    and "negotiate (cn_maxMsize cn) (co_msize cfg) (proposed cfg) = Inr res" "nr_selected res = protocolNone"
  shows "Dial (accept_peer now) cfg (cn, True) = Inl ErrVersionMismatch"
proof (rule Rversion_received [OF assms(3)])
  fix q assume q: "EncodeFrame NoTag (Base (Rversion (nr_msize res) (nr_version res))) = Inr q"
    and got: "read_Rversion (co_msize cfg) q = Inr ((nr_msize res, nr_version res), [])"
  have N: "accept_peer now p (cn, True) = (Some q, (cn, False))"
    using negotiateVersion_frame [OF assms(1)] assms(2-4) q by (simp add: accept_peer_def)
  have "dialled cfg q (cn, False) = Inl ErrVersionMismatch"
    using got negotiate_cases(8) [OF assms(3,4)] by (simp add: dialled_def dial_dialect_def gostr_def)
  then show ?thesis using Dial_frame [OF assms(1), of "accept_peer now", OF N] by simp
qed

lemma dial_accepted:
  assumes "EncodeFrame NoTag (Base (Tversion (co_msize cfg) (proposed cfg))) = Inr p"
    and "length p \<le> unat (min (cn_maxMsize cn) maxVersionFrame)"
    and "negotiate (cn_maxMsize cn) (co_msize cfg) (proposed cfg) = Inr res" "nr_selected res \<noteq> protocolNone"
    and "0 < co_maxInflight cfg"
  shows "\<exists>cl. Dial (accept_peer now) cfg (cn, True) = Inr cl \<and> live cl
      \<and> cl_msize cl = min (co_msize cfg) (cn_maxMsize cn)
      \<and> cl_dialect cl = (if co_version cfg = gostr ''9P2000.u'' then protocolU else protocolL)
      \<and> peer_srv cl = cn_srv cn"
proof (rule Rversion_received [OF assms(3)])
  fix q assume q: "EncodeFrame NoTag (Base (Rversion (nr_msize res) (nr_version res))) = Inr q"
    and got: "read_Rversion (co_msize cfg) q = Inr ((nr_msize res, nr_version res), [])"
  let ?cm = "co_msize cfg" and ?sm = "cn_maxMsize cn"
  let ?peer = "(start_conn now (nr_msize res, nr_selected res) cn, True)"
  note nr = negotiate_cases [OF assms(3)]
  have N: "accept_peer now p (cn, True) = (Some q, ?peer)"
    using negotiateVersion_frame [OF assms(1)] assms(2-4) q by (simp add: accept_peer_def)
  define d where "d = (if co_version cfg = gostr ''9P2000.u'' then protocolU else protocolL)"
  have d: "dial_dialect (nr_version res) = Some d" "nr_selected res = d"
    "\<not> (co_version cfg \<noteq> [] \<and> nr_version res \<noteq> co_version cfg)"
    using nr(4-7) assms(4) unfolding d_def by (auto simp: proposed_def dial_dialect_def gostr_def split: if_splits)
  have ms: "min (nr_msize res) ?cm = min ?cm ?sm" "min ?cm ?sm = nr_msize res" "\<not> min ?cm ?sm < minMsizeClient"
    using nr(1,2) by (auto simp: min.commute min.left_commute min_less_iff_disj minMsize_def minMsizeClient_def)
  let ?cl = "\<lparr>cl_dialect = d, cl_msize = min ?cm ?sm, cl_tags = newTagAllocator (co_maxInflight cfg),
      cl_fids = newFidAllocator, cl_inflight = Map.empty, cl_root = None, cl_closed = False,
      cl_files = [], cl_wire = [], cl_peer = ?peer\<rparr>"
  have "Dial (accept_peer now) cfg (cn, True) = Inr ?cl"
    using got d ms by (simp add: Dial_frame [OF assms(1), of "accept_peer now", OF N] dialled_def Let_def)
  moreover have "live ?cl"
    using assms(5) d(2) ms(2) nr(1) unfolding live_def idle_def
    by (simp add: newTagAllocator_def start_conn_def d_def)
  moreover have "peer_srv ?cl = cn_srv cn" by (simp add: start_conn_def)
  ultimately show ?thesis by (intro exI [of _ ?cl]) (simp add: d_def)
qed

lemma dial_outcome:
  assumes "0 < co_maxInflight cfg"
  shows "if dialable cfg (cn_maxMsize cn)
    then \<exists>cl. Dial (accept_peer now) cfg (cn, True) = Inr cl \<and> live cl
      \<and> cl_msize cl = min (co_msize cfg) (cn_maxMsize cn)
      \<and> cl_dialect cl = (if co_version cfg = gostr ''9P2000.u'' then protocolU else protocolL)
      \<and> peer_srv cl = cn_srv cn
    else \<exists>e. Dial (accept_peer now) cfg (cn, True) = Inl e"
proof (cases "EncodeFrame NoTag (Base (Tversion (co_msize cfg) (proposed cfg)))")
  case (Inl e)
  then have e: "Tversion_EncodeTo (co_msize cfg) (proposed cfg) = Inl e"
    by (auto simp: EncodeFrame_def rbind_def split: sum.splits)
  then have "\<not> dialable cfg (cn_maxMsize cn)"
    by (auto simp: dialable_def proposed_def Tversion_EncodeTo_def WriteString_def MaxStringLen_def
        WriteUint32_def gostr_def rbind_def split: sum.splits)
  then show ?thesis using e by (simp add: Dial_def proposed_def Let_def)
next
  case (Inr p)
  let ?lim = "unat (min (cn_maxMsize cn) maxVersionFrame)"
  note neg = negotiateVersion_frame [OF Inr, of "cn_maxMsize cn"]
  have len: "length p \<le> ?lim" if "dialable cfg (cn_maxMsize cn)"
  proof -
    have "length (proposed cfg) = 8" using that by (auto simp: dialable_def proposed_def gostr_def)
    then have "length p = 21"
      using Inr by (auto simp: EncodeFrame_def codec_defs rbind_Inr_iff codec_iff HeaderSize_def)
    then show ?thesis
      using that by (simp add: dialable_def minMsize_def maxVersionFrame_def word_le_nat_alt min_def split: if_splits)
  qed
  consider (long) "length p > ?lim" | (small) e where "length p \<le> ?lim" "negotiate (cn_maxMsize cn) (co_msize cfg) (proposed cfg) = Inl e"
    | (answer) res where "length p \<le> ?lim" "negotiate (cn_maxMsize cn) (co_msize cfg) (proposed cfg) = Inr res"
    by (meson not_le sum.exhaust)
  then show ?thesis
  proof cases
    case long
    then show ?thesis using dial_refused [OF Inr] neg len by auto
  next
    case small
    then have "\<not> dialable cfg (cn_maxMsize cn)"
      by (auto simp: negotiate_def Let_def dialable_def min_less_iff_disj not_le split: if_splits)
    then show ?thesis using dial_refused [OF Inr] neg small by simp
  next
    case answer
    have "dialable cfg (cn_maxMsize cn) \<longleftrightarrow> nr_selected res \<noteq> protocolNone"
      using negotiate_cases(1,4) [OF answer(2)] by (auto simp: dialable_def proposed_def min.commute split: if_splits)
    then show ?thesis
      using dial_unknown [OF Inr answer] dial_accepted [OF Inr answer _ assms] by auto
  qed
qed

text \<open>C11. The two ends of a handshake agree. Dialling a server of this library succeeds exactly when
  the version asked for is one the server speaks (or none is asked for) and the
  smaller of the two size limits is at least 256. Then both ends have the smaller
  limit as message size and the same dialect, the client is at rest and the
  server's state is untouched.\<close>

theorem dial_agrees:
  assumes "0 < co_maxInflight cfg"
  shows "if dialable cfg (cn_maxMsize cn)
    then \<exists>cl. Dial (accept_peer now) cfg (cn, True) = Inr cl \<and> live cl
      \<and> cl_msize cl = min (co_msize cfg) (cn_maxMsize cn)
      \<and> cl_dialect cl = (if co_version cfg = gostr ''9P2000.u'' then protocolU else protocolL)
      \<and> peer_srv cl = cn_srv cn
    else \<exists>e. Dial (accept_peer now) cfg (cn, True) = Inl e"
  using assms by (rule dial_outcome)

definition demo_config :: config where
  "demo_config = \<lparr>co_msize = 4096, co_version = [], co_maxInflight = 16\<rparr>"

theorem dial_agrees_witness:
  "if dialable demo_config (cn_maxMsize demo_conn)
    then \<exists>cl. Dial (accept_peer 0) demo_config (demo_conn, True) = Inr cl \<and> live cl
      \<and> cl_msize cl = min (co_msize demo_config) (cn_maxMsize demo_conn)
      \<and> cl_dialect cl = (if co_version demo_config = gostr ''9P2000.u'' then protocolU else protocolL)
      \<and> peer_srv cl = cn_srv demo_conn
    else \<exists>e. Dial (accept_peer 0) demo_config (demo_conn, True) = Inl e"
  by (rule dial_agrees) (simp add: demo_config_def)

end
