(* ===== verification/ClientFids.thy ===== *)
theory ClientFids
  imports ClientDial
begin

text \<open>
  The life of a fid across the two halves (\<^verbatim>\<open>src/client/session.go\<close>, \<^verbatim>\<open>walknew.go\<close>,
  \<^verbatim>\<open>file.go\<close>, \<^verbatim>\<open>advanced_*.go\<close> against \<^verbatim>\<open>src/server\<close>). The locale \<^verbatim>\<open>fid_link\<close> states what the client
  relies on of its peer: what each request does to the fids the peer has bound.
  Over such a peer every operation of the client, on every path through it,
  leaves the peer with exactly the fids of the open files bound, and none of them
  free to be allocated again.
\<close>

section \<open>What a request does to the peer's fids\<close>

definition request_for :: "protocol \<Rightarrow> message \<Rightarrow> bool" where
  "request_for d m \<longleftrightarrow> speaks_of d m \<and> conn_newMessage d (Type m) \<noteq> None \<and> Type m \<notin> {102, 108, 122}"

definition binding :: "u32 \<Rightarrow> bool \<Rightarrow> u32 set \<Rightarrow> u32 set \<Rightarrow> bool" where
  "binding fid success b b' \<longleftrightarrow> (fid \<notin> b \<longrightarrow> b' = (if success then insert fid b else b))"

definition client_effect :: "message \<Rightarrow> client_error + message \<Rightarrow> u32 set \<Rightarrow> u32 set \<Rightarrow> bool" where
  "client_effect m res b b' = (case m of
       Base (Tattach fid _ _ _ _) \<Rightarrow> binding fid (\<exists>q. res = Inr (Base (Rattach q))) b b'
     | Base (Twalk _ newfid names) \<Rightarrow>
         binding newfid (\<exists>qs. res = Inr (Base (Rwalk qs)) \<and> length qs = length names) b b'
         \<and> (\<forall>qs. res = Inr (Base (Rwalk qs)) \<longrightarrow> length qs \<le> length names)
     | L (Txattrwalk _ newfid _) \<Rightarrow> binding newfid (\<exists>sz. res = Inr (L (Rxattrwalk sz))) b b'
     | Base (Tclunk fid) \<Rightarrow> b' = b - {fid} \<and> (\<exists>r. res = Inr r \<and> (r = Base Rclunk \<or> toError r \<noteq> None))
     | _ \<Rightarrow> b' = b)"

definition open_fids :: "'p client \<Rightarrow> u32 list" where
  "open_fids cl = map f_fid (filter (\<lambda>f. \<not> f_closed f) (cl_files cl))"

lemma open_fids_simps [simp]:
  "open_fids (cl\<lparr>cl_fids := fa\<rparr>) = open_fids cl" "open_fids (cl\<lparr>cl_root := rt\<rparr>) = open_fids cl"
  "open_fids (cl\<lparr>cl_files := cl_files cl @ [f]\<rparr>) = open_fids cl @ (if f_closed f then [] else [f_fid f])"
  by (simp_all add: open_fids_def)

lemma open_fids_update:
  assumes "f_fid (g (cl_files cl ! a)) = f_fid (cl_files cl ! a) \<and> f_closed (g (cl_files cl ! a)) = f_closed (cl_files cl ! a)"
  shows "open_fids (cl\<lparr>cl_files := (cl_files cl)[a := g (cl_files cl ! a)]\<rparr>) = open_fids cl"
proof -
  have "map (\<lambda>f. (f_fid f, f_closed f)) ((cl_files cl)[a := g (cl_files cl ! a)]) = map (\<lambda>f. (f_fid f, f_closed f)) (cl_files cl)"
    using assms by (cases "a < length (cl_files cl)") (simp_all add: map_update list_update_same_conv list_update_beyond)
  moreover have "open_fids c = map fst (filter (\<lambda>x. \<not> snd x) (map (\<lambda>f. (f_fid f, f_closed f)) (cl_files c)))" for c :: "'a client"
    by (simp add: open_fids_def filter_map comp_def)
  ultimately show ?thesis by simp
qed

lemma open_fids_close:
  assumes "a < length (cl_files cl)" "\<not> f_closed (cl_files cl ! a)"
  obtains xs ys where "open_fids cl = xs @ f_fid (cl_files cl ! a) # ys"
    "open_fids (cl\<lparr>cl_files := (cl_files cl)[a := (cl_files cl ! a)\<lparr>f_closed := True\<rparr>]\<rparr>) = xs @ ys"
proof -
  let ?fs = "cl_files cl" and ?op = "\<lambda>fs. map f_fid (filter (\<lambda>f. \<not> f_closed f) fs)"
  have "?fs = take a ?fs @ ?fs ! a # drop (Suc a) ?fs" using assms(1) by (rule id_take_nth_drop)
  then have "open_fids cl = ?op (take a ?fs @ ?fs ! a # drop (Suc a) ?fs)" by (simp only: open_fids_def)
  then have "open_fids cl = ?op (take a ?fs) @ f_fid (?fs ! a) # ?op (drop (Suc a) ?fs)" using assms(2) by simp
  moreover have "open_fids (cl\<lparr>cl_files := ?fs[a := (?fs ! a)\<lparr>f_closed := True\<rparr>]\<rparr>) = ?op (take a ?fs) @ ?op (drop (Suc a) ?fs)"
    using assms(1) by (simp add: open_fids_def upd_conv_take_nth_drop)
  ultimately show ?thesis by (rule that)
qed

definition same_handles :: "'p client \<Rightarrow> 'p client \<Rightarrow> bool" where
  "same_handles cl cl' \<longleftrightarrow> cl_fids cl' = cl_fids cl \<and> cl_files cl' = cl_files cl"

lemma same_handlesD: "same_handles cl cl' \<Longrightarrow> open_fids cl' = open_fids cl \<and> cl_fids cl' = cl_fids cl"
  by (simp add: same_handles_def open_fids_def)

section \<open>Rules for calls\<close>

lemma valid_try:
  "valid P m (case_sum E R) \<Longrightarrow> (\<And>e s. E e s \<Longrightarrow> Q (Inl e) s) \<Longrightarrow> (\<And>x. valid (R x) (f x) Q)
   \<Longrightarrow> valid P (try_bind m f) Q"
  unfolding try_bind_def
  by (erule valid_bind) (auto split: sum.split intro: valid_return)

lemma valid_try_keeps:
  "keeps P m \<Longrightarrow> (\<And>e s. P s \<Longrightarrow> Q (Inl e) s) \<Longrightarrow> (\<And>x. valid P (f x) Q) \<Longrightarrow> valid P (try_bind m f) Q"
  by (rule valid_try [where E = "\<lambda>_. P" and R = "\<lambda>_. P"])
    (auto simp: keeps_valid elim!: valid_weaken split: sum.split)

lemma valid_cases:
  "(\<And>e. valid (P e) (X e) Q) \<Longrightarrow> (\<And>x. valid (R x) (Y x) Q) \<Longrightarrow> valid (case_sum P R r) (case_sum X Y r) Q"
  by (cases r) simp_all

text \<open>\<^verbatim>\<open>rtrip\<close> adds nothing to the state a round trip leaves.\<close>

definition selected :: "(message \<Rightarrow> 'a option) \<Rightarrow> client_error + message \<Rightarrow> client_error + 'a" where
  "selected sel res = (case res of Inl e \<Rightarrow> Inl e | Inr resp \<Rightarrow> (case toError resp of
       Some e \<Rightarrow> Inl e
     | None \<Rightarrow> (case sel resp of Some x \<Rightarrow> Inr x | None \<Rightarrow> Inl (ErrUnexpectedResponse (Type resp)))))"

lemma run_rtrip:
  "run_state (rtrip N sel m) cl = (case run_state (roundTrip N m) cl of (res, cl') \<Rightarrow> (selected sel res, cl'))"
  by (simp add: rtrip_def try_bind_def selected_def split: prod.split sum.split option.split)

lemma rtrip_valid:
  "valid P (roundTrip N m) (\<lambda>res. Q (selected sel res)) \<Longrightarrow> valid P (rtrip N sel m) Q"
  by (simp add: valid_def run_rtrip split: prod.splits)

lemma rtrip_keeps: "keeps P (roundTrip N m) \<Longrightarrow> keeps P (rtrip N sel m)"
  by (simp add: keeps_valid rtrip_valid)

lemma closed_calls:
  "cl_closed cl \<Longrightarrow> run_state (roundTrip N m) cl = (Inl ErrClosed, cl)"
  "cl_closed cl \<Longrightarrow> run_state (exchange N m dst) cl = (Inl ErrClosed, cl)"
  by (simp_all add: roundTrip_def exchange_def)

section \<open>Loops keep what their steps keep\<close>

lemma read_loop_inv:
  "(\<forall>fid off cnt dst. keeps P (readAtZeroCopy N fid off cnt dst)) \<Longrightarrow> P cl
   \<Longrightarrow> P (snd (read_loop N fid iounit off p got cl))"
proof (induction N fid iounit off p got cl rule: read_loop.induct)
  case (1 N fid iounit off p got cl)
  let ?count = "chunkLen (length p - length got) (maxChunk (cl_msize cl) iounit)"
  obtain r cl' where run: "run_state (readAtZeroCopy N fid (off + of_nat (length got)) ?count
      (take (unat ?count) (drop (length got) p))) cl = (r, cl')"
    by fastforce
  have kept: "P cl'" using 1(2,3) run by (metis keepsD snd_conv)
  show ?case
    using 1(1) [OF _ refl refl run [symmetric] _ _ 1(2) kept] 1(3) run kept
    by (subst read_loop.simps) (auto simp: Let_def split: sum.split)
qed

lemma xattr_read_loop_inv:
  "(\<forall>fid off cnt. keeps P (tread N fid off cnt)) \<Longrightarrow> P cl \<Longrightarrow> P (snd (xattr_read_loop N fid sz got cl))"
proof (induction N fid sz got cl rule: xattr_read_loop.induct)
  case (1 N fid sz got cl)
  obtain r cl' where run: "run_state (tread N fid (of_nat (length got))
      (of_nat (min (unat (xattrChunk (cl_msize cl))) (sz - length got)))) cl = (r, cl')"
    by fastforce
  have kept: "P cl'" using 1(2,3) run by (metis keepsD snd_conv)
  show ?case
    using 1(1) [OF _ refl run [symmetric] _ _ _ 1(2) kept] 1(3) run kept
    by (subst xattr_read_loop.simps) (auto simp: Let_def split: sum.split)
qed

lemma xattr_write_loop_inv:
  "(\<forall>fid off data. keeps P (twrite N fid off data)) \<Longrightarrow> P cl \<Longrightarrow> P (snd (xattr_write_loop N fid data off cl))"
proof (induction N fid data off cl rule: xattr_write_loop.induct)
  case (1 N fid data off cl)
  obtain r cl' where run: "run_state (twrite N fid (of_nat off)
      (take (unat (xattrChunk (cl_msize cl))) (drop off data))) cl = (r, cl')"
    by fastforce
  have kept: "P cl'" using 1(2,3) run by (metis keepsD snd_conv)
  show ?case
    using 1(1) [OF _ refl run [symmetric] _ _ 1(2) kept] 1(3) run kept
    by (subst xattr_write_loop.simps) (auto simp: Let_def split: sum.split)
qed

lemma readdir_loop_inv:
  "(\<forall>fid off cnt. keeps P (roundTrip N (L (Treaddir fid off cnt)))) \<Longrightarrow> P cl
   \<Longrightarrow> P (snd (snd (readdir_loop N fid iounit n entries cursor cl)))"
proof (induction N fid iounit n entries cursor cl rule: readdir_loop.induct)
  case (1 N fid iounit n entries cursor cl)
  obtain r cl' where run: "run_state (roundTrip N (L (Treaddir fid cursor (maxChunk (cl_msize cl) iounit)))) cl = (r, cl')"
    by fastforce
  have kept: "P cl'" using 1(2,3) run by (metis keepsD snd_conv)
  show ?case
    using 1(1) [OF _ run [symmetric] _ _ _ _ _ _ _ _ _ _ _ _ 1(2) kept] 1(3) run kept
    by (subst readdir_loop.simps)
      (auto split: sum.split option.split message.split l_msg.split prod.split)
qed

lemma write_loop_inv:
  assumes "write_loop N fid iounit off p n cl = Some y" "\<And>fid off data. keeps P (twrite N fid off data)" "P cl"
  shows "P (snd y)"
proof -
  let ?P = "\<lambda>M fid iounit off p n cl y. M = N \<longrightarrow> P cl \<longrightarrow> P (snd y)"
  have "?P N fid iounit off p n cl y"
  proof (rule write_loop.raw_induct [where P = ?P, OF _ assms(1)], intro impI)
    fix rec M fid iounit off p n cl y
    assume IH: "\<And>M fid iounit off p n cl y. rec M fid iounit off p n cl = Some y \<Longrightarrow> M = N \<longrightarrow> P cl \<longrightarrow> P (snd y)"
      and body: "(if n < length p then
        let chunk = take (unat (maxChunk (cl_msize cl) iounit)) (drop n p) in
        case run_state (twrite M fid (off + of_nat n) chunk) cl of
          (Inl e, cl') \<Rightarrow> Some ((n, Some e), cl')
        | (Inr n', cl') \<Rightarrow> if unat n' < length chunk then Some ((n + unat n', Some ErrShortWrite), cl')
            else rec M fid iounit off p (n + unat n') cl'
        else Some ((n, None), cl)) = Some y"
      and N: "M = N" and cl: "P cl"
    let ?chunk = "take (unat (maxChunk (cl_msize cl) iounit)) (drop n p)"
    obtain r cl' where run: "run_state (twrite N fid (off + of_nat n) ?chunk) cl = (r, cl')" by fastforce
    have "P cl'" using keepsD [OF assms(2) cl] run by (metis snd_conv)
    then show "P (snd y)"
      using body run cl IH [of N _ _ _ _ _ cl' y] by (auto simp: N Let_def split: if_splits sum.splits)
  qed
  then show ?thesis using assms(3) by simp
qed

section \<open>The contract of a peer\<close>

locale fid_link =
  fixes N :: "'p link" and d :: protocol and up :: "'p client \<Rightarrow> bool" and bound :: "'p client \<Rightarrow> u32 set"
  assumes dialect: "d \<noteq> protocolNone"
    and calls: "up cl \<Longrightarrow> request_for d m \<Longrightarrow> run_state (roundTrip N m) cl = (res, cl') \<Longrightarrow>
      cl_closed cl' \<or> up cl' \<and> same_handles cl cl' \<and> client_effect m res (bound cl) (bound cl')"
    and zc_reads: "up cl \<Longrightarrow> run_state (exchange N (Base (Tread fid off cnt)) (Some dst)) cl = (rd, cl') \<Longrightarrow>
      cl_closed cl' \<or> up cl' \<and> same_handles cl cl' \<and> bound cl' = bound cl"
    and up_local: "up (cl\<lparr>cl_fids := fa\<rparr>) = up cl" "up (cl\<lparr>cl_files := fs\<rparr>) = up cl" "up (cl\<lparr>cl_root := rt\<rparr>) = up cl"
    and bound_local: "bound (cl\<lparr>cl_fids := fa\<rparr>) = bound cl" "bound (cl\<lparr>cl_files := fs\<rparr>) = bound cl"
      "bound (cl\<lparr>cl_root := rt\<rparr>) = bound cl"
begin

text \<open>The connection has ended, or the peer has bound exactly the fids of the open files and the fids \<^verbatim>\<open>T\<close>
  an operation works with; these and the fids \<^verbatim>\<open>R\<close> it has reserved are distinct and held.\<close>

definition agree :: "u32 list \<Rightarrow> u32 list \<Rightarrow> 'p client \<Rightarrow> bool" where
  "agree T R cl \<longleftrightarrow> cl_dialect cl = d \<and> (cl_closed cl \<or>
     up cl \<and> fid_ok (cl_fids cl) \<and> distinct (open_fids cl @ T @ R)
     \<and> set (open_fids cl @ T @ R) \<subseteq> {fidStart..<NoFid} - fid_avail (cl_fids cl)
     \<and> bound cl = set (open_fids cl @ T))"

lemma agree_swap: "agree (a # b # T) R cl = agree (b # a # T) R cl"
  by (auto simp: agree_def)

lemma agree_closed: "cl_dialect cl = d \<Longrightarrow> cl_closed cl \<Longrightarrow> agree T R cl"
  by (simp add: agree_def)

text \<open>A call in progress: it ends the connection, or has the effect on the fids the contract says.\<close>

lemma call_cases:
  assumes "agree T R cl" "request_for d m" "run_state (roundTrip N m) cl = (res, cl')"
  obtains "cl_closed cl'" "\<And>T R. agree T R cl'"
  | "\<not> cl_closed cl" "up cl" "up cl'" "same_handles cl cl'" "cl_dialect cl' = d" "client_effect m res (bound cl) (bound cl')"
proof -
  have d: "cl_dialect cl' = d"
    using keepsD [OF roundTrip_settled, of cl "cl_msize cl" d N m] assms(1,3) by (simp add: agree_def)
  show ?thesis
  proof (cases "cl_closed cl \<or> cl_closed cl'")
    case True
    then have "cl_closed cl'" using closed_calls(1) [of cl N m] assms(3) by auto
    then show ?thesis using that(1) agree_closed [OF d] by blast
  next
    case False
    then have "up cl" using assms(1) by (simp add: agree_def)
    then show ?thesis using that(2) calls [OF _ assms(2,3)] d False by blast
  qed
qed

lemma neutral_keeps:
  assumes "request_for d m" "neutral m"
  shows "keeps (agree T R) (roundTrip N m)"
proof (rule keepsI)
  fix cl assume ag: "agree T R cl"
  obtain res cl' where run: "run_state (roundTrip N m) cl = (res, cl')" by fastforce
  show "agree T R (snd (run_state (roundTrip N m) cl))"
  proof (rule call_cases [OF ag assms(1) run])
    assume c: "\<not> cl_closed cl" "up cl'" "same_handles cl cl'" "cl_dialect cl' = d" "client_effect m res (bound cl) (bound cl')"
    have "bound cl' = bound cl"
      using c(5) assms(2) by (auto simp: neutral_def client_effect_def split: message.splits base_msg.splits l_msg.splits)
    then show ?thesis using ag c(1-4) by (simp add: run agree_def same_handlesD)
  qed (simp add: run)
qed

text \<open>A request that binds a reserved fid.\<close>

lemma reserved_valid:
  assumes "request_for d m" "\<And>res b b'. client_effect m res b b' \<Longrightarrow> binding fid (won res) b b'"
  shows "valid (agree T (fid # R)) (roundTrip N m) (\<lambda>res. if won res then agree (fid # T) R else agree T (fid # R))"
proof (rule validI)
  fix cl res cl' assume ag: "agree T (fid # R) cl" and run: "run_state (roundTrip N m) cl = (res, cl')"
  show "(if won res then agree (fid # T) R else agree T (fid # R)) cl'"
  proof (rule call_cases [OF ag assms(1) run])
    assume c: "\<not> cl_closed cl" "up cl'" "same_handles cl cl'" "cl_dialect cl' = d" "client_effect m res (bound cl) (bound cl')"
    have "fid \<notin> bound cl" using ag c(1) by (auto simp: agree_def)
    then have "bound cl' = (if won res then insert fid (bound cl) else bound cl)"
      using assms(2) [OF c(5)] by (simp add: binding_def)
    then show ?thesis using ag c(1-4) by (auto simp: agree_def dest!: same_handlesD)
  qed simp
qed

lemma base_request: "Type (Base m) \<in> set base_requests - {102, 108, 122} \<Longrightarrow> request_for d (Base m)"
  using dialect
  by (cases d) (auto simp: request_for_def conn_newMessage_def base_requests_def NewBaseMessage_def)

lemma acquireFid_valid: "valid (agree T R) acquireFid (case_sum (\<lambda>_. agree T R) (\<lambda>fid. agree T (fid # R)))"
proof (rule validI)
  fix cl r cl' assume ag: "agree T R cl" and run: "run_state acquireFid cl = (r, cl')"
  show "(case r of Inl _ \<Rightarrow> agree T R | Inr fid \<Rightarrow> agree T (fid # R)) cl'"
  proof (cases "fid_acquire (cl_fids cl)")
    case None
    then show ?thesis using run ag by (auto simp: acquireFid_def)
  next
    case (Some x)
    obtain fid fa where x: "x = (fid, fa)" by fastforce
    have r: "r = Inr fid" "cl' = cl\<lparr>cl_fids := fa\<rparr>" using run Some by (auto simp: acquireFid_def x)
    show ?thesis
    proof (cases "cl_closed cl")
      case False
      then have ok: "fid_ok (cl_fids cl)" using ag by (simp add: agree_def)
      have "fid_ok fa \<and> fid \<in> fid_avail (cl_fids cl) \<and> fid_avail fa = fid_avail (cl_fids cl) - {fid}"
        by (rule fids.acquire_law [OF ok]) (simp add: Some x)
      then show ?thesis
        using ag False fids.avail_universe [OF ok]
        by (auto simp: agree_def r up_local bound_local)
    qed (use ag in \<open>simp add: r agree_def\<close>)
  qed
qed

lemma releaseFid_valid: "valid (agree T (fid # R)) (releaseFid fid) (\<lambda>_. agree T R)"
proof (rule validI)
  fix cl r cl' assume ag: "agree T (fid # R) cl" and run: "run_state (releaseFid fid) cl = (r, cl')"
  then have r: "cl' = cl\<lparr>cl_fids := fid_release fid (cl_fids cl)\<rparr>" by (simp add: releaseFid_def)
  show "agree T R cl'"
  proof (cases "cl_closed cl")
    case False
    then have ok: "fid_ok (cl_fids cl)" "fid \<in> {fidStart..<NoFid}" "fid \<notin> fid_avail (cl_fids cl)"
      using ag by (auto simp: agree_def)
    from fids.release_law [OF this] show ?thesis
      using ag False by (auto simp: agree_def r up_local bound_local)
  qed (use ag in \<open>simp add: r agree_def\<close>)
qed

lemma clunk_valid:
  "valid (agree (fid # T) R) (roundTrip N (Base (Tclunk fid)))
     (\<lambda>res cl. agree T (fid # R) cl \<and> (cl_closed cl \<or> (\<exists>r. res = Inr r \<and> (r = Base Rclunk \<or> toError r \<noteq> None))))"
proof (rule validI)
  let ?m = "Base (Tclunk fid)"
  fix cl res cl' assume ag: "agree (fid # T) R cl" and run: "run_state (roundTrip N ?m) cl = (res, cl')"
  have req: "request_for d ?m" by (rule base_request) (simp add: base_requests_def)
  show "agree T (fid # R) cl' \<and> (cl_closed cl' \<or> (\<exists>r. res = Inr r \<and> (r = Base Rclunk \<or> toError r \<noteq> None)))"
    by (rule call_cases [OF ag req run]; use ag in \<open>auto simp: agree_def client_effect_def dest!: same_handlesD\<close>)
qed

lemma cleanupFid_valid: "valid (agree (fid # T) R) (cleanupFid N fid) (\<lambda>_. agree T R)"
  unfolding cleanupFid_def
proof (rule valid_bind [OF clunk_valid], rule validI)
  fix res cl r cl'
  assume ag: "agree T (fid # R) cl \<and> (cl_closed cl \<or> (\<exists>r. res = Inr r \<and> (r = Base Rclunk \<or> toError r \<noteq> None)))"
    and run: "run_state (do {
       let res = (case res of Inl e \<Rightarrow> Inl e | Inr resp \<Rightarrow> (case toError resp of
             Some e \<Rightarrow> Inl e
           | None \<Rightarrow> if resp = Base Rclunk then Inr () else Inl (ErrUnexpectedResponse (Type resp))));
       (case res of Inr _ \<Rightarrow> releaseFid fid | Inl (ServerError _ _) \<Rightarrow> releaseFid fid
          | Inl ErrClosed \<Rightarrow> releaseFid fid | Inl _ \<Rightarrow> ret ());
       ret res }) cl = (r, cl')"
  show "agree T R cl'"
  proof (cases "cl_closed cl")
    case True
    then have "cl_closed cl'" "cl_dialect cl' = d"
      using run ag by (auto simp: Let_def releaseFid_def agree_def split: sum.splits option.splits if_splits client_error.splits)
    then show ?thesis by (simp add: agree_def)
  next
    case False
    then obtain resp where res: "res = Inr resp" "resp = Base Rclunk \<or> toError resp \<noteq> None" using ag by blast
    have "cl' = snd (run_state (releaseFid fid) cl)"
      using run res by (auto simp: toError_def Let_def split: message.splits l_msg.splits u_msg.splits prod.splits)
    then show ?thesis using validD [OF releaseFid_valid, of T fid R cl] ag by (metis prod.collapse)
  qed
qed

lemma newFile_valid: "valid (agree (fid # T) R) (newFile fid q i) (\<lambda>_. agree T R)"
  by (rule validI) (auto simp: newFile_def agree_def up_local bound_local)

lemma set_file_keeps:
  assumes "\<And>f. f_fid (g f) = f_fid f \<and> f_closed (g f) = f_closed f"
  shows "keeps (agree T R) (set_file a g)"
proof (rule keepsI)
  fix cl assume ag: "agree T R cl"
  have "open_fids (cl\<lparr>cl_files := (cl_files cl)[a := g (cl_files cl ! a)]\<rparr>) = open_fids cl"
    by (rule open_fids_update) (rule assms)
  then show "agree T R (snd (run_state (set_file a g) cl))"
    using ag by (auto simp: agree_def set_file_def up_local bound_local)
qed

section \<open>Every operation\<close>

lemma rtrip_binding:
  assumes "request_for d m"
    and "\<And>res b b'. client_effect m res b b' \<Longrightarrow> binding fid (\<exists>x. selected sel res = Inr x \<and> good x) b b'"
  shows "valid (agree T (fid # R)) (rtrip N sel m)
    (case_sum (\<lambda>_. agree T (fid # R)) (\<lambda>x. if good x then agree (fid # T) R else agree T (fid # R)))"
proof (rule rtrip_valid, rule valid_weaken [OF reserved_valid [OF assms]])
  show "case_sum (\<lambda>_. agree T (fid # R)) (\<lambda>x. if good x then agree (fid # T) R else agree T (fid # R)) (selected sel res) cl"
    if "(if \<exists>x. selected sel res = Inr x \<and> good x then agree (fid # T) R else agree T (fid # R)) cl" for res cl
    using that by (cases "selected sel res") (auto split: if_splits)
qed

lemma selected_iff:
  "selected (\<lambda>m. case m of Base (Rwalk qs) \<Rightarrow> Some qs | _ \<Rightarrow> None) res = Inr x \<longleftrightarrow> res = Inr (Base (Rwalk x))"
  "selected (\<lambda>m. case m of Base (Rattach q) \<Rightarrow> Some q | _ \<Rightarrow> None) res = Inr y \<longleftrightarrow> res = Inr (Base (Rattach y))"
  "selected (\<lambda>m. case m of L r \<Rightarrow> (case r of Rxattrwalk sz \<Rightarrow> Some sz | _ \<Rightarrow> None) | _ \<Rightarrow> None) res = Inr z
     \<longleftrightarrow> res = Inr (L (Rxattrwalk z))"
  by (auto simp: selected_def toError_def split: sum.splits message.splits base_msg.splits l_msg.splits u_msg.splits)

lemma twalk_valid:
  "valid (agree T (fid # R)) (twalk N base fid names) (case_sum (\<lambda>_. agree T (fid # R))
     (\<lambda>qs. if length qs = length names \<or> names = [] then agree (fid # T) R else agree T (fid # R)))"
  unfolding twalk_def
  by (rule rtrip_binding [OF base_request]) (auto simp: base_requests_def selected_iff client_effect_def binding_def)

lemma tattach_valid:
  "valid (agree T (fid # R)) (tattach N fid uname aname uid) (case_sum (\<lambda>_. agree T (fid # R)) (\<lambda>_. agree (fid # T) R))"
  unfolding tattach_def
  by (rule rtrip_binding [OF base_request, where good = "\<lambda>_. True", simplified])
    (auto simp: base_requests_def selected_iff client_effect_def)

text \<open>The requests of one dialect.\<close>

lemma requireDialect_valid:
  "valid P (requireDialect want) (\<lambda>r cl. P cl \<and> (r = Inr () \<longrightarrow> cl_dialect cl = want))"
  by (simp add: valid_def requireDialect_def)

lemma requireDialect_keeps: "keeps P (requireDialect want)"
  unfolding requireDialect_def by (intro keeps_intro)

lemma of_dialect:
  assumes "d = want \<Longrightarrow> valid (agree T R) m Q" "\<And>e cl. agree T R cl \<Longrightarrow> Q (Inl e) cl"
  shows "valid (agree T R) (try_bind (requireDialect want) (\<lambda>_. m)) Q"
  unfolding try_bind_def
proof (rule valid_bind [OF requireDialect_valid])
  show "valid (\<lambda>cl. agree T R cl \<and> (r = Inr () \<longrightarrow> cl_dialect cl = want)) (case r of Inl e \<Rightarrow> err e | Inr _ \<Rightarrow> m) Q" for r
  proof (cases r)
    case (Inr u)
    show ?thesis
    proof (cases "d = want")
      case True
      have "valid (\<lambda>cl. agree T R cl \<and> (r = Inr () \<longrightarrow> cl_dialect cl = want)) m Q"
        by (rule valid_weaken [OF assms(1) [OF True]]) simp_all
      then show ?thesis by (simp only: Inr sum.case)
    qed (auto simp: Inr valid_def agree_def)
  qed (use assms(2) in \<open>auto simp: valid_def\<close>)
qed

lemma l_request:
  assumes "d = protocolL" "l_ok m" "newLMessage (l_Type m) \<noteq> None"
  shows "request_for d (L m)"
proof -
  have "Type (L m) < 100" by (cases m) simp_all
  then show ?thesis
    using assms(2,3) by (auto simp: request_for_def assms(1) conn_newMessage_def base_requests_def)
qed

lemma u_request:
  assumes "d = protocolU" "u_ok m" "newUMessage (u_Type m) \<noteq> None"
  shows "request_for d (U m)"
proof -
  have "u_Type m \<notin> set base_requests" "u_Type m \<notin> {102, 108, 122}" by (cases m; simp add: base_requests_def)+
  then show ?thesis using assms(2,3) by (auto simp: request_for_def assms(1) conn_newMessage_def)
qed

lemmas wire_types = newLMessage_def newUMessage_def newLMsg_def newUMsg_def

lemma xattrwalk_valid:
  "valid (agree T (fid # R)) (Txattrwalk_op N base fid name) (case_sum (\<lambda>_. agree T (fid # R)) (\<lambda>_. agree (fid # T) R))"
  unfolding Txattrwalk_op_def rtripL_def
proof (rule of_dialect)
  assume L: "d = protocolL"
  show "valid (agree T (fid # R)) (rtrip N (\<lambda>m. case m of L r \<Rightarrow> (case r of Rxattrwalk sz \<Rightarrow> Some sz | _ \<Rightarrow> None) | _ \<Rightarrow> None)
      (L (Txattrwalk base fid name))) (case_sum (\<lambda>_. agree T (fid # R)) (\<lambda>_. agree (fid # T) R))"
    by (rule rtrip_binding [OF l_request [OF L], where good = "\<lambda>_. True", simplified])
      (simp_all add: wire_types selected_iff client_effect_def)
qed simp

lemma rtripL_keeps:
  assumes "l_ok m" "newLMessage (l_Type m) \<noteq> None" "neutral (L m)"
  shows "keeps (agree T R) (rtripL N sel m)"
  unfolding rtripL_def keeps_valid
  by (rule of_dialect, unfold keeps_valid [symmetric], rule rtrip_keeps, rule neutral_keeps [OF l_request])
    (use assms in simp_all)

lemma rtripU_keeps:
  assumes "u_ok m" "newUMessage (u_Type m) \<noteq> None"
  shows "keeps (agree T R) (rtripU N sel m)"
  unfolding rtripU_def keeps_valid
  by (rule of_dialect, unfold keeps_valid [symmetric], rule rtrip_keeps, rule neutral_keeps [OF u_request])
    (use assms in \<open>simp_all add: neutral_def\<close>)

lemma base_keeps:
  "base_Type m \<in> set base_requests - {102, 108, 122} \<Longrightarrow> neutral (Base m) \<Longrightarrow> keeps (agree T R) (rtrip N sel (Base m))"
  by (intro rtrip_keeps neutral_keeps base_request) simp_all

text \<open>Every wire operation that neither binds nor unbinds.\<close>

lemmas op_defs = tlopen_def tlcreate_def topen_def tcreate_def Tsymlink_op_def Treadlink_op_def Txattrcreate_op_def
  Tstatfs_op_def Tfsync_op_def Tgetattr_op_def Tsetattr_op_def Trename_op_def Trenameat_op_def Tunlinkat_op_def
  Tlink_op_def Tmknod_op_def Tmkdir_op_def Tstat_op_def

lemma ops_keep:
  "keeps (agree T R) (tlopen N fid flags)" "keeps (agree T R) (tlcreate N fid name flags mode gid)"
  "keeps (agree T R) (topen N fid md)" "keeps (agree T R) (tcreate N fid name perm md ext)"
  "keeps (agree T R) (Tsymlink_op N fid name target gid)" "keeps (agree T R) (Treadlink_op N fid)"
  "keeps (agree T R) (Txattrcreate_op N fid name asz flags)" "keeps (agree T R) (Tstatfs_op N fid)"
  "keeps (agree T R) (Tfsync_op N fid dsync)" "keeps (agree T R) (Tgetattr_op N fid msk)"
  "keeps (agree T R) (Tsetattr_op N fid attr)" "keeps (agree T R) (Trename_op N fid dfid name)"
  "keeps (agree T R) (Trenameat_op N fid name dfid name')" "keeps (agree T R) (Tunlinkat_op N fid name flags)"
  "keeps (agree T R) (Tlink_op N dfid fid name)" "keeps (agree T R) (Tmknod_op N fid name mode major minor gid)"
  "keeps (agree T R) (Tmkdir_op N fid name mode gid)" "keeps (agree T R) (Tstat_op N fid)"
  unfolding op_defs by (rule rtripL_keeps rtripU_keeps; simp add: wire_types neutral_def)+

lemma locks_keep:
  "lt \<le> 2 \<Longrightarrow> flags AND NOT 3 = 0 \<Longrightarrow> keeps (agree T R) (Tlock_op N fid lt flags st ln pid cid)"
  "lt \<le> 2 \<Longrightarrow> keeps (agree T R) (Tgetlock_op N fid lt st ln pid cid)"
  unfolding Tlock_op_def Tgetlock_op_def by (rule rtripL_keeps; simp add: wire_types neutral_def)+

lemma signalShutdown_keeps: "keeps (agree T R) (modify signalShutdown)"
  by (auto simp: keeps_def signalShutdown_def agree_def)

lemma tread_keeps: "keeps (agree T R) (tread N fid off cnt)"
  unfolding tread_def
  by (intro keeps_intro signalShutdown_keeps base_keeps) (simp_all add: base_requests_def neutral_def)

lemma twrite_keeps: "keeps (agree T R) (twrite N fid off data)"
  unfolding twrite_def
  by (intro keeps_intro signalShutdown_keeps base_keeps) (simp_all add: base_requests_def neutral_def)

lemma zc_keeps: "keeps (agree T R) (readAtZeroCopy N fid off cnt dst)"
proof -
  have "keeps (agree T R) (exchange N (Base (Tread fid off cnt)) (Some dst))" (is "keeps _ ?ex")
  proof (rule keepsI)
    fix cl assume ag: "agree T R cl"
    obtain res cl' where run: "run_state ?ex cl = (res, cl')" by fastforce
    have d: "cl_dialect cl' = d"
      using keepsD [OF exchange_settled, of cl "cl_msize cl" d N "Base (Tread fid off cnt)" "Some dst"] ag run
      by (simp add: agree_def)
    show "agree T R (snd (run_state ?ex cl))"
    proof (cases "cl_closed cl")
      case True
      then show ?thesis using closed_calls(2) [OF True] ag by simp
    next
      case False
      then have "up cl" using ag by (simp add: agree_def)
      from zc_reads [OF this run] show ?thesis
        using ag False d by (auto simp: run agree_def dest!: same_handlesD)
    qed
  qed
  then show ?thesis
    unfolding readAtZeroCopy_def
    by (intro keeps_intro) (auto intro!: keeps_intro split: delivery.split)
qed

lemma beginOp_keeps: "keeps (agree T R) (beginOp a)"
  unfolding beginOp_def by (intro keeps_intro)

lemma walkNew_valid:
  "valid (agree T R) (walkNew N base names) (case_sum (\<lambda>_. agree T R) (\<lambda>(fid, _). agree (fid # T) R))"
  unfolding walkNew_def
proof (rule valid_try [OF acquireFid_valid])
  fix fid
  let ?Q = "case_sum (\<lambda>_. agree T R) (\<lambda>(fid, _). agree (fid # T) R)"
  have freed: "valid (agree T (fid # R)) (do { releaseFid fid; err e }) ?Q" for e
    by (rule valid_bind [OF releaseFid_valid]) (simp add: valid_return)
  show "valid (agree T (fid # R)) (do { r \<leftarrow> twalk N base fid names;
      case r of Inl e \<Rightarrow> do { releaseFid fid; err e }
      | Inr qids \<Rightarrow> if names \<noteq> [] \<and> length qids \<noteq> length names then do { releaseFid fid; err ErrPartialWalk }
          else ok (fid, qids) }) ?Q"
    by (rule valid_bind [OF twalk_valid], rule valid_cases [OF freed]) (auto intro: freed valid_return)
qed simp

text \<open>An operation that works on a fid of its own and gives it up or hands it to a file.\<close>

lemma give_up:
  assumes "keeps (agree (fid # T) R) m" "\<And>x. valid (agree (fid # T) R) (k x) (\<lambda>_. agree T R)"
  shows "valid (agree (fid # T) R)
    (do { r \<leftarrow> m; case r of Inl e \<Rightarrow> do { _ \<leftarrow> cleanupFid N fid; err e } | Inr x \<Rightarrow> k x }) (\<lambda>_. agree T R)"
  by (rule valid_keeps_bind [OF assms(1)], rule valid_sum)
    (auto intro: assms(2) valid_bind [OF cleanupFid_valid] valid_return)

lemma with_root_keeps: "(\<And>f. keeps (agree T R) (k f)) \<Longrightarrow> keeps (agree T R) (with_root k)"
  unfolding with_root_def by (intro keeps_intro beginOp_keeps)

lemma walked_keeps:
  assumes "\<And>fid qs. valid (agree (fid # T) R) (k fid qs) (\<lambda>_. agree T R)"
  shows "keeps (agree T R) (try_bind (walkNew N base names) (\<lambda>(fid, qs). k fid qs))"
  unfolding keeps_valid
  by (rule valid_try [OF walkNew_valid]) (auto intro: assms split: prod.split)

lemma with_parent_keeps:
  assumes "\<And>fid name. valid (agree (fid # T) R) (k fid name) (\<lambda>_. agree T R)"
  shows "keeps (agree T R) (with_parent N p k)"
  unfolding with_parent_def Let_def
  by (intro with_root_keeps keeps_if keeps_return walked_keeps assms)

lemma open_create_keep:
  "keeps (agree T R) (open_fid N fid flags)" "keeps (agree T R) (create_fid_op N fid name flags perm)"
  unfolding open_fid_def create_fid_op_def
  by (intro keeps_intro; simp split: protocol.split add: ops_keep keeps_return)+

lemma OpenFile_keeps: "keeps (agree T R) (OpenFile N p flags)"
  unfolding OpenFile_def
  by (intro with_root_keeps walked_keeps give_up open_create_keep) (auto intro: newFile_valid split: prod.split)

lemma Create_keeps: "keeps (agree T R) (Create N p flags mode)"
  unfolding Create_def
  by (intro with_parent_keeps give_up open_create_keep) (auto intro: newFile_valid split: prod.split)

lemma walk_made_valid:
  assumes "keeps (agree (dirFid # T) R) mk"
  shows "valid (agree (dirFid # T) R) (walk_made N dirFid name mk) (\<lambda>_. agree T R)"
  unfolding walk_made_def
proof (rule give_up [OF assms], rule valid_bind [OF walkNew_valid])
  fix qid and w :: "client_error + u32 \<times> QID list"
  show "valid ((case w of Inl _ \<Rightarrow> agree (dirFid # T) R | Inr (fid, _) \<Rightarrow> agree (fid # dirFid # T) R))
    (do { _ \<leftarrow> cleanupFid N dirFid; case w of Inl e \<Rightarrow> err e | Inr (newFid, _) \<Rightarrow> newFile newFid qid 0 }) (\<lambda>_. agree T R)"
  proof (cases w)
    case (Inl e)
    then show ?thesis by (auto intro: valid_bind [OF cleanupFid_valid] valid_return)
  next
    case (Inr x)
    obtain newFid qs where x: "x = (newFid, qs)" by fastforce
    have "valid (agree (newFid # dirFid # T) R) (cleanupFid N dirFid) (\<lambda>_. agree (newFid # T) R)"
      by (rule valid_weaken [OF cleanupFid_valid]) (simp_all add: agree_swap)
    then show ?thesis by (auto simp: Inr x intro: valid_bind newFile_valid)
  qed
qed

lemma made_keeps:
  "keeps (agree T R) (Mkdir N p mode gid)" "keeps (agree T R) (Mknod N p mode major minor gid)"
  "keeps (agree T R) (Symlink N p target)"
  unfolding Mkdir_def Mknod_def Symlink_def
  by (intro keeps_try requireDialect_keeps with_parent_keeps walk_made_valid ops_keep)+

lemma Remove_keeps: "keeps (agree T R) (Remove N p)"
  unfolding Remove_def
proof (intro keeps_try requireDialect_keeps with_parent_keeps)
  fix fid name
  have retry: "keeps (agree (fid # T) R) (case r of
       Inl (ServerError e _) \<Rightarrow> if e = EISDIR then Tunlinkat_op N fid name atRemoveDir else ret r | _ \<Rightarrow> ret r)" for r
    by (auto simp: ops_keep keeps_return split: sum.split client_error.split)
  show "valid (agree (fid # T) R) (do {
      r \<leftarrow> Tunlinkat_op N fid name 0;
      r \<leftarrow> (case r of Inl (ServerError e _) \<Rightarrow>
          if e = EISDIR then Tunlinkat_op N fid name atRemoveDir else ret r | _ \<Rightarrow> ret r);
      _ \<leftarrow> cleanupFid N fid; ret r }) (\<lambda>_. agree T R)"
    by (intro valid_keeps_bind ops_keep retry valid_bind [OF cleanupFid_valid] valid_return)
qed

lemma with_two_keeps:
  assumes "\<And>fid1 fid2. keeps (agree (fid2 # fid1 # T) R) (k fid1 fid2)"
  shows "keeps (agree T R) (with_two N root names1 names2 k)"
  unfolding with_two_def
proof (rule walked_keeps, rule valid_bind [OF walkNew_valid])
  fix fid1 and w :: "client_error + u32 \<times> QID list"
  show "valid (case w of Inl _ \<Rightarrow> agree (fid1 # T) R | Inr (fid, _) \<Rightarrow> agree (fid # fid1 # T) R)
    (case w of Inl e \<Rightarrow> do { _ \<leftarrow> cleanupFid N fid1; err e }
     | Inr (fid2, _) \<Rightarrow> do { r \<leftarrow> k fid1 fid2; _ \<leftarrow> cleanupFid N fid2; _ \<leftarrow> cleanupFid N fid1; ret r }) (\<lambda>_. agree T R)"
    by (rule valid_cases)
      (auto intro!: valid_bind [OF cleanupFid_valid] valid_return valid_keeps_bind [OF assms] split: prod.split)
qed

lemma two_paths_keep: "keeps (agree T R) (Rename N p q)" "keeps (agree T R) (Link N p q)"
  unfolding Rename_def Link_def Let_def
  by (intro keeps_try requireDialect_keeps with_root_keeps keeps_if keeps_return with_two_keeps ops_keep)+

text \<open>A fid reserved, bound by a walk or an attach, and handed to a file.\<close>

lemma acquired_keeps:
  assumes "\<And>fid. valid (agree T (fid # R)) (m fid) (case_sum (\<lambda>_. agree T (fid # R)) (\<lambda>x. P fid x))"
    and "\<And>fid x. valid (P fid x) (k fid x) (\<lambda>_. agree T R)"
  shows "keeps (agree T R) (try_bind acquireFid (\<lambda>fid. do {
      r \<leftarrow> m fid; case r of Inl e \<Rightarrow> do { _ \<leftarrow> releaseFid fid; err e } | Inr x \<Rightarrow> k fid x }))"
  unfolding keeps_valid
proof (rule valid_try [OF acquireFid_valid])
  show "valid (agree T (fid # R)) (do {
      r \<leftarrow> m fid; case r of Inl e \<Rightarrow> do { _ \<leftarrow> releaseFid fid; err e } | Inr x \<Rightarrow> k fid x }) (\<lambda>_. agree T R)" for fid
    by (rule valid_bind [OF assms(1)], rule valid_cases)
      (auto intro!: valid_bind [OF releaseFid_valid] valid_return assms(2))
qed simp

lemma root_keeps: "keeps (agree T R) (modify (\<lambda>cl. cl\<lparr>cl_root := rt\<rparr>))"
  by (simp add: keeps_def agree_def up_local bound_local)

lemma Attach_keeps: "keeps (agree T R) (Attach N uname aname uid)"
  unfolding Attach_def
proof (rule acquired_keeps [OF tattach_valid])
  show "valid (agree (fid # T) R) (try_bind (newFile fid qid 0) (\<lambda>a. do {
      modify (\<lambda>cl. cl\<lparr>cl_root := Some a\<rparr>); ok a })) (\<lambda>_. agree T R)" for fid qid
    by (rule valid_try [where E = "\<lambda>_. agree T R" and R = "\<lambda>_. agree T R"])
      (auto intro!: valid_weaken [OF newFile_valid] valid_keeps_bind [OF root_keeps] valid_return split: sum.split)
qed

lemma File_Walk_keeps: "keeps (agree T R) (File_Walk N a names)"
  unfolding File_Walk_def
  by (intro keeps_try beginOp_keeps keeps_if keeps_return acquired_keeps [OF twalk_valid])
    (auto intro!: valid_bind [OF releaseFid_valid] valid_return newFile_valid)

lemma clone_valid: "valid (agree T R) (clone_fid N a) (case_sum (\<lambda>_. agree T R) (\<lambda>(_, fid). agree (fid # T) R))"
  unfolding clone_fid_def
proof (rule valid_try_keeps [OF beginOp_keeps], simp, rule valid_try [OF acquireFid_valid], simp)
  fix f fid
  show "valid (agree T (fid # R)) (do { r \<leftarrow> twalk N (f_fid f) fid [];
      case r of Inl e \<Rightarrow> do { _ \<leftarrow> releaseFid fid; err e } | Inr _ \<Rightarrow> ok (f, fid) })
    (case_sum (\<lambda>_. agree T R) (\<lambda>(_, fid). agree (fid # T) R))"
    by (rule valid_bind [OF twalk_valid], rule valid_cases)
      (auto intro!: valid_bind [OF releaseFid_valid] valid_return)
qed

lemma cloned_keeps:
  assumes "\<And>f fid. valid (agree (fid # T) R) (k f fid) (\<lambda>_. agree T R)"
  shows "keeps (agree T R) (try_bind (clone_fid N a) (\<lambda>(f, fid). k f fid))"
  unfolding keeps_valid
  by (rule valid_try [OF clone_valid]) (auto intro: assms split: prod.split)

lemma File_Clone_keeps: "keeps (agree T R) (File_Clone N a)"
  unfolding File_Clone_def
proof (rule cloned_keeps)
  show "valid (agree (fid # T) R) (try_bind (newFile fid (f_qid f) (f_iounit f)) (\<lambda>c. do {
      set_file c (\<lambda>g. g\<lparr>f_cachedSize := f_cachedSize f\<rparr>); ok c })) (\<lambda>_. agree T R)" for f fid
    by (rule valid_try [where E = "\<lambda>_. agree T R" and R = "\<lambda>_. agree T R"])
      (auto intro!: valid_weaken [OF newFile_valid] valid_keeps_bind [OF set_file_keeps] valid_return split: sum.split)
qed

lemma mark_closed_valid:
  "valid (\<lambda>cl. agree T R cl \<and> a < length (cl_files cl) \<and> file_at a cl = f \<and> \<not> f_closed f)
     (set_file a (\<lambda>f. f\<lparr>f_closed := True\<rparr>)) (\<lambda>_. agree (f_fid f # T) R)"
proof (rule validI)
  fix cl r cl' assume pre: "agree T R cl \<and> a < length (cl_files cl) \<and> file_at a cl = f \<and> \<not> f_closed f"
    and "run_state (set_file a (\<lambda>f. f\<lparr>f_closed := True\<rparr>)) cl = (r, cl')"
  then have cl': "cl' = cl\<lparr>cl_files := (cl_files cl)[a := (cl_files cl ! a)\<lparr>f_closed := True\<rparr>]\<rparr>"
    by (simp add: set_file_def)
  obtain xs ys where "open_fids cl = xs @ f_fid f # ys" "open_fids cl' = xs @ ys"
    using open_fids_close [of a cl] pre by (auto simp: cl' file_at_def)
  then show "agree (f_fid f # T) R cl'"
    using pre by (auto simp: agree_def cl' up_local bound_local)
qed

lemma File_Close_valid: "valid (\<lambda>cl. agree T R cl \<and> a < length (cl_files cl)) (File_Close N a) (\<lambda>_. agree T R)"
  unfolding File_Close_def
proof (rule valid_bind [where R = "\<lambda>f cl. agree T R cl \<and> a < length (cl_files cl) \<and> file_at a cl = f"])
  show "valid (\<lambda>cl. agree T R cl \<and> a < length (cl_files cl) \<and> file_at a cl = f)
    (if f_closed f then ok () else do { set_file a (\<lambda>f. f\<lparr>f_closed := True\<rparr>); cleanupFid N (f_fid f) }) (\<lambda>_. agree T R)" for f
    by (intro valid_if valid_return valid_bind [OF _ cleanupFid_valid] valid_weaken [OF mark_closed_valid [of T R a f]]) auto
qed (simp add: valid_def)

text \<open>The operations on an open file.\<close>

lemma Treaddir_keeps: "d = protocolL \<Longrightarrow> keeps (agree T R) (roundTrip N (L (Treaddir fid off cnt)))"
  by (rule neutral_keeps [OF l_request]) (simp_all add: wire_types neutral_def)

lemma set_position: "keeps (agree T R) (set_file a (\<lambda>f. f\<lparr>f_offset := o' f\<rparr>))"
  by (rule set_file_keeps) simp

lemma ReadCtx_keeps: "keeps (agree T R) (ReadCtx N a p)"
  unfolding ReadCtx_def Let_def by (intro keeps_intro beginOp_keeps zc_keeps set_position)

lemma Seek_keeps: "keeps (agree T R) (Seek a offset whence)"
  unfolding Seek_def Let_def by (intro keeps_intro set_position)

lemma ReadAtCtx_agree: "agree T R cl \<Longrightarrow> agree T R (snd (ReadAtCtx N a p off cl))"
  by (simp add: ReadAtCtx_def Let_def read_loop_inv zc_keeps)

lemma write_loop_agree: "write_loop N fid iounit off p n cl = Some y \<Longrightarrow> agree T R cl \<Longrightarrow> agree T R (snd y)"
  by (rule write_loop_inv [OF _ twrite_keeps])

lemma WriteAtCtx_agree: "WriteAtCtx N a p off cl = Some y \<Longrightarrow> agree T R cl \<Longrightarrow> agree T R (snd y)"
  unfolding WriteAtCtx_def Let_def by (auto split: if_splits intro: write_loop_agree)

lemma WriteCtx_agree:
  assumes "WriteCtx N a p cl = Some y" "agree T R cl"
  shows "agree T R (snd y)"
proof (cases "y = ((0, Some ErrClosed), cl) \<or> y = ((0, None), cl) \<or> y = ((0, Some ErrNegativeOffset), cl)")
  case False
  let ?f = "file_at a cl"
  obtain n e cl' where loop: "write_loop N (f_fid ?f) (f_iounit ?f) (f_offset ?f) p 0 cl = Some ((n, e), cl')"
    and y: "snd y = snd (run_state (set_file a (\<lambda>f. f\<lparr>f_offset := f_offset f + of_nat n\<rparr>)) cl')"
    using assms(1) False unfolding WriteCtx_def Let_def by (auto split: if_splits)
  from write_loop_agree [OF loop assms(2)] show ?thesis unfolding y by (intro keepsD [OF set_position]) simp
qed (use assms(2) in auto)

lemma readDir_agree:
  assumes "agree T R cl"
  shows "agree T R (snd (readDir N a n cl))"
proof (cases "cl_dialect cl = protocolL")
  case True
  then have L: "d = protocolL" using assms by (simp add: agree_def)
  obtain r cursor cl' where loop: "readdir_loop N (f_fid (file_at a cl)) (f_iounit (file_at a cl)) n []
      (f_readdirOffset (file_at a cl)) cl = (r, cursor, cl')"
    by (metis prod_cases3)
  have reqs: "\<forall>fid off cnt. keeps (agree T R) (roundTrip N (L (Treaddir fid off cnt)))"
    using Treaddir_keeps [OF L] by blast
  have "agree T R (snd (snd (r, cursor, cl')))" unfolding loop [symmetric] by (rule readdir_loop_inv [OF reqs assms])
  then have "agree T R (snd (run_state (set_file a (\<lambda>f. f\<lparr>f_readdirOffset := cursor\<rparr>)) cl'))"
    by (intro keepsD [OF set_file_keeps]) simp_all
  then show ?thesis using assms True loop by (simp add: readDir_def Let_def)
qed (use assms in \<open>simp add: readDir_def Let_def\<close>)

lemma file_ops_keep:
  "keeps (agree T R) (File_Getattr N a m)" "keeps (agree T R) (File_Setattr N a attr)" "keeps (agree T R) (Statfs N a)"
  "keeps (agree T R) (Fsync N a ds)" "keeps (agree T R) (Readlink N a)"
  unfolding File_Getattr_def File_Setattr_def Statfs_def Fsync_def Readlink_def
  by (intro keeps_try beginOp_keeps requireDialect_keeps ops_keep)+

lemma Chattr_keeps:
  "keeps (agree T R) (Chmod N a mode)" "keeps (agree T R) (Chown N a uid gid)" "keeps (agree T R) (Truncate N a sz)"
  unfolding Chmod_def Chown_def Truncate_def by (rule file_ops_keep)+

lemma keeps_protocol: "keeps P x \<Longrightarrow> keeps P y \<Longrightarrow> keeps P z \<Longrightarrow> keeps P (case_protocol x y z r)"
  by (cases r) simp_all

lemma stat_keeps: "keeps (agree T R) (File_Stat N a)" "keeps (agree T R) (RefreshSize N a)"
  unfolding File_Stat_def RefreshSize_def
  by (intro keeps_try keeps_protocol keeps_intro beginOp_keeps ops_keep set_file_keeps; simp)+

lemma lock_poll_keeps: "lt \<le> 2 \<Longrightarrow> keeps (agree T R) (lock_poll N fid lt pid polls)"
  by (induction polls; unfold lock_poll.simps unlockCleanup_def;
      intro keeps_intro locks_keep; simp add: LockFlagBlock_def LockTypeUnlck_def)

lemma lock_ops_keep:
  assumes "lt \<le> 2"
  shows "keeps (agree T R) (File_Lock N polls a pid lt)" "keeps (agree T R) (Unlock N a pid)"
    "keeps (agree T R) (TryLock N a pid lt)" "keeps (agree T R) (GetLock N a pid lt)"
  unfolding File_Lock_def Unlock_def TryLock_def GetLock_def
  by (intro keeps_try keeps_intro beginOp_keeps lock_poll_keeps locks_keep; simp add: assms LockTypeUnlck_def)+

lemma xattr_loops_keep:
  "keeps (agree T R) (State (xattr_read_loop N fid sz got))" "keeps (agree T R) (State (xattr_write_loop N fid data off))"
  by (rule keepsI, simp, rule xattr_read_loop_inv xattr_write_loop_inv; simp add: tread_keeps twrite_keeps)+

lemma clean_end: "valid (agree (fid # T) R) (do { _ \<leftarrow> cleanupFid N fid; ret r }) (\<lambda>_. agree T R)"
  by (rule valid_bind [OF cleanupFid_valid valid_return]) simp

lemma clean_try: "valid (agree (fid # T) R) (try_bind (cleanupFid N fid) (\<lambda>_. ok x)) (\<lambda>_. agree T R)"
  unfolding try_bind_def
  by (rule valid_bind [OF cleanupFid_valid]) (auto intro: valid_return split: sum.split)

lemma xattr_read_keeps: "keeps (agree T R) (twoPhaseXattrRead N a name)"
  unfolding twoPhaseXattrRead_def
proof (rule keeps_try [OF beginOp_keeps], rule keeps_try [OF requireDialect_keeps], unfold keeps_valid,
    rule valid_try [OF acquireFid_valid], simp)
  fix f and newFid :: u32
  let ?rest = "\<lambda>msize sz. if unat sz > MaxDataSize then do { cleanupFid N newFid; err ErrXattrSize }
      else if sz = 0 then try_bind (cleanupFid N newFid) (\<lambda>_. ok [])
      else if xattrChunk msize = 0 then do { cleanupFid N newFid; err ErrXattrChunk }
      else do {
        r \<leftarrow> State (xattr_read_loop N newFid (unat sz) []);
        case r of
          Inl e \<Rightarrow> do { cleanupFid N newFid; err e }
        | Inr buf \<Rightarrow> try_bind (cleanupFid N newFid) (\<lambda>_. ok buf) }"
  have rest: "valid (agree (newFid # T) R) (?rest msize sz) (\<lambda>_. agree T R)" for msize sz
    by (intro valid_if clean_end clean_try give_up xattr_loops_keep)
  show "valid (agree T (newFid # R)) (do {
       r \<leftarrow> Txattrwalk_op N (f_fid f) newFid name;
       msize \<leftarrow> gets cl_msize;
       case r of Inl e \<Rightarrow> do { releaseFid newFid; err e } | Inr sz \<Rightarrow> ?rest msize sz }) (\<lambda>_. agree T R)"
  proof (rule valid_bind [OF xattrwalk_valid], rule valid_keeps_bind [OF keeps_gets], rule valid_cases)
    show "valid (agree T (newFid # R)) (do { releaseFid newFid; err e }) (\<lambda>_. agree T R)" for e
      by (rule valid_bind [OF releaseFid_valid valid_return]) simp
  qed (rule rest)
qed

lemma XattrSet_keeps: "keeps (agree T R) (XattrSet N a name data flags)"
  unfolding XattrSet_def
proof (rule keeps_try [OF requireDialect_keeps], rule cloned_keeps)
  fix fid :: u32
  let ?rest = "\<lambda>msize r. if xattrChunk msize = 0 \<and> data \<noteq> [] then do { cleanupFid N fid; err ErrXattrChunk }
      else do {
        r \<leftarrow> State (xattr_write_loop N fid data 0);
        case r of Inl e \<Rightarrow> do { cleanupFid N fid; err e } | Inr _ \<Rightarrow> cleanupFid N fid }"
  have "valid (agree (fid # T) R) (?rest msize r) (\<lambda>_. agree T R)" for msize r
    by (intro valid_if clean_end give_up xattr_loops_keep cleanupFid_valid)
  then show "valid (agree (fid # T) R) (do {
       r \<leftarrow> Txattrcreate_op N fid name (of_nat (length data)) flags;
       msize \<leftarrow> gets cl_msize;
       case r of Inl e \<Rightarrow> do { cleanupFid N fid; err e } | Inr _ \<Rightarrow> ?rest msize r }) (\<lambda>_. agree T R)"
    by (intro valid_keeps_bind ops_keep keeps_gets valid_sum clean_end)
qed

lemma xattr_ops_keep:
  "keeps (agree T R) (XattrGet N a name)" "keeps (agree T R) (XattrList N a)" "keeps (agree T R) (XattrRemove N a name)"
  unfolding XattrGet_def XattrList_def XattrRemove_def
  by (intro keeps_intro keeps_try xattr_read_keeps XattrSet_keeps)+

end

end
