(* ===== verification/ClientSession.thy ===== *)
theory ClientSession
  imports ClientFids
begin

text \<open>
  Whole sessions: a client dials a server of this library and makes any sequence of
  calls of its interface (\<^verbatim>\<open>src/client\<close>). The server's connection satisfies the
  contract \<^verbatim>\<open>fid_link\<close>, so at every moment between two calls the server has bound
  exactly the fids of the files the client holds open.
\<close>

section \<open>The calls of the interface\<close>

inductive api_step :: "'p link \<Rightarrow> 'p client \<Rightarrow> 'p client \<Rightarrow> bool" for N where
  api_Attach: "api_step N cl (snd (run_state (Attach N uname aname uid) cl))"
| api_OpenFile: "api_step N cl (snd (run_state (OpenFile N path flags) cl))"
| api_OpenDir: "api_step N cl (snd (run_state (OpenDir N path) cl))"
| api_Create: "api_step N cl (snd (run_state (Create N path flags perm) cl))"
| api_Mkdir: "api_step N cl (snd (run_state (Mkdir N path perm gid) cl))"
| api_Mknod: "api_step N cl (snd (run_state (Mknod N path perm major minor gid) cl))"
| api_Symlink: "api_step N cl (snd (run_state (Symlink N path target) cl))"
| api_Remove: "api_step N cl (snd (run_state (Remove N path) cl))"
| api_Rename: "api_step N cl (snd (run_state (Rename N path path') cl))"
| api_Link: "api_step N cl (snd (run_state (Link N path path') cl))"
| api_Close: "a < length (cl_files cl) \<Longrightarrow> api_step N cl (snd (run_state (File_Close N a) cl))"
| api_Walk: "a < length (cl_files cl) \<Longrightarrow> api_step N cl (snd (run_state (File_Walk N a names) cl))"
| api_Clone: "a < length (cl_files cl) \<Longrightarrow> api_step N cl (snd (run_state (File_Clone N a) cl))"
| api_Read: "a < length (cl_files cl) \<Longrightarrow> api_step N cl (snd (run_state (ReadCtx N a p) cl))"
| api_ReadAt: "a < length (cl_files cl) \<Longrightarrow> api_step N cl (snd (ReadAtCtx N a p off cl))"
| api_Write: "a < length (cl_files cl) \<Longrightarrow> WriteCtx N a p cl = Some y \<Longrightarrow> api_step N cl (snd y)"
| api_WriteAt: "a < length (cl_files cl) \<Longrightarrow> WriteAtCtx N a p off cl = Some y \<Longrightarrow> api_step N cl (snd y)"
| api_Seek: "a < length (cl_files cl) \<Longrightarrow> api_step N cl (snd (run_state (Seek a off whence) cl))"
| api_ReadDir: "a < length (cl_files cl) \<Longrightarrow> api_step N cl (snd (readDir N a n cl))"
| api_RefreshSize: "a < length (cl_files cl) \<Longrightarrow> api_step N cl (snd (run_state (RefreshSize N a) cl))"
| api_Stat: "a < length (cl_files cl) \<Longrightarrow> api_step N cl (snd (run_state (File_Stat N a) cl))"
| api_Getattr: "a < length (cl_files cl) \<Longrightarrow> api_step N cl (snd (run_state (File_Getattr N a m) cl))"
| api_Setattr: "a < length (cl_files cl) \<Longrightarrow> api_step N cl (snd (run_state (File_Setattr N a attr) cl))"
| api_Statfs: "a < length (cl_files cl) \<Longrightarrow> api_step N cl (snd (run_state (Statfs N a) cl))"
| api_Fsync: "a < length (cl_files cl) \<Longrightarrow> api_step N cl (snd (run_state (Fsync N a dataSync) cl))"
| api_Readlink: "a < length (cl_files cl) \<Longrightarrow> api_step N cl (snd (run_state (Readlink N a) cl))"
| api_Lock: "a < length (cl_files cl) \<Longrightarrow> lt \<le> 2 \<Longrightarrow> api_step N cl (snd (run_state (File_Lock N polls a pid lt) cl))"
| api_Unlock: "a < length (cl_files cl) \<Longrightarrow> api_step N cl (snd (run_state (Unlock N a pid) cl))"
| api_TryLock: "a < length (cl_files cl) \<Longrightarrow> lt \<le> 2 \<Longrightarrow> api_step N cl (snd (run_state (TryLock N a pid lt) cl))"
| api_GetLock: "a < length (cl_files cl) \<Longrightarrow> lt \<le> 2 \<Longrightarrow> api_step N cl (snd (run_state (GetLock N a pid lt) cl))"
| api_XattrGet: "a < length (cl_files cl) \<Longrightarrow> api_step N cl (snd (run_state (XattrGet N a name) cl))"
| api_XattrList: "a < length (cl_files cl) \<Longrightarrow> api_step N cl (snd (run_state (XattrList N a) cl))"
| api_XattrSet: "a < length (cl_files cl) \<Longrightarrow> api_step N cl (snd (run_state (XattrSet N a name data flags) cl))"
| api_XattrRemove: "a < length (cl_files cl) \<Longrightarrow> api_step N cl (snd (run_state (XattrRemove N a name) cl))"

context fid_link
begin

lemma OpenDir_keeps: "keeps (agree T R) (OpenDir N path)"
  unfolding OpenDir_def by (rule OpenFile_keeps)

lemmas api_keep = Attach_keeps OpenFile_keeps OpenDir_keeps Create_keeps made_keeps Remove_keeps two_paths_keep
  File_Walk_keeps File_Clone_keeps ReadCtx_keeps Seek_keeps file_ops_keep stat_keeps lock_ops_keep xattr_ops_keep
  XattrSet_keeps

lemma api_step_agree: "api_step N cl cl' \<Longrightarrow> agree T R cl \<Longrightarrow> agree T R cl'"
proof (induction rule: api_step.induct)
  case (api_Close a cl)
  then show ?case using validD [OF File_Close_valid, of T R cl a] by (metis prod.collapse)
next
  case (api_Unlock a cl pid)
  have "keeps (agree T R) (Unlock N a pid)" by (rule lock_ops_keep(2) [of 0]) simp
  then show ?case using api_Unlock by (blast dest: keepsD)
qed (auto intro: ReadAtCtx_agree readDir_agree WriteCtx_agree WriteAtCtx_agree api_keep [THEN keepsD])

end

section \<open>The server keeps the contract\<close>

text \<open>The fids bound on the server, and what is asked of the connection and of the file system.\<close>

definition server_fids :: "('n, 'h, 'x, 'w) peer client \<Rightarrow> u32 set" where
  "server_fids cl = dom (fids (s_tab (peer_srv cl)))"

definition served :: "('n, 'h, 'x, 'w) vfs \<Rightarrow> protocol \<Rightarrow> ('n, 'h, 'x, 'w) peer client \<Rightarrow> bool" where
  "served V d cl \<longleftrightarrow> live cl \<and> cl_dialect cl = d \<and> (\<forall>f. vfs_contract V (peer_cfg cl) (\<lambda>D s. fids (s_tab s) = f))"

lemma served_called [simp]: "served V d (called s cl) = served V d cl" if "live cl"
  using that by (simp add: served_def)

lemma run_roundTrip:
  "\<not> cl_closed cl \<Longrightarrow> snd (run_state (roundTrip N m) cl) = snd (run_state (exchange N m None) cl)
   \<and> ((\<exists>e. fst (run_state (exchange N m None) cl) = Inl e) \<longrightarrow> (\<exists>e. fst (run_state (roundTrip N m) cl) = Inl e))"
  by (simp add: roundTrip_def try_bind_def split: prod.split sum.split delivery.split)

lemma Tclunk_fits: "live cl \<Longrightarrow> frame_fits cl (Base (Tclunk fid))"
  by (auto simp: EncodeFrame_def codec_defs WriteFid_def WriteUint32_def HeaderSize_def live_def minMsize_def
      word_le_nat_alt intro: order_trans [of 11 256])

lemma Type_Rclunk: "Type r = 121 \<longleftrightarrow> r = Base Rclunk"
proof -
  have "l_Type l \<noteq> 121" for l by (cases l) simp_all
  moreover have "u_Type u \<noteq> 121" for u by (cases u) simp_all
  ultimately show ?thesis by (cases r) (auto simp: base_Type_iff)
qed

text \<open>The replies that report a binding or an unbinding always have an encoding.\<close>

lemma sent_reply:
  "sent c (Base (Rattach q)) = Base (Rattach q)" "sent c (Base Rclunk) = Base Rclunk"
  "length qs \<le> MaxWalkElements \<Longrightarrow> sent c (Base (Rwalk qs)) = Base (Rwalk qs)"
  "sent c (L (Rxattrwalk sz)) = L (Rxattrwalk sz)"
proof -
  have "\<exists>bs. wseq (map WriteQID qs) = Inr bs" for qs
    by (induction qs) (auto simp: WriteQID_def WriteUint8_def WriteUint32_def WriteUint64_def)
  from this [of qs] show "length qs \<le> MaxWalkElements \<Longrightarrow> sent c (Base (Rwalk qs)) = Base (Rwalk qs)"
    by (auto simp: sent_def Rwalk_EncodeTo_def WriteUint16_def)
qed (simp_all add: sent_def codec_defs WriteQID_def WriteUint8_def WriteUint32_def WriteUint64_def)

lemma sent_success:
  "sent c r = Base m \<Longrightarrow> r = Base m" "sent c r = L (Rxattrwalk sz) \<Longrightarrow> r = L (Rxattrwalk sz)"
  by (auto simp: sent_def split: sum.splits)

lemma unbound_walk:
  "fids (s_tab s) fid = None \<Longrightarrow> run_state (dispatch V c (Base (Twalk fid newfid names))) s = (Reply (errorMsg c EBADF), s)"
  by (simp add: handleWalk_def fid_get_def get_def)

lemma server_effect:
  assumes "served V d cl" "request_for d m" "frame_fits cl m" "\<not> neutral m"
    and "run_state (dispatch V (peer_cfg cl) m) (peer_srv cl) = (Reply r, s')"
  shows "client_effect m (Inr (sent (peer_cfg cl) r)) (server_fids cl) (dom (fids (s_tab s')))"
proof -
  let ?c = "peer_cfg cl" and ?f = "fids (s_tab (peer_srv cl))" and ?g = "fids (s_tab s')"
  have fe: "fid_effect m (Reply r) ?f ?g"
    by (rule dispatch_fids [OF _ assms(5)]) (use assms(1) in \<open>simp add: served_def\<close>)
  have bindsD: "binding fid won (dom ?f) (dom ?g)" if "binds fid won ?f ?g" for fid won
  proof (cases won)
    case True
    then have f: "?f = ?g(fid := None)" and g: "?g fid \<noteq> None" using that by (auto simp: binds_def)
    show ?thesis unfolding f using g True by (auto simp: binding_def)
  qed (use that in \<open>simp add: binds_def binding_def\<close>)
  consider fid afid un an nu where "m = Base (Tattach fid afid un an nu)"
    | fid newfid names where "m = Base (Twalk fid newfid names)" | fid where "m = Base (Tclunk fid)"
    | fid newfid name where "m = L (Txattrwalk fid newfid name)"
    using not_neutral [of m] assms(2,4) by (auto simp: request_for_def)
  then show ?thesis
  proof cases
    case (1 fid)
    have "(\<exists>q. sent ?c r = Base (Rattach q)) \<longleftrightarrow> (\<exists>q. r = Base (Rattach q))"
      using sent_success(1) [of ?c r] sent_reply(1) by blast
    then show ?thesis using fe bindsD by (simp add: 1 fid_effect_def client_effect_def server_fids_def)
  next
    case (2 fid newfid names)
    have names: "length names \<le> MaxWalkElements" using fits_names [OF assms(3)] by (simp add: 2)
    have short: "length qs \<le> length names" if "r = Base (Rwalk qs)" for qs
      using fe by (simp add: 2 fid_effect_def that)
    have qs: "sent ?c r = Base (Rwalk qs) \<longleftrightarrow> r = Base (Rwalk qs)" for qs
      using sent_success(1) [of ?c r] sent_reply(3) [of qs] short names by (metis order_trans)
    have "binding newfid (\<exists>qs. r = Base (Rwalk qs) \<and> length qs = length names) (dom ?f) (dom ?g)"
    proof (cases "newfid = fid")
      case True
      then show ?thesis
        using unbound_walk [of "peer_srv cl" fid V ?c newfid names] assms(5)
        by (auto simp: 2 binding_def eq_commute [of "Base _"])
    next
      case False
      then show ?thesis using fe bindsD by (simp add: 2 fid_effect_def)
    qed
    then show ?thesis using short by (simp add: 2 client_effect_def qs server_fids_def)
  next
    case (3 fid)
    have "r = Base Rclunk \<or> (\<exists>e. r = errorMsg ?c e)"
      using answer_kind [OF assms(5)] by (auto simp: 3 Type_Rclunk)
    then have "sent ?c r = Base Rclunk \<or> (\<exists>e. sent ?c r = errorMsg ?c e)"
      using sent_reply(2) by (auto simp: sent_def split: sum.splits)
    then have "sent ?c r = Base Rclunk \<or> toError (sent ?c r) \<noteq> None"
      by (auto simp: toError_def errorMsg_def split: protocol.split)
    then show ?thesis using fe by (auto simp: 3 fid_effect_def client_effect_def server_fids_def)
  next
    case (4 fid newfid name)
    have "(\<exists>sz. sent ?c r = L (Rxattrwalk sz)) \<longleftrightarrow> (\<exists>sz. r = L (Rxattrwalk sz))"
      using sent_success(2) [of ?c r] sent_reply(4) by blast
    then show ?thesis using fe bindsD by (simp add: 4 fid_effect_def client_effect_def server_fids_def)
  qed
qed

lemma server_calls:
  assumes "served V d cl" "request_for d m" "run_state (roundTrip (server_peer V order now) m) cl = (res, cl')"
  shows "cl_closed cl' \<or> served V d cl' \<and> same_handles cl cl' \<and> client_effect m res (server_fids cl) (server_fids cl')"
proof -
  let ?N = "server_peer V order now"
  have l: "live cl" "\<not> cl_closed cl" using assms(1) by (auto simp: served_def live_def idle_def)
  have s: "sendable cl m" using assms(1,2) by (simp add: sendable_def request_for_def served_def)
  obtain r where ex: "run_state (exchange ?N m None) cl = (r, cl')"
    using run_roundTrip [OF l(2), of ?N m] assms(3) by (metis prod.collapse snd_conv)
  have same: "same_handles cl (called s cl)" for s by (simp add: same_handles_def)
  consider "cl_closed cl'" | "\<not> frame_fits cl m" "\<exists>e. r = Inl e" "cl' = called (peer_srv cl) cl"
    | r' s' where "frame_fits cl m" "run_state (dispatch V (peer_cfg cl) m) (peer_srv cl) = (Reply r', s')" "cl' = called s' cl"
    using exchange_cases [OF l(1) s ex] by blast
  then show ?thesis
  proof cases
    case 2
    have "\<exists>e. res = Inl e" using run_roundTrip [OF l(2), of ?N m] ex assms(3) 2(2) by auto
    moreover have "m \<noteq> Base (Tclunk fid)" for fid using 2(1) Tclunk_fits [OF l(1)] by blast
    ultimately have "client_effect m res (server_fids cl) (server_fids cl)"
      by (auto simp: client_effect_def binding_def split: message.split base_msg.split l_msg.split)
    then show ?thesis using assms(1) l(1) 2(3) same by (simp add: server_fids_def)
  next
    case 3
    have "client_effect m res (server_fids cl) (dom (fids (s_tab s')))"
    proof (cases "neutral m")
      case True
      have "fid_effect m (Reply r') (fids (s_tab (peer_srv cl))) (fids (s_tab s'))"
        by (rule dispatch_fids [OF _ 3(2)]) (use assms(1) in \<open>simp add: served_def\<close>)
      then show ?thesis
        using True by (auto simp: neutral_def fid_effect_def client_effect_def server_fids_def
            split: message.splits base_msg.splits l_msg.splits)
    next
      case False
      then have "\<not> unbounded_reply m" "Type m \<noteq> 52" using not_neutral [of m] by auto
      from roundTrip_dispatch [OF l(1) s 3(1) this 3(2), of order now] assms(3)
      have "res = Inr (sent (peer_cfg cl) r')" by simp
      then show ?thesis using server_effect [OF assms(1,2) 3(1) False 3(2)] by simp
    qed
    then show ?thesis using assms(1) l(1) 3(3) same by (simp add: server_fids_def)
  qed simp
qed

lemma server_zc_reads:
  assumes "served V d cl" "run_state (exchange (server_peer V order now) (Base (Tread fid off cnt)) (Some dst)) cl = (rd, cl')"
  shows "cl_closed cl' \<or> served V d cl' \<and> same_handles cl cl' \<and> server_fids cl' = server_fids cl"
proof -
  let ?m = "Base (Tread fid off cnt)"
  have l: "live cl" using assms(1) by (simp add: served_def)
  note s = sendable_io(1) [OF live_dialect [OF l], of fid off cnt]
  have same: "same_handles cl (called s cl)" for s by (simp add: same_handles_def)
  have "fids (s_tab s') = fids (s_tab (peer_srv cl))"
    if "run_state (dispatch V (peer_cfg cl) ?m) (peer_srv cl) = (r', s')" for r' s'
  proof -
    have "fid_effect ?m r' (fids (s_tab (peer_srv cl))) (fids (s_tab s'))"
      by (rule dispatch_fids [OF _ that]) (use assms(1) in \<open>simp add: served_def\<close>)
    then show ?thesis by (simp add: fid_effect_def)
  qed
  then show ?thesis
    using exchange_cases [OF l s assms(2)] assms(1) l same by (auto simp: server_fids_def)
qed

lemma server_link:
  assumes "d \<noteq> protocolNone"
  shows "fid_link (server_peer V order now) d (served V d) server_fids"
proof (rule fid_link.intro [OF assms])
qed (erule (2) server_calls, erule (1) server_zc_reads, simp_all add: served_def live_def idle_def server_fids_def)

interpretation link_L: fid_link "server_peer V order now" protocolL "served V protocolL" server_fids for V order now
  by (rule server_link) simp

interpretation link_U: fid_link "server_peer V order now" protocolU "served V protocolU" server_fids for V order now
  by (rule server_link) simp

section \<open>Sessions\<close>

text \<open>A call, at any time.\<close>

definition session_step :: "('n, 'h, 'x, 'w) vfs \<Rightarrow> (nat set \<Rightarrow> nat list)
    \<Rightarrow> ('n, 'h, 'x, 'w) peer client \<Rightarrow> ('n, 'h, 'x, 'w) peer client \<Rightarrow> bool" where
  "session_step V order cl cl' \<longleftrightarrow> (\<exists>now. api_step (server_peer V order now) cl cl')"

lemma Dial_fresh:
  "Dial N cfg peer = Inr cl \<Longrightarrow> cl_files cl = [] \<and> cl_fids cl = newFidAllocator \<and> (\<exists>p. cl_peer cl = snd (N p peer))"
  by (auto simp: Dial_def Let_def split: sum.splits prod.splits option.splits if_splits)
    (metis snd_conv)+

lemma accept_cfg: "\<exists>ms d. cn_cfg (fst (snd (accept_peer now p (cn, up)))) = (cn_cfg cn)\<lparr>c_msize := ms, c_protocol := d\<rparr>"
proof -
  have "\<exists>ms d. c = c\<lparr>c_msize := ms, c_protocol := d\<rparr>" for c :: "('a, 'b, 'c, 'd) cfg"
    by (rule exI [of _ "c_msize c"], rule exI [of _ "c_protocol c"]) simp
  moreover have "\<exists>ms d. c\<lparr>c_msize := ms', c_protocol := d'\<rparr> = c\<lparr>c_msize := ms, c_protocol := d\<rparr>"
    for c :: "('a, 'b, 'c, 'd) cfg" and ms' d'
    by blast
  ultimately show ?thesis by (simp add: accept_peer_def start_conn_def split: prod.split sum.split)
qed

lemma session_agree:
  assumes "(session_step V order)\<^sup>*\<^sup>* cl0 cl" "d \<noteq> protocolNone" "fid_link.agree d (served V d) server_fids [] [] cl0"
  shows "fid_link.agree d (served V d) server_fids [] [] cl"
  using assms(1,3)
proof (induction rule: rtranclp_induct)
  case (step cl1 cl2)
  then show ?case
    using fid_link.api_step_agree [OF server_link [OF assms(2)]] unfolding session_step_def by blast
qed


lemma demo_conn_contract: "vfs_contract memfs_vfs (cn_cfg demo_conn) (\<lambda>D s. fids (s_tab s) = f)"
  unfolding demo_conn_def demo_cfg_def by (simp, rule mem_watch.vfs_contract_axioms)

text \<open>The first calls of a session with the demonstration tree.\<close>

lemma demo_attach:
  assumes "live cl" "peer_srv cl = demo_tree" "peer_cfg cl = demo_cfg\<lparr>c_msize := ms, c_protocol := d\<rparr>"
    and "cl_fids cl = newFidAllocator" "cl_files cl = []"
  shows "\<exists>cl'. run_state (Attach (server_peer memfs_vfs order now) [] [] NoUID) cl = (Inr 0, cl')
    \<and> \<not> cl_closed cl' \<and> open_fids cl' = [fidStart]"
proof -
  let ?m = "Base (Tattach fidStart NoFid [] [] NoUID)"
  let ?cl = "cl\<lparr>cl_fids := \<lparr>fa_next = fidStart + 1, fa_reuse = []\<rparr>\<rparr>"
  have l: "live ?cl" using assms(1) unfolding live_def idle_def by auto
  obtain s' q where run: "run_state (dispatch memfs_vfs (peer_cfg ?cl) ?m) (peer_srv ?cl) = (Reply (Base (Rattach q)), s')"
    by (simp add: assms(2,3) demo_defs run_defs)
  have "frame_fits ?cl ?m" using l
    by (auto simp: EncodeFrame_def codec_defs WriteFid_def WriteUint32_def WriteString_def MaxStringLen_def HeaderSize_def
        live_def minMsize_def word_le_nat_alt intro: order_trans [of _ 256])
  moreover have "sendable ?cl ?m"
    using live_dialect [OF l] by (cases "cl_dialect cl"; simp add: sendable_def conn_newMessage_def base_requests_def NewBaseMessage_def)
  ultimately have "run_state (roundTrip (server_peer memfs_vfs order now) ?m) ?cl = (Inr (Base (Rattach q)), called s' ?cl)"
    using roundTrip_dispatch [OF l _ _ _ _ run, of order now] by (simp add: sent_reply)
  moreover have "run_state acquireFid cl = (Inr fidStart, ?cl)"
    by (simp add: acquireFid_def assms(4) newFidAllocator_def fid_acquire_def fidStart_def NoFid_def word_le_nat_alt)
  moreover have "\<not> cl_closed cl" using assms(1) by (simp add: live_def idle_def)
  ultimately show ?thesis
    by (simp add: Attach_def try_bind_def tattach_def run_rtrip selected_def toError_def newFile_def assms(5) open_fids_def)
qed


end
