(* ===== verification/ClientFlush.thy ===== *)
theory ClientFlush
  imports ClientIds
begin

text \<open>
  Concurrent calls of one client and their cancellation
  (\<^verbatim>\<open>exchangeWithFlush\<close> of \<^verbatim>\<open>src/client/ops.go\<close>, \<^verbatim>\<open>flushAndWait\<close> of \<^verbatim>\<open>flush.go\<close>, the request table of
  \<^verbatim>\<open>inflight.go\<close>, \<^verbatim>\<open>signalShutdown\<close> of \<^verbatim>\<open>read_loop.go\<close>): any number of callers share the tags and
  the request table, the server answers in any order, a caller whose context is done
  sends a \<^verbatim>\<open>Tflush\<close> under the mirror tag and waits for the first of the two answers, and
  the connection may end at any moment. A response frame is its tag and the call
  whose request it answers, which the code does not see.

  A step is one operation on the tags, the table, the network or a channel. An arm of
  a \<^verbatim>\<open>select\<close> is one step with the clean-up after it, and \<^verbatim>\<open>writeT\<close>, which holds the write lock,
  is one step with its check of \<^verbatim>\<open>isClosed\<close>. A context may be done and a timer may fire at any
  moment. A \<^verbatim>\<open>Tflush\<close> has nine bytes, so \<^verbatim>\<open>writeT\<close> refuses it only when the connection is
  closed. The server answers a \<^verbatim>\<open>Tflush\<close> as the protocol says: after the response to the
  flushed request, or instead of it.
\<close>

section \<open>The state\<close>

text \<open>What a response frame answers: the request of a call, or its \<^verbatim>\<open>Tflush\<close>.\<close>

datatype answer = ReplyTo nat | FlushOf nat

datatype call_result = Got answer | FailedClosed | FailedWrite | FailedCtx | FailedFlushed

text \<open>Where a call stands, with the tag it holds, its channel and the channel of its flush. A call
  that gives up without a flush (\<^verbatim>\<open>flushOnCancel\<close> is false) keeps its tag for ever.\<close>

datatype call_phase = Fresh
  | Begun
  | Acquired u16
  | Registered u16 nat
  | Waiting u16 nat
  | FlushRegistered u16 nat nat
  | Flushing u16 nat nat
  | Abandoned u16
  | Returned call_result

text \<open>The request table maps a tag to a channel; a channel holds at most one message and may be
  closed. \<^verbatim>\<open>fc_owed\<close> are the requests the server has and has not answered,
  \<^verbatim>\<open>fc_wire\<close> the frames on the way to the client, \<^verbatim>\<open>fc_cancels\<close> the history of
  cancellations.\<close>

record flushConn =
  fc_tags :: tagAllocator
  fc_inflight :: "u16 \<rightharpoonup> nat"
  fc_buf :: "nat \<Rightarrow> answer option"
  fc_chclosed :: "nat \<Rightarrow> bool"
  fc_fresh :: nat
  fc_phase :: "nat \<Rightarrow> call_phase"
  fc_closed :: bool
  fc_swept :: bool
  fc_owed :: "(u16 \<times> answer) list"
  fc_wire :: "(u16 \<times> answer) list"
  fc_cancels :: "(u16 \<times> nat) list"

definition fl_start :: "nat \<Rightarrow> flushConn" where
  "fl_start n = \<lparr>fc_tags = newTagAllocator n, fc_inflight = Map.empty, fc_buf = (\<lambda>_. None),
     fc_chclosed = (\<lambda>_. False), fc_fresh = 0, fc_phase = (\<lambda>_. Fresh), fc_closed = False, fc_swept = False, fc_owed = [],
     fc_wire = [], fc_cancels = []\<rparr>"

definition fl_goto :: "nat \<Rightarrow> call_phase \<Rightarrow> flushConn \<Rightarrow> flushConn" where
  "fl_goto i p s = s\<lparr>fc_phase := (fc_phase s)(i := p)\<rparr>"

section \<open>The operations on the table\<close>

definition fl_register :: "u16 \<Rightarrow> flushConn \<Rightarrow> flushConn" where
  "fl_register tag s = s\<lparr>fc_inflight := (fc_inflight s)(tag \<mapsto> fc_fresh s),
     fc_buf := (fc_buf s)(fc_fresh s := None), fc_chclosed := (fc_chclosed s)(fc_fresh s := False),
     fc_fresh := Suc (fc_fresh s)\<rparr>"

definition fl_unregister :: "u16 \<Rightarrow> flushConn \<Rightarrow> flushConn" where
  "fl_unregister tag s = s\<lparr>fc_inflight := (fc_inflight s)(tag := None)\<rparr>"

definition fl_deliver :: "u16 \<Rightarrow> answer \<Rightarrow> flushConn \<Rightarrow> flushConn" where
  "fl_deliver tag a s = (case fc_inflight s tag of
       None \<Rightarrow> s
     | Some c \<Rightarrow> if fc_buf s c = None then s\<lparr>fc_buf := (fc_buf s)(c \<mapsto> a)\<rparr> else s)"

definition fl_cancelAll :: "flushConn \<Rightarrow> flushConn" where
  "fl_cancelAll s = s\<lparr>fc_chclosed := (\<lambda>c. fc_chclosed s c \<or> (\<exists>t. fc_inflight s t = Some c)), fc_inflight := Map.empty\<rparr>"

text \<open>The body of \<^verbatim>\<open>closeOnce.Do\<close> closes \<^verbatim>\<open>closeCh\<close> and then sweeps the table. Whoever calls it meanwhile
  waits until it has run.\<close>

definition fl_shutdown :: "flushConn \<Rightarrow> flushConn" where
  "fl_shutdown s = (if fc_closed s \<and> fc_swept s then s else fl_cancelAll (s\<lparr>fc_closed := True, fc_swept := True\<rparr>))"

text \<open>Unregister before release.\<close>

definition fl_retire :: "u16 \<Rightarrow> flushConn \<Rightarrow> flushConn" where
  "fl_retire tag s = (let s = fl_unregister tag s in s\<lparr>fc_tags := tag_release tag (fc_tags s)\<rparr>)"

text \<open>The deferred calls of \<^verbatim>\<open>flushAndWait\<close>, last registered first.\<close>

definition fl_flush_return :: "nat \<Rightarrow> u16 \<Rightarrow> call_result \<Rightarrow> flushConn \<Rightarrow> flushConn" where
  "fl_flush_return i tag r s = fl_goto i (Returned r) (fl_retire tag (fl_unregister (flushTagFor tag) s))"

section \<open>Steps\<close>

text \<open>One rule per arm of the two \<^verbatim>\<open>select\<close> statements and per way out of the code between them, then the
  two parts of a shutdown from elsewhere; the last three are the server and the
  read loop.\<close>

inductive fl_step :: "flushConn \<Rightarrow> flushConn \<Rightarrow> bool" where
  fl_begin:
    "fc_phase s i = Fresh
    \<Longrightarrow> fl_step s (fl_goto i (if fc_closed s then Returned FailedClosed else Begun) s)"
| fl_acquire:
    "fc_phase s i = Begun \<Longrightarrow> tag_acquire (fc_tags s) = Some (tag, ta)
    \<Longrightarrow> fl_step s (fl_goto i (Acquired tag) (s\<lparr>fc_tags := ta\<rparr>))"
| fl_acquire_ctx:
    "fc_phase s i = Begun
    \<Longrightarrow> fl_step s (fl_goto i (Returned FailedCtx) s)"
| fl_acquire_closed:
    "fc_phase s i = Begun \<Longrightarrow> fc_closed s
    \<Longrightarrow> fl_step s (fl_goto i (Returned FailedClosed) s)"
| fl_register:
    "fc_phase s i = Acquired tag
    \<Longrightarrow> fl_step s (fl_goto i (Registered tag (fc_fresh s)) (fl_register tag s))"
| fl_send:
    "fc_phase s i = Registered tag c \<Longrightarrow> \<not> fc_closed s
    \<Longrightarrow> fl_step s (fl_goto i (Waiting tag c) (s\<lparr>fc_owed := fc_owed s @ [(tag, ReplyTo i)]\<rparr>))"
| fl_send_closed:
    "fc_phase s i = Registered tag c \<Longrightarrow> fc_closed s
    \<Longrightarrow> fl_step s (fl_goto i (Returned FailedClosed) (fl_retire tag s))"
| fl_send_refused:
    "fc_phase s i = Registered tag c
    \<Longrightarrow> fl_step s (fl_goto i (Returned (if fc_closed s then FailedClosed else FailedWrite)) (fl_retire tag s))"
| fl_send_fails:
    "fc_phase s i = Registered tag c
    \<Longrightarrow> fl_step s (fl_goto i (Returned FailedClosed) (fl_retire tag (fl_shutdown s)))"
| fl_receive:
    "fc_phase s i = Waiting tag c \<Longrightarrow> fc_buf s c = Some a
    \<Longrightarrow> fl_step s (fl_goto i (Returned (Got a)) (fl_retire tag s))"
| fl_receive_closed:
    "fc_phase s i = Waiting tag c \<Longrightarrow> fc_buf s c = None \<Longrightarrow> fc_chclosed s c
    \<Longrightarrow> fl_step s (fl_goto i (Returned FailedClosed) (fl_retire tag s))"
| fl_wait_closed:
    "fc_phase s i = Waiting tag c \<Longrightarrow> fc_closed s
    \<Longrightarrow> fl_step s (fl_goto i (Returned FailedClosed) (fl_retire tag s))"
| fl_abandon:
    "fc_phase s i = Waiting tag c
    \<Longrightarrow> fl_step s (fl_goto i (Abandoned tag) (fl_unregister tag s))"
| fl_cancel:
    "fc_phase s i = Waiting tag c
    \<Longrightarrow> fl_step s (fl_goto i (FlushRegistered tag c (fc_fresh s)) ((fl_register (flushTagFor tag) s)\<lparr>fc_cancels := (tag, i) # fc_cancels s\<rparr>))"
| fl_flush_send:
    "fc_phase s i = FlushRegistered tag c f \<Longrightarrow> \<not> fc_closed s
    \<Longrightarrow> fl_step s (fl_goto i (Flushing tag c f) (s\<lparr>fc_owed := fc_owed s @ [(flushTagFor tag, FlushOf i)]\<rparr>))"
| fl_flush_send_closed:
    "fc_phase s i = FlushRegistered tag c f \<Longrightarrow> fc_closed s
    \<Longrightarrow> fl_step s (fl_flush_return i tag FailedClosed s)"
| fl_flush_send_fails:
    "fc_phase s i = FlushRegistered tag c f
    \<Longrightarrow> fl_step s (fl_flush_return i tag FailedClosed (fl_shutdown s))"
| fl_flush_orig:
    "fc_phase s i = Flushing tag c f \<Longrightarrow> fc_buf s c = Some a
    \<Longrightarrow> fl_step s (fl_flush_return i tag FailedCtx s)"
| fl_flush_ack:
    "fc_phase s i = Flushing tag c f \<Longrightarrow> fc_buf s f = Some a
    \<Longrightarrow> fl_step s (fl_flush_return i tag FailedFlushed s)"
| fl_flush_chan_closed:
    "fc_phase s i = Flushing tag c f \<Longrightarrow> (fc_buf s c = None \<and> fc_chclosed s c) \<or> (fc_buf s f = None \<and> fc_chclosed s f)
    \<Longrightarrow> fl_step s (fl_flush_return i tag FailedClosed s)"
| fl_flush_closed:
    "fc_phase s i = Flushing tag c f \<Longrightarrow> fc_closed s
    \<Longrightarrow> fl_step s (fl_flush_return i tag FailedClosed s)"
| fl_grace:
    "fc_phase s i = Flushing tag c f
    \<Longrightarrow> fl_step s (fl_flush_return i tag FailedCtx (fl_shutdown s))"
| fl_close:
    "\<not> fc_closed s
    \<Longrightarrow> fl_step s (s\<lparr>fc_closed := True\<rparr>)"
| fl_sweep:
    "fc_closed s \<Longrightarrow> \<not> fc_swept s
    \<Longrightarrow> fl_step s (fl_cancelAll (s\<lparr>fc_swept := True\<rparr>))"
| fl_answer:
    "fc_owed s = xs @ (tag, ReplyTo i) # ys
    \<Longrightarrow> fl_step s (s\<lparr>fc_owed := xs @ ys, fc_wire := fc_wire s @ [(tag, ReplyTo i)]\<rparr>)"
| fl_answer_flush:
    "fc_owed s = xs @ (tag, FlushOf i) # ys
    \<Longrightarrow> fl_step s (s\<lparr>fc_owed := filter (\<lambda>(_, a). a \<noteq> ReplyTo i) (xs @ ys),
      fc_wire := fc_wire s @ [(tag, FlushOf i)]\<rparr>)"
| fl_delivered:
    "fc_wire s = (tag, a) # w
    \<Longrightarrow> fl_step s (fl_deliver tag a (s\<lparr>fc_wire := w\<rparr>))"

section \<open>Tags and channels\<close>

primrec fl_tag :: "call_phase \<Rightarrow> u16 option" where
  "fl_tag Fresh = None" | "fl_tag Begun = None" | "fl_tag (Acquired t) = Some t" | "fl_tag (Registered t c) = Some t"
| "fl_tag (Waiting t c) = Some t" | "fl_tag (FlushRegistered t c f) = Some t" | "fl_tag (Flushing t c f) = Some t"
| "fl_tag (Abandoned t) = Some t" | "fl_tag (Returned r) = None"

primrec fl_chan :: "call_phase \<Rightarrow> nat option" where
  "fl_chan Fresh = None" | "fl_chan Begun = None" | "fl_chan (Acquired t) = None" | "fl_chan (Registered t c) = Some c"
| "fl_chan (Waiting t c) = Some c" | "fl_chan (FlushRegistered t c f) = Some c" | "fl_chan (Flushing t c f) = Some c"
| "fl_chan (Abandoned t) = None" | "fl_chan (Returned r) = None"

primrec fl_fchan :: "call_phase \<Rightarrow> nat option" where
  "fl_fchan Fresh = None" | "fl_fchan Begun = None" | "fl_fchan (Acquired t) = None" | "fl_fchan (Registered t c) = None"
| "fl_fchan (Waiting t c) = None" | "fl_fchan (FlushRegistered t c f) = Some f" | "fl_fchan (Flushing t c f) = Some f"
| "fl_fchan (Abandoned t) = None" | "fl_fchan (Returned r) = None"

text \<open>The request of the call has been sent and its caller still waits.\<close>

primrec fl_sent :: "call_phase \<Rightarrow> bool" where
  "fl_sent Fresh = False" | "fl_sent Begun = False" | "fl_sent (Acquired t) = False" | "fl_sent (Registered t c) = False"
| "fl_sent (Waiting t c) = True" | "fl_sent (FlushRegistered t c f) = True" | "fl_sent (Flushing t c f) = True"
| "fl_sent (Abandoned t) = False" | "fl_sent (Returned r) = False"

text \<open>Every tag is free or held by exactly one call.\<close>

definition tags_inv :: "nat \<Rightarrow> flushConn \<Rightarrow> bool" where
  "tags_inv n s \<longleftrightarrow> tag_ok n (fc_tags s)
     \<and> (\<forall>i t. fl_tag (fc_phase s i) = Some t \<longrightarrow> t \<in> tag_range n \<and> t \<notin> set (ta_free (fc_tags s)))
     \<and> (\<forall>i j t. fl_tag (fc_phase s i) = Some t \<longrightarrow> fl_tag (fc_phase s j) = Some t \<longrightarrow> i = j)
     \<and> (\<forall>t \<in> tag_range n. t \<in> set (ta_free (fc_tags s)) \<or> (\<exists>i. fl_tag (fc_phase s i) = Some t))"

text \<open>The table has the channels of the waiting calls, each under its own tag.\<close>

definition table_inv :: "flushConn \<Rightarrow> bool" where
  "table_inv s \<longleftrightarrow>
     (\<forall>i c. fl_chan (fc_phase s i) = Some c \<or> fl_fchan (fc_phase s i) = Some c \<longrightarrow> c < fc_fresh s)
     \<and> (\<forall>i j c. fl_chan (fc_phase s i) = Some c \<longrightarrow> fl_chan (fc_phase s j) = Some c \<longrightarrow> i = j)
     \<and> (\<forall>i j c. fl_fchan (fc_phase s i) = Some c \<longrightarrow> fl_fchan (fc_phase s j) = Some c \<longrightarrow> i = j)
     \<and> (\<forall>i j c. fl_chan (fc_phase s i) = Some c \<longrightarrow> fl_fchan (fc_phase s j) \<noteq> Some c)
     \<and> (\<forall>t c. fc_inflight s t = Some c \<longrightarrow>
         (\<exists>i. fl_tag (fc_phase s i) = Some t \<and> fl_chan (fc_phase s i) = Some c)
         \<or> (\<exists>i t'. fl_tag (fc_phase s i) = Some t' \<and> t = flushTagFor t' \<and> fl_fchan (fc_phase s i) = Some c))"

lemmas fl_defs = fl_goto_def fl_register_def fl_unregister_def fl_cancelAll_def fl_shutdown_def
  fl_retire_def fl_flush_return_def fl_deliver_def Let_def

lemma fl_simps [simp]:
  "fc_phase (fl_goto i p s) = (fc_phase s)(i := p)" "fc_phase (fl_shutdown s) = fc_phase s"
  "fc_phase (fl_retire t s) = fc_phase s" "fc_phase (fl_unregister t s) = fc_phase s"
  "fc_phase (fl_deliver t a s) = fc_phase s" "fc_phase (fl_register t s) = fc_phase s"
  "fc_tags (fl_goto i p s) = fc_tags s" "fc_tags (fl_shutdown s) = fc_tags s" "fc_tags (fl_unregister t s) = fc_tags s"
  "fc_tags (fl_retire t s) = tag_release t (fc_tags s)" "fc_tags (fl_deliver t a s) = fc_tags s"
  "fc_tags (fl_register t s) = fc_tags s"
  "fc_phase (fl_cancelAll s) = fc_phase s" "fc_tags (fl_cancelAll s) = fc_tags s"
  by (simp_all add: fl_defs split: option.split)

lemma tags_same:
  assumes "tags_inv n s" "fc_tags s' = fc_tags s" "\<And>j. fl_tag (fc_phase s' j) = fl_tag (fc_phase s j)"
  shows "tags_inv n s'"
  using assms by (simp add: tags_inv_def)

lemma tags_goto:
  "tags_inv n s \<Longrightarrow> fl_tag (fc_phase s i) = fl_tag p \<Longrightarrow> fc_phase s' = fc_phase s \<Longrightarrow> fc_tags s' = fc_tags s
   \<Longrightarrow> tags_inv n (fl_goto i p s')"
  by (erule tags_same) simp_all

text \<open>The two ways in which the holder of a tag changes.\<close>

lemma tags_invD:
  assumes "tags_inv n s"
  shows "tag_ok n (fc_tags s)" "fl_tag (fc_phase s i) = Some t \<Longrightarrow> t \<in> tag_range n"
    "fl_tag (fc_phase s i) = Some t \<Longrightarrow> t \<notin> set (ta_free (fc_tags s))"
    "fl_tag (fc_phase s i) = Some t \<Longrightarrow> fl_tag (fc_phase s j) = Some t \<Longrightarrow> i = j"
    "t \<in> tag_range n \<Longrightarrow> t \<in> set (ta_free (fc_tags s)) \<or> (\<exists>i. fl_tag (fc_phase s i) = Some t)"
  using assms by (simp_all add: tags_inv_def)

lemma tags_taken:
  assumes inv: "tags_inv n s" and acq: "tag_acquire (fc_tags s) = Some (t, fc_tags s')"
    and ph: "fc_phase s' = (fc_phase s)(i := p)" "fl_tag (fc_phase s i) = None" "fl_tag p = Some t"
  shows "tags_inv n s'"
proof -
  obtain ts where ts: "ta_free (fc_tags s) = t # ts" "fc_tags s' = (fc_tags s)\<lparr>ta_free := ts\<rparr>"
    using acq by (auto simp: tag_acquire_def split: list.splits)
  have t: "tag_ok n (fc_tags s')" "t \<in> tag_range n" "t \<notin> set ts" using tags_invD(1) [OF inv] by (auto simp: tag_ok_def ts)
  have p: "fl_tag (fc_phase s' j) = (if j = i then Some t else fl_tag (fc_phase s j))" for j by (simp add: ph)
  have held: "t' \<in> tag_range n \<and> t' \<notin> insert t (set ts)" if "fl_tag (fc_phase s j) = Some t'" for j t'
    using tags_invD(2,3) [OF inv that] by (simp add: ts)
  have "t' \<in> set (ta_free (fc_tags s')) \<or> (\<exists>j. fl_tag (fc_phase s' j) = Some t')" if "t' \<in> tag_range n" for t'
    using tags_invD(5) [OF inv that] p ph(2) by (auto simp: ts) (metis option.distinct(1))+
  moreover have "t' \<in> tag_range n \<and> t' \<notin> set (ta_free (fc_tags s'))" if "fl_tag (fc_phase s' j) = Some t'" for j t'
    using that held t by (auto simp: p ts split: if_splits)
  moreover have "j = k" if "fl_tag (fc_phase s' j) = Some t'" "fl_tag (fc_phase s' k) = Some t'" for j k t'
    using that held tags_invD(4) [OF inv] by (auto simp: p split: if_splits)
  ultimately show ?thesis using t(1) unfolding tags_inv_def by blast
qed

lemma tags_given_back:
  assumes inv: "tags_inv n s" and t: "fl_tag (fc_phase s i) = Some t" and rel: "fc_tags s' = tag_release t (fc_tags s)"
    and ph: "fc_phase s' = (fc_phase s)(i := p)" "fl_tag p = None"
  shows "tags_inv n s'"
proof -
  have ok: "tag_ok n (fc_tags s)" "t \<in> tag_range n" "t \<notin> set (ta_free (fc_tags s))"
    using tags_invD [OF inv] t by blast+
  then have free: "tag_ok n (fc_tags s')" "set (ta_free (fc_tags s')) = insert t (set (ta_free (fc_tags s)))"
    using tag_room [OF ok] by (auto simp: rel tag_release_def tag_ok_def)
  have p: "fl_tag (fc_phase s' j) = (if j = i then None else fl_tag (fc_phase s j))" for j by (simp add: ph)
  have held: "t' \<in> tag_range n \<and> t' \<notin> insert t (set (ta_free (fc_tags s)))" if "fl_tag (fc_phase s j) = Some t'" "j \<noteq> i" for j t'
    using tags_invD(2-4) [OF inv] that t by blast
  have "t' \<in> set (ta_free (fc_tags s')) \<or> (\<exists>j. fl_tag (fc_phase s' j) = Some t')" if "t' \<in> tag_range n" for t'
    using tags_invD(5) [OF inv that] p t by (auto simp: free) (metis option.inject)+
  moreover have "t' \<in> tag_range n \<and> t' \<notin> set (ta_free (fc_tags s'))" if "fl_tag (fc_phase s' j) = Some t'" for j t'
    using that held by (auto simp: p free split: if_splits)
  moreover have "j = k" if "fl_tag (fc_phase s' j) = Some t'" "fl_tag (fc_phase s' k) = Some t'" for j k t'
    using that tags_invD(4) [OF inv] by (auto simp: p split: if_splits)
  ultimately show ?thesis using free(1) unfolding tags_inv_def by blast
qed

lemma tags_retire:
  "tags_inv n s \<Longrightarrow> fl_tag (fc_phase s i) = Some t \<Longrightarrow> fl_tag p = None \<Longrightarrow> fc_phase s' = fc_phase s
   \<Longrightarrow> fc_tags s' = fc_tags s \<Longrightarrow> tags_inv n (fl_goto i p (fl_retire t s'))"
  by (erule (1) tags_given_back) simp_all

lemma tags_flush_return:
  "tags_inv n s \<Longrightarrow> fl_tag (fc_phase s i) = Some t \<Longrightarrow> fc_phase s' = fc_phase s \<Longrightarrow> fc_tags s' = fc_tags s
   \<Longrightarrow> tags_inv n (fl_flush_return i t r s')"
  unfolding fl_flush_return_def by (rule tags_retire) simp_all

lemma step_tags: "fl_step s s' \<Longrightarrow> tags_inv n s \<Longrightarrow> tags_inv n s'"
proof (induction rule: fl_step.induct)
  case (fl_acquire s i tag ta)
  then show ?case by (rule_tac tags_taken [where i = i and p = "Acquired tag"]) auto
qed ((rule tags_flush_return tags_retire tags_goto | erule tags_same); simp)+

text \<open>A channel belongs to one call, as its own or as that of its flush.\<close>

lemma table_invD:
  assumes "table_inv s"
  shows "fl_chan (fc_phase s i) = Some c \<Longrightarrow> c < fc_fresh s" "fl_fchan (fc_phase s i) = Some c \<Longrightarrow> c < fc_fresh s"
    "fl_chan (fc_phase s i) = Some c \<Longrightarrow> fl_chan (fc_phase s j) = Some c \<Longrightarrow> i = j"
    "fl_fchan (fc_phase s i) = Some c \<Longrightarrow> fl_fchan (fc_phase s j) = Some c \<Longrightarrow> i = j"
    "fl_chan (fc_phase s i) = Some c \<Longrightarrow> fl_fchan (fc_phase s j) \<noteq> Some c"
    "fc_inflight s t = Some c \<Longrightarrow>
         (\<exists>i. fl_tag (fc_phase s i) = Some t \<and> fl_chan (fc_phase s i) = Some c)
         \<or> (\<exists>i t'. fl_tag (fc_phase s i) = Some t' \<and> t = flushTagFor t' \<and> fl_fchan (fc_phase s i) = Some c)"
  using assms by (simp_all add: table_inv_def)

lemma table_invI:
  assumes "\<And>i c. fl_chan (fc_phase s i) = Some c \<Longrightarrow> c < fc_fresh s" "\<And>i c. fl_fchan (fc_phase s i) = Some c \<Longrightarrow> c < fc_fresh s"
    and "\<And>i j c. fl_chan (fc_phase s i) = Some c \<Longrightarrow> fl_chan (fc_phase s j) = Some c \<Longrightarrow> i = j"
    and "\<And>i j c. fl_fchan (fc_phase s i) = Some c \<Longrightarrow> fl_fchan (fc_phase s j) = Some c \<Longrightarrow> i = j"
    and "\<And>i j c. fl_chan (fc_phase s i) = Some c \<Longrightarrow> fl_fchan (fc_phase s j) \<noteq> Some c"
    and "\<And>t c. fc_inflight s t = Some c \<Longrightarrow>
         (\<exists>i. fl_tag (fc_phase s i) = Some t \<and> fl_chan (fc_phase s i) = Some c)
         \<or> (\<exists>i t'. fl_tag (fc_phase s i) = Some t' \<and> t = flushTagFor t' \<and> fl_fchan (fc_phase s i) = Some c)"
  shows "table_inv s"
  using assms unfolding table_inv_def by blast

lemma table_shrink:
  assumes inv: "table_inv s" and fresh: "fc_fresh s' = fc_fresh s"
    and ch: "\<And>j c. fl_chan (fc_phase s' j) = Some c \<Longrightarrow> fl_chan (fc_phase s j) = Some c"
    and fch: "\<And>j c. fl_fchan (fc_phase s' j) = Some c \<Longrightarrow> fl_fchan (fc_phase s j) = Some c"
    and tab: "\<And>t c. fc_inflight s' t = Some c \<Longrightarrow>
         (\<exists>i. fl_tag (fc_phase s' i) = Some t \<and> fl_chan (fc_phase s' i) = Some c)
         \<or> (\<exists>i t'. fl_tag (fc_phase s' i) = Some t' \<and> t = flushTagFor t' \<and> fl_fchan (fc_phase s' i) = Some c)"
  shows "table_inv s'"
proof (rule table_invI)
  show "c < fc_fresh s'" if "fl_chan (fc_phase s' j) = Some c" for j c
    using table_invD(1) [OF inv ch [OF that]] fresh by simp
  show "c < fc_fresh s'" if "fl_fchan (fc_phase s' j) = Some c" for j c
    using table_invD(2) [OF inv fch [OF that]] fresh by simp
  show "j = k" if "fl_chan (fc_phase s' j) = Some c" "fl_chan (fc_phase s' k) = Some c" for j k c
    by (rule table_invD(3) [OF inv ch [OF that(1)] ch [OF that(2)]])
  show "j = k" if "fl_fchan (fc_phase s' j) = Some c" "fl_fchan (fc_phase s' k) = Some c" for j k c
    by (rule table_invD(4) [OF inv fch [OF that(1)] fch [OF that(2)]])
  show "fl_fchan (fc_phase s' k) \<noteq> Some c" if "fl_chan (fc_phase s' j) = Some c" for j k c
    using table_invD(5) [OF inv ch [OF that], of k] fch [of k c] by blast
qed (rule tab)

lemma table_same:
  assumes inv: "table_inv s" and le: "fc_inflight s' \<subseteq>\<^sub>m fc_inflight s" and fresh: "fc_fresh s' = fc_fresh s"
    and ph: "\<And>j. fl_chan (fc_phase s' j) = fl_chan (fc_phase s j) \<and> fl_fchan (fc_phase s' j) = fl_fchan (fc_phase s j)"
      "\<And>j. fl_chan (fc_phase s j) \<noteq> None \<or> fl_fchan (fc_phase s j) \<noteq> None \<Longrightarrow> fl_tag (fc_phase s' j) = fl_tag (fc_phase s j)"
  shows "table_inv s'"
proof (rule table_shrink [OF inv fresh])
  show "(\<exists>j. fl_tag (fc_phase s' j) = Some t \<and> fl_chan (fc_phase s' j) = Some c)
      \<or> (\<exists>j t'. fl_tag (fc_phase s' j) = Some t' \<and> t = flushTagFor t' \<and> fl_fchan (fc_phase s' j) = Some c)"
    if "fc_inflight s' t = Some c" for t c
  proof -
    have "fc_inflight s t = Some c" using that le by (metis map_le_def domI)
    from table_invD(6) [OF inv this] show ?thesis using ph by (metis option.distinct(1))
  qed
qed (simp_all add: ph(1))

lemma table_drop:
  assumes "table_inv s" "fc_inflight s' \<subseteq>\<^sub>m fc_inflight s" "fc_fresh s' = fc_fresh s"
    and "fc_phase s' = (fc_phase s)(i := p)" "fl_chan p = None" "fl_fchan p = None"
    and "fl_tag (fc_phase s i) = Some t" "fc_inflight s' t = None"
    and "fl_fchan (fc_phase s i) = None \<or> fc_inflight s' (flushTagFor t) = None"
  shows "table_inv s'"
proof -
  have old: "fc_inflight s u = Some c" if "fc_inflight s' u = Some c" for u c
    using that assms(2) by (metis map_le_def domI)
  have ph: "fl_chan (fc_phase s' j) = (if j = i then None else fl_chan (fc_phase s j))"
    "fl_fchan (fc_phase s' j) = (if j = i then None else fl_fchan (fc_phase s j))"
    "j \<noteq> i \<Longrightarrow> fl_tag (fc_phase s' j) = fl_tag (fc_phase s j)" for j
    using assms(4-6) by simp_all
  have "(\<exists>j. fl_tag (fc_phase s' j) = Some u \<and> fl_chan (fc_phase s' j) = Some c)
      \<or> (\<exists>j t'. fl_tag (fc_phase s' j) = Some t' \<and> u = flushTagFor t' \<and> fl_fchan (fc_phase s' j) = Some c)"
    if u: "fc_inflight s' u = Some c" for u c
    using table_invD(6) [OF assms(1) old [OF u]]
  proof (elim disjE exE conjE)
    fix j assume j: "fl_tag (fc_phase s j) = Some u" "fl_chan (fc_phase s j) = Some c"
    then have "j \<noteq> i" using u assms(7,8) by auto
    then show ?thesis using j ph by metis
  next
    fix j t' assume j: "fl_tag (fc_phase s j) = Some t'" "u = flushTagFor t'" "fl_fchan (fc_phase s j) = Some c"
    then have "j \<noteq> i" using u assms(7,9) by auto
    then show ?thesis using j ph by metis
  qed
  then show ?thesis
    by (rule table_shrink [OF assms(1,3), rotated 2]) (simp_all add: ph(1,2) split: if_splits)
qed

lemma table_grow:
  assumes "table_inv s" "fc_inflight s' = (fc_inflight s)(u \<mapsto> fc_fresh s)" "fc_fresh s' = Suc (fc_fresh s)"
    and "fc_phase s' = (fc_phase s)(i := p)" "fl_tag (fc_phase s i) = Some t" "fl_tag p = Some t"
    and "fl_chan (fc_phase s i) = None \<and> fl_fchan (fc_phase s i) = None \<and> fl_chan p = Some (fc_fresh s) \<and> fl_fchan p = None \<and> u = t
      \<or> fl_fchan (fc_phase s i) = None \<and> fl_chan p = fl_chan (fc_phase s i) \<and> fl_fchan p = Some (fc_fresh s) \<and> u = flushTagFor t"
  shows "table_inv s'"
proof -
  note D = table_invD [OF assms(1)]
  have j: "fc_phase s' j = (if j = i then p else fc_phase s j)" for j using assms(4) by simp
  have new: "fl_chan (fc_phase s j) = Some c \<Longrightarrow> c \<noteq> fc_fresh s" "fl_fchan (fc_phase s j) = Some c \<Longrightarrow> c \<noteq> fc_fresh s" for j c
    using D(1,2) by blast+
  have ch: "fl_chan (fc_phase s' j) = Some c \<Longrightarrow> fl_chan (fc_phase s j) = Some c \<or> c = fc_fresh s \<and> j = i \<and> u = t \<and> fl_fchan p = None"
    "fl_fchan (fc_phase s' j) = Some c \<Longrightarrow> fl_fchan (fc_phase s j) = Some c \<or> c = fc_fresh s \<and> j = i \<and> fl_chan p = fl_chan (fc_phase s i) \<and> u = flushTagFor t" for j c
    using assms(7) by (auto simp: j split: if_splits)
  have keep: "fl_chan (fc_phase s j) = Some c \<Longrightarrow> fl_chan (fc_phase s' j) = Some c"
    "fl_fchan (fc_phase s j) = Some c \<Longrightarrow> fl_fchan (fc_phase s' j) = Some c"
    "fl_tag (fc_phase s' j) = fl_tag (fc_phase s j)" for j c
    using assms(5-7) by (auto simp: j)
  show ?thesis
  proof (rule table_invI)
    show "c < fc_fresh s'" if "fl_chan (fc_phase s' j) = Some c" for j c using ch(1) [OF that] D(1) [of j c] assms(3) by auto
    show "c < fc_fresh s'" if "fl_fchan (fc_phase s' j) = Some c" for j c using ch(2) [OF that] D(2) [of j c] assms(3) by auto
    show "j = k" if "fl_chan (fc_phase s' j) = Some c" "fl_chan (fc_phase s' k) = Some c" for j k c
      using ch(1) [OF that(1)] ch(1) [OF that(2)] D(3) [of j c k] new(1) [of j c] new(1) [of k c] by auto
    show "j = k" if "fl_fchan (fc_phase s' j) = Some c" "fl_fchan (fc_phase s' k) = Some c" for j k c
      using ch(2) [OF that(1)] ch(2) [OF that(2)] D(4) [of j c k] new(2) [of j c] new(2) [of k c] by auto
    show "fl_fchan (fc_phase s' k) \<noteq> Some c" if "fl_chan (fc_phase s' j) = Some c" for j k c
      using ch(1) [OF that] ch(2) [of k c] D(5) [of j c k] new(1) [of j c] new(2) [of k c] j [of i] by auto
    show "(\<exists>j. fl_tag (fc_phase s' j) = Some v \<and> fl_chan (fc_phase s' j) = Some c)
      \<or> (\<exists>j t'. fl_tag (fc_phase s' j) = Some t' \<and> v = flushTagFor t' \<and> fl_fchan (fc_phase s' j) = Some c)"
      if "fc_inflight s' v = Some c" for v c
    proof (cases "v = u")
      case True
      then have "c = fc_fresh s" using that assms(2) by simp
      then show ?thesis using True assms(5-7) j [of i] by (auto simp: keep(3))
    next
      case False
      then show ?thesis using D(6) [of v c] that assms(2) keep by (metis fun_upd_other)
    qed
  qed
qed

lemma fl_table_simps [simp]:
  "fc_fresh (fl_goto i p s) = fc_fresh s" "fc_fresh (fl_shutdown s) = fc_fresh s" "fc_fresh (fl_retire t s) = fc_fresh s"
  "fc_fresh (fl_unregister t s) = fc_fresh s" "fc_fresh (fl_deliver t a s) = fc_fresh s"
  "fc_fresh (fl_register t s) = Suc (fc_fresh s)"
  "fc_inflight (fl_goto i p s) = fc_inflight s" "fc_inflight (fl_retire t s) = (fc_inflight s)(t := None)"
  "fc_inflight (fl_unregister t s) = (fc_inflight s)(t := None)" "fc_inflight (fl_deliver t a s) = fc_inflight s"
  "fc_inflight (fl_register t s) = (fc_inflight s)(t \<mapsto> fc_fresh s)"
  "fc_fresh (fl_cancelAll s) = fc_fresh s" "fc_inflight (fl_cancelAll s) = Map.empty"
  by (simp_all add: fl_defs split: option.split)

lemma shutdown_le: "fc_inflight (fl_shutdown s) \<subseteq>\<^sub>m fc_inflight s"
  by (simp add: fl_defs)

lemma unregister_le: "m \<subseteq>\<^sub>m m' \<Longrightarrow> m(t := None) \<subseteq>\<^sub>m m'"
  by (auto simp: map_le_def)

lemma table_retire:
  assumes "table_inv s" "fl_tag (fc_phase s i) = Some t" "fl_fchan (fc_phase s i) = None" "fl_chan p = None" "fl_fchan p = None"
    and "fc_phase s' = fc_phase s" "fc_fresh s' = fc_fresh s" "fc_inflight s' \<subseteq>\<^sub>m fc_inflight s"
  shows "table_inv (fl_goto i p (fl_retire t s'))" "table_inv (fl_goto i p (fl_unregister t s'))"
  using assms by (intro table_drop [OF assms(1), where i = i and p = p and t = t]; simp add: unregister_le)+

lemma table_flush_return:
  assumes "table_inv s" "fl_tag (fc_phase s i) = Some t"
    and "fc_phase s' = fc_phase s" "fc_fresh s' = fc_fresh s" "fc_inflight s' \<subseteq>\<^sub>m fc_inflight s"
  shows "table_inv (fl_flush_return i t r s')"
  unfolding fl_flush_return_def using assms
  by (intro table_drop [OF assms(1), where i = i and p = "Returned r" and t = t]) (simp_all add: unregister_le)

lemma step_table: "fl_step s s' \<Longrightarrow> table_inv s \<Longrightarrow> table_inv s'"
proof (induction rule: fl_step.induct)
  case (fl_register s i tag)
  then show ?case
    by (intro table_grow [OF fl_register.prems, where u = tag and t = tag and p = "Registered tag (fc_fresh s)" and i = i]) simp_all
next
  case (fl_cancel s i tag c)
  then show ?case
    by (intro table_grow [OF fl_cancel.prems, where u = "flushTagFor tag" and t = tag and p = "FlushRegistered tag c (fc_fresh s)" and i = i]) simp_all
next
  case (fl_acquire s i tag ta)
  then show ?case by - (erule table_same; auto)
qed ((erule table_flush_return | erule table_retire | erule table_same); simp add: shutdown_le)+

lemma mirror_tag:
  assumes "t \<in> tag_range n" "n \<le> maxMaxInflight"
  shows "flushTagFor t \<notin> tag_range n" "t' \<in> tag_range n \<Longrightarrow> flushTagFor t = flushTagFor t' \<Longrightarrow> t = t'"
proof -
  show "flushTagFor t \<notin> tag_range n"
  proof
    assume "flushTagFor t \<in> tag_range n"
    moreover have "flushTagFor t = t \<or> flushTagFor t \<noteq> t" by blast
    ultimately show False
      using tag_mirror_distinct [OF assms(2), of "[t, flushTagFor t]"] tag_mirror_distinct [OF assms(2), of "[t]"] assms(1) by auto
  qed
  show "t = t'" if "t' \<in> tag_range n" "flushTagFor t = flushTagFor t'"
    using tag_mirror_distinct [OF assms(2), of "[t, t']"] assms(1) that by (cases "t = t'") auto
qed

section \<open>Answers and their calls\<close>

definition fl_out :: "flushConn \<Rightarrow> (u16 \<times> answer) set" where
  "fl_out s = set (fc_owed s) \<union> set (fc_wire s)"

text \<open>The tag under which an answer to the call may still come.\<close>

primrec fl_due :: "call_phase \<Rightarrow> u16 option" where
  "fl_due Fresh = None" | "fl_due Begun = None" | "fl_due (Acquired t) = None" | "fl_due (Registered t c) = None"
| "fl_due (Waiting t c) = Some t" | "fl_due (FlushRegistered t c f) = Some t" | "fl_due (Flushing t c f) = Some t"
| "fl_due (Abandoned t) = Some t" | "fl_due (Returned r) = None"

text \<open>The number of frames the call has written.\<close>

primrec fl_frames :: "call_phase \<Rightarrow> nat" where
  "fl_frames Fresh = 0" | "fl_frames Begun = 0" | "fl_frames (Acquired t) = 0" | "fl_frames (Registered t c) = 0"
| "fl_frames (Waiting t c) = 1" | "fl_frames (FlushRegistered t c f) = 1" | "fl_frames (Flushing t c f) = 2"
| "fl_frames (Abandoned t) = 2" | "fl_frames (Returned r) = 2"

text \<open>The books: what is outstanding has been sent, once, and under its tag; an answered flush follows the answer
  of its request.\<close>

definition books_inv :: "nat \<Rightarrow> flushConn \<Rightarrow> bool" where
  "books_inv n s \<longleftrightarrow> distinct (map snd (fc_owed s @ fc_wire s))
     \<and> (\<forall>m i. (m, ReplyTo i) \<in> fl_out s \<longrightarrow> m \<in> tag_range n \<and> 1 \<le> fl_frames (fc_phase s i))
     \<and> (\<forall>m i. (m, FlushOf i) \<in> fl_out s \<longrightarrow>
         (\<exists>t \<in> tag_range n. m = flushTagFor t \<and> (t, i) \<in> set (fc_cancels s)) \<and> 2 \<le> fl_frames (fc_phase s i))
     \<and> (\<forall>i f t. fl_fchan (fc_phase s i) = Some f \<longrightarrow> fl_tag (fc_phase s i) = Some t \<longrightarrow> (t, i) \<in> set (fc_cancels s))
     \<and> (\<forall>xs m i ys. fc_wire s = xs @ (m, FlushOf i) # ys \<longrightarrow> ReplyTo i \<notin> snd ` (set (fc_owed s) \<union> set ys))
     \<and> (\<forall>c. fc_chclosed s c \<longrightarrow> fc_closed s)"

lemma books_invD:
  assumes "books_inv n s"
  shows "distinct (map snd (fc_owed s @ fc_wire s))" "(m, ReplyTo i) \<in> fl_out s \<Longrightarrow> m \<in> tag_range n"
    "(m, ReplyTo i) \<in> fl_out s \<Longrightarrow> 1 \<le> fl_frames (fc_phase s i)"
    "(m, FlushOf i) \<in> fl_out s \<Longrightarrow> \<exists>t \<in> tag_range n. m = flushTagFor t \<and> (t, i) \<in> set (fc_cancels s)"
    "(m, FlushOf i) \<in> fl_out s \<Longrightarrow> 2 \<le> fl_frames (fc_phase s i)"
    "fl_fchan (fc_phase s i) = Some f \<Longrightarrow> fl_tag (fc_phase s i) = Some t \<Longrightarrow> (t, i) \<in> set (fc_cancels s)"
    "fc_wire s = xs @ (m, FlushOf i) # ys \<Longrightarrow> ReplyTo i \<notin> snd ` (set (fc_owed s) \<union> set ys)"
    "fc_chclosed s c \<Longrightarrow> fc_closed s"
  using assms unfolding books_inv_def by blast+

lemma books_invI:
  assumes "distinct (map snd (fc_owed s @ fc_wire s))" "\<And>m i. (m, ReplyTo i) \<in> fl_out s \<Longrightarrow> m \<in> tag_range n"
    "\<And>m i. (m, ReplyTo i) \<in> fl_out s \<Longrightarrow> 1 \<le> fl_frames (fc_phase s i)"
    "\<And>m i. (m, FlushOf i) \<in> fl_out s \<Longrightarrow> \<exists>t \<in> tag_range n. m = flushTagFor t \<and> (t, i) \<in> set (fc_cancels s)"
    "\<And>m i. (m, FlushOf i) \<in> fl_out s \<Longrightarrow> 2 \<le> fl_frames (fc_phase s i)"
    "\<And>i f t. fl_fchan (fc_phase s i) = Some f \<Longrightarrow> fl_tag (fc_phase s i) = Some t \<Longrightarrow> (t, i) \<in> set (fc_cancels s)"
    "\<And>xs m i ys. fc_wire s = xs @ (m, FlushOf i) # ys \<Longrightarrow> ReplyTo i \<notin> snd ` (set (fc_owed s) \<union> set ys)"
    "\<And>c. fc_chclosed s c \<Longrightarrow> fc_closed s"
  shows "books_inv n s"
  using assms unfolding books_inv_def by blast

text \<open>Phases that do not go back.\<close>

lemma books_goto:
  assumes inv: "books_inv n s" and same: "fc_owed s' = fc_owed s" "fc_wire s' = fc_wire s"
    and ph: "fc_phase s' = (fc_phase s)(i := p)" "fl_frames (fc_phase s i) \<le> fl_frames p"
    and can: "set (fc_cancels s) \<subseteq> set (fc_cancels s')" "\<And>f t. fl_fchan p = Some f \<Longrightarrow> fl_tag p = Some t \<Longrightarrow> (t, i) \<in> set (fc_cancels s')"
    and clo: "fc_closed s' \<or> (\<forall>c. fc_chclosed s' c \<longrightarrow> fc_chclosed s c) \<and> fc_closed s' = fc_closed s"
  shows "books_inv n s'"
proof (rule books_invI)
  have out: "fl_out s' = fl_out s" by (simp add: fl_out_def same)
  have fr: "fl_frames (fc_phase s j) \<le> fl_frames (fc_phase s' j)" for j using ph by simp
  show "distinct (map snd (fc_owed s' @ fc_wire s'))" using books_invD(1) [OF inv] by (simp add: same)
  show "m \<in> tag_range n" "1 \<le> fl_frames (fc_phase s' j)" if "(m, ReplyTo j) \<in> fl_out s'" for m j
    using books_invD(2,3) [OF inv that [unfolded out]] fr [of j] by auto
  show "\<exists>t \<in> tag_range n. m = flushTagFor t \<and> (t, j) \<in> set (fc_cancels s')" "2 \<le> fl_frames (fc_phase s' j)"
    if "(m, FlushOf j) \<in> fl_out s'" for m j
    using books_invD(4,5) [OF inv that [unfolded out]] can(1) fr [of j] by (blast, simp)
  show "(t, j) \<in> set (fc_cancels s')" if "fl_fchan (fc_phase s' j) = Some f" "fl_tag (fc_phase s' j) = Some t" for j f t
    using that can ph(1) books_invD(6) [OF inv, of j f t] by (cases "j = i") auto
  show "ReplyTo j \<notin> snd ` (set (fc_owed s') \<union> set ys)" if "fc_wire s' = xs @ (m, FlushOf j) # ys" for xs m j ys
    using books_invD(7) [OF inv that [unfolded same(2)]] by (simp add: same)
  show "fc_closed s'" if "fc_chclosed s' c" for c using that clo books_invD(8) [OF inv, of c] by blast
qed

lemma wire_last:
  assumes "xs @ x # ys = w @ [y]"
  shows "(ys = [] \<and> x = y \<and> xs = w) \<or> (\<exists>zs. ys = zs @ [y] \<and> w = xs @ x # zs)"
  using assms by (cases ys rule: rev_cases) auto

lemma fl_books_simps [simp]:
  "fc_owed (fl_goto i p s) = fc_owed s" "fc_owed (fl_shutdown s) = fc_owed s" "fc_owed (fl_retire t s) = fc_owed s"
  "fc_owed (fl_unregister t s) = fc_owed s" "fc_owed (fl_deliver t a s) = fc_owed s" "fc_owed (fl_register t s) = fc_owed s"
  "fc_wire (fl_goto i p s) = fc_wire s" "fc_wire (fl_shutdown s) = fc_wire s" "fc_wire (fl_retire t s) = fc_wire s"
  "fc_wire (fl_unregister t s) = fc_wire s" "fc_wire (fl_deliver t a s) = fc_wire s" "fc_wire (fl_register t s) = fc_wire s"
  "fc_cancels (fl_goto i p s) = fc_cancels s" "fc_cancels (fl_shutdown s) = fc_cancels s" "fc_cancels (fl_retire t s) = fc_cancels s"
  "fc_cancels (fl_unregister t s) = fc_cancels s" "fc_cancels (fl_deliver t a s) = fc_cancels s" "fc_cancels (fl_register t s) = fc_cancels s"
  "fc_chclosed (fl_goto i p s) = fc_chclosed s" "fc_chclosed (fl_retire t s) = fc_chclosed s"
  "fc_chclosed (fl_unregister t s) = fc_chclosed s" "fc_chclosed (fl_deliver t a s) = fc_chclosed s"
  "fc_chclosed (fl_register t s) = (fc_chclosed s)(fc_fresh s := False)"
  "fc_closed (fl_goto i p s) = fc_closed s" "fc_closed (fl_retire t s) = fc_closed s" "fc_closed (fl_shutdown s)"
  "fc_closed (fl_unregister t s) = fc_closed s" "fc_closed (fl_deliver t a s) = fc_closed s" "fc_closed (fl_register t s) = fc_closed s"
  "fc_buf (fl_goto i p s) = fc_buf s" "fc_buf (fl_shutdown s) = fc_buf s" "fc_buf (fl_retire t s) = fc_buf s"
  "fc_owed (fl_cancelAll s) = fc_owed s" "fc_wire (fl_cancelAll s) = fc_wire s" "fc_cancels (fl_cancelAll s) = fc_cancels s"
  "fc_closed (fl_cancelAll s) = fc_closed s" "fc_buf (fl_cancelAll s) = fc_buf s"
  "fc_buf (fl_unregister t s) = fc_buf s" "fc_buf (fl_register t s) = (fc_buf s)(fc_fresh s := None)"
  by (simp_all add: fl_defs split: option.split)

text \<open>A new request.\<close>

lemma books_sent:
  assumes inv: "books_inv n s" and owed: "fc_owed s' = fc_owed s @ [(m, a)]" and wire: "fc_wire s' = fc_wire s"
    and ph: "fc_phase s' = (fc_phase s)(i := p)" "fl_frames (fc_phase s i) < fl_frames p"
    and can: "fc_cancels s' = fc_cancels s" "fl_fchan p = fl_fchan (fc_phase s i)" "fl_tag p = fl_tag (fc_phase s i)"
    and clo: "\<And>c. fc_chclosed s' c \<Longrightarrow> fc_closed s'"
    and a: "a = ReplyTo i \<and> m \<in> tag_range n \<and> fl_frames p = 1
      \<or> a = FlushOf i \<and> (\<exists>t \<in> tag_range n. m = flushTagFor t \<and> (t, i) \<in> set (fc_cancels s)) \<and> fl_frames p = 2"
  shows "books_inv n s'"
proof (rule books_invI)
  have out: "fl_out s' = insert (m, a) (fl_out s)" by (auto simp: fl_out_def owed wire)
  have fr: "fl_frames (fc_phase s j) \<le> fl_frames (fc_phase s' j)" for j using ph by simp
  have p: "fc_phase s' i = p" by (simp add: ph)
  have new: "(u, a) \<notin> fl_out s" for u
    using a books_invD(3,5) [OF inv, of u i] ph(2) by auto
  then have new': "a \<notin> snd ` set (fc_owed s)" "a \<notin> snd ` set (fc_wire s)" by (auto simp: fl_out_def)
  then show "distinct (map snd (fc_owed s' @ fc_wire s'))" using books_invD(1) [OF inv] by (auto simp: owed wire)
  show "u \<in> tag_range n" "1 \<le> fl_frames (fc_phase s' j)" if "(u, ReplyTo j) \<in> fl_out s'" for u j
    using that a books_invD(2,3) [OF inv, of u j] fr [of j] p by (auto simp: out)
  show "\<exists>t \<in> tag_range n. u = flushTagFor t \<and> (t, j) \<in> set (fc_cancels s')" "2 \<le> fl_frames (fc_phase s' j)"
    if "(u, FlushOf j) \<in> fl_out s'" for u j
    using that a books_invD(4,5) [OF inv, of u j] fr [of j] p by (auto simp: out can(1))
  show "(t, j) \<in> set (fc_cancels s')" if "fl_fchan (fc_phase s' j) = Some f" "fl_tag (fc_phase s' j) = Some t" for j f t
    using that can ph(1) books_invD(6) [OF inv, of j f t] by (cases "j = i") auto
  show "ReplyTo j \<notin> snd ` (set (fc_owed s') \<union> set ys)" if w: "fc_wire s' = xs @ (u, FlushOf j) # ys" for xs u j ys
  proof -
    have "(u, FlushOf j) \<in> fl_out s" using w wire by (simp add: fl_out_def)
    then have "a \<noteq> ReplyTo j" using a books_invD(5) [OF inv, of u j] ph(2) by auto
    then show ?thesis using books_invD(7) [OF inv w [unfolded wire]] by (auto simp: owed)
  qed
qed (rule clo)

text \<open>An answer moves to the wire; a flush takes the answers that will not come with it.\<close>

lemma books_answered:
  assumes inv: "books_inv n s" and owed: "fc_owed s = xs @ (m, a) # ys" and owed': "fc_owed s' = filter P (xs @ ys)"
    and wire: "fc_wire s' = fc_wire s @ [(m, a)]"
    and fl: "\<And>i. a = FlushOf i \<Longrightarrow> ReplyTo i \<notin> snd ` set (fc_owed s')"
    and same: "fc_phase s' = fc_phase s" "fc_cancels s' = fc_cancels s" "fc_chclosed s' = fc_chclosed s" "fc_closed s' = fc_closed s"
  shows "books_inv n s'"
proof (rule books_invI)
  have out: "fl_out s' \<subseteq> fl_out s" by (auto simp: fl_out_def owed owed' wire)
  have sub: "set (fc_owed s') \<subseteq> set (fc_owed s)" by (auto simp: owed owed')
  note d = books_invD(1) [OF inv]
  have "distinct (map snd (filter P (xs @ ys)))" using d by (intro distinct_map_filter) (auto simp: owed)
  moreover have "snd ` set (filter P (xs @ ys)) \<inter> snd ` set (fc_wire s) = {}" "a \<notin> snd ` set (filter P (xs @ ys))"
    "a \<notin> snd ` set (fc_wire s)" "distinct (map snd (fc_wire s))" using d by (auto simp: owed)
  ultimately show "distinct (map snd (fc_owed s' @ fc_wire s'))" unfolding owed' wire by auto
  show "u \<in> tag_range n" "1 \<le> fl_frames (fc_phase s' j)" if "(u, ReplyTo j) \<in> fl_out s'" for u j
    using that out books_invD(2,3) [OF inv, of u j] by (auto simp: same)
  show "\<exists>t \<in> tag_range n. u = flushTagFor t \<and> (t, j) \<in> set (fc_cancels s')" "2 \<le> fl_frames (fc_phase s' j)"
    if "(u, FlushOf j) \<in> fl_out s'" for u j
    using that out books_invD(4,5) [OF inv, of u j] by (auto simp: same)
  show "(t, j) \<in> set (fc_cancels s')" if "fl_fchan (fc_phase s' j) = Some f" "fl_tag (fc_phase s' j) = Some t" for j f t
    using that books_invD(6) [OF inv, of j f t] by (simp add: same)
  show "fc_closed s'" if "fc_chclosed s' c" for c using that books_invD(8) [OF inv, of c] by (simp add: same)
  show "ReplyTo j \<notin> snd ` (set (fc_owed s') \<union> set zs)" if w: "fc_wire s' = ws @ (u, FlushOf j) # zs" for ws u j zs
    using wire_last [OF w [unfolded wire, symmetric]]
  proof (elim disjE exE conjE)
    assume "zs = []" "(u, FlushOf j) = (m, a)"
    then show ?thesis using fl [of j] by simp
  next
    fix vs assume v: "zs = vs @ [(m, a)]" "fc_wire s = ws @ (u, FlushOf j) # vs"
    have "a \<in> snd ` set (fc_owed s)" "snd ` set (fc_owed s') \<subseteq> snd ` set (fc_owed s)" using sub by (simp add: owed, blast)
    then show ?thesis using books_invD(7) [OF inv v(2)] by (auto simp: v(1) image_Un)
  qed
qed

lemma books_delivered:
  assumes inv: "books_inv n s" and wire: "fc_wire s = x # fc_wire s'"
    and same: "fc_owed s' = fc_owed s" "fc_phase s' = fc_phase s" "fc_cancels s' = fc_cancels s" "fc_chclosed s' = fc_chclosed s" "fc_closed s' = fc_closed s"
  shows "books_inv n s'"
proof (rule books_invI)
  have out: "fl_out s' \<subseteq> fl_out s" by (auto simp: fl_out_def wire same)
  show "distinct (map snd (fc_owed s' @ fc_wire s'))" using books_invD(1) [OF inv] by (simp add: wire same)
  show "u \<in> tag_range n" "1 \<le> fl_frames (fc_phase s' j)" if "(u, ReplyTo j) \<in> fl_out s'" for u j
    using that out books_invD(2,3) [OF inv, of u j] by (auto simp: same)
  show "\<exists>t \<in> tag_range n. u = flushTagFor t \<and> (t, j) \<in> set (fc_cancels s')" "2 \<le> fl_frames (fc_phase s' j)"
    if "(u, FlushOf j) \<in> fl_out s'" for u j
    using that out books_invD(4,5) [OF inv, of u j] by (auto simp: same)
  show "(t, j) \<in> set (fc_cancels s')" if "fl_fchan (fc_phase s' j) = Some f" "fl_tag (fc_phase s' j) = Some t" for j f t
    using that books_invD(6) [OF inv, of j f t] by (simp add: same)
  show "fc_closed s'" if "fc_chclosed s' c" for c using that books_invD(8) [OF inv, of c] by (simp add: same)
  show "ReplyTo j \<notin> snd ` (set (fc_owed s') \<union> set zs)" if w: "fc_wire s' = ws @ (u, FlushOf j) # zs" for ws u j zs
    using books_invD(7) [OF inv, of "x # ws" u j zs] w by (simp add: wire same)
qed

lemma books_move:
  assumes "books_inv n s" "fc_owed s' = fc_owed s" "fc_wire s' = fc_wire s" "fc_phase s' = fc_phase s" "fl_frames (fc_phase s i) \<le> fl_frames p"
    "set (fc_cancels s) \<subseteq> set (fc_cancels s')" "\<And>f t. fl_fchan p = Some f \<Longrightarrow> fl_tag p = Some t \<Longrightarrow> (t, i) \<in> set (fc_cancels s')"
    "fc_closed s' \<or> (\<forall>c. fc_chclosed s' c \<longrightarrow> fc_chclosed s c) \<and> fc_closed s' = fc_closed s"
  shows "books_inv n (fl_goto i p s')"
  by (rule books_goto [OF assms(1), where i = i and p = p]) (use assms in auto)

lemma books_flush_return:
  assumes "books_inv n s" "fc_owed s' = fc_owed s" "fc_wire s' = fc_wire s" "fc_phase s' = fc_phase s" "fl_frames (fc_phase s i) \<le> 2"
    "fc_cancels s' = fc_cancels s" "fc_closed s' \<or> (\<forall>c. fc_chclosed s' c \<longrightarrow> fc_chclosed s c) \<and> fc_closed s' = fc_closed s"
  shows "books_inv n (fl_flush_return i t r s')"
  unfolding fl_flush_return_def by (rule books_move [OF assms(1)]) (use assms in auto)

lemma frames_le [simp]: "fl_frames p \<le> 2"
  by (cases p) simp_all

lemma books_step:
  assumes "fl_step s s'" "tags_inv n s" "books_inv n s"
  shows "books_inv n s'"
  using assms
proof (induction rule: fl_step.induct)
  case (fl_send s i tag c)
  show ?case
    by (rule books_sent [OF fl_send.prems(2), where i = i and p = "Waiting tag c" and m = tag and a = "ReplyTo i"])
      (use fl_send tags_invD(2) [OF fl_send.prems(1), of i tag] books_invD(8) [OF fl_send.prems(2)] in auto)
next
  case (fl_flush_send s i tag c f)
  show ?case
    by (rule books_sent [OF fl_flush_send.prems(2), where i = i and p = "Flushing tag c f" and m = "flushTagFor tag" and a = "FlushOf i"])
      (use fl_flush_send tags_invD(2) [OF fl_flush_send.prems(1), of i tag] books_invD(6,8) [OF fl_flush_send.prems(2)] in auto)
next
  case (fl_answer s xs tag i ys)
  show ?case by (rule books_answered [OF fl_answer.prems(2) fl_answer.hyps, where P = "\<lambda>_. True"]) simp_all
next
  case (fl_answer_flush s xs tag i ys)
  show ?case by (rule books_answered [OF fl_answer_flush.prems(2) fl_answer_flush.hyps]) auto
next
  case (fl_delivered s tag a w)
  show ?case by (rule books_delivered [OF fl_delivered.prems(2)]) (simp_all add: fl_delivered.hyps)
next
  case (fl_close s)
  show ?case by (rule books_goto [OF fl_close.prems(2), where i = 0 and p = "fc_phase s 0"])
      (use fl_close.hyps books_invD(6) [OF fl_close.prems(2), of 0] in auto)
next
  case (fl_sweep s)
  show ?case by (rule books_goto [OF fl_sweep.prems(2), where i = 0 and p = "fc_phase s 0"])
      (use fl_sweep.hyps books_invD(6) [OF fl_sweep.prems(2), of 0] in auto)
qed ((erule books_flush_return | erule books_move); force split: if_splits)+

text \<open>The match: an outstanding reply belongs to the call that holds its tag, and what is in a channel was
  meant for it.\<close>

definition fl_owes :: "flushConn \<Rightarrow> nat \<Rightarrow> bool" where
  "fl_owes s i \<longleftrightarrow> (\<exists>m. (m, ReplyTo i) \<in> fl_out s)"

definition match_inv :: "flushConn \<Rightarrow> bool" where
  "match_inv s \<longleftrightarrow>
     (\<forall>m i. \<not> fc_closed s \<longrightarrow> (m, ReplyTo i) \<in> fl_out s \<longrightarrow> fl_due (fc_phase s i) = Some m)
     \<and> (\<forall>t i j. fl_sent (fc_phase s j) \<longrightarrow> fl_tag (fc_phase s j) = Some t \<longrightarrow> (t, ReplyTo i) \<in> fl_out s \<longrightarrow> i = j)
     \<and> (\<forall>i c a. fl_sent (fc_phase s i) \<longrightarrow> fl_chan (fc_phase s i) = Some c \<longrightarrow> fc_buf s c = Some a \<longrightarrow>
         a = ReplyTo i \<and> \<not> fl_owes s i)
     \<and> (\<forall>i t c. \<not> fc_closed s \<longrightarrow> fc_phase s i = Registered t c \<longrightarrow> fc_buf s c = None)
     \<and> (\<forall>i f a. fl_fchan (fc_phase s i) = Some f \<longrightarrow> fc_buf s f = Some a \<longrightarrow> a = FlushOf i \<and> \<not> fl_owes s i)
     \<and> (\<forall>i a. fc_phase s i = Returned (Got a) \<longrightarrow> a = ReplyTo i)"

lemma match_invD:
  assumes "match_inv s"
  shows "\<not> fc_closed s \<Longrightarrow> (m, ReplyTo i) \<in> fl_out s \<Longrightarrow> fl_due (fc_phase s i) = Some m"
    "fl_sent (fc_phase s j) \<Longrightarrow> fl_tag (fc_phase s j) = Some t \<Longrightarrow> (t, ReplyTo i) \<in> fl_out s \<Longrightarrow> i = j"
    "fl_sent (fc_phase s i) \<Longrightarrow> fl_chan (fc_phase s i) = Some c \<Longrightarrow> fc_buf s c = Some a \<Longrightarrow> a = ReplyTo i"
    "fl_sent (fc_phase s i) \<Longrightarrow> fl_chan (fc_phase s i) = Some c \<Longrightarrow> fc_buf s c = Some a \<Longrightarrow> \<not> fl_owes s i"
    "\<not> fc_closed s \<Longrightarrow> fc_phase s i = Registered t c \<Longrightarrow> fc_buf s c = None"
    "fl_fchan (fc_phase s i) = Some f \<Longrightarrow> fc_buf s f = Some a \<Longrightarrow> a = FlushOf i"
    "fl_fchan (fc_phase s i) = Some f \<Longrightarrow> fc_buf s f = Some a \<Longrightarrow> \<not> fl_owes s i"
    "fc_phase s i = Returned (Got a) \<Longrightarrow> a = ReplyTo i"
  using assms unfolding match_inv_def by blast+

lemma match_invI:
  assumes "\<And>m i. \<not> fc_closed s \<Longrightarrow> (m, ReplyTo i) \<in> fl_out s \<Longrightarrow> fl_due (fc_phase s i) = Some m"
    "\<And>t i j. fl_sent (fc_phase s j) \<Longrightarrow> fl_tag (fc_phase s j) = Some t \<Longrightarrow> (t, ReplyTo i) \<in> fl_out s \<Longrightarrow> i = j"
    "\<And>i c a. fl_sent (fc_phase s i) \<Longrightarrow> fl_chan (fc_phase s i) = Some c \<Longrightarrow> fc_buf s c = Some a \<Longrightarrow> a = ReplyTo i \<and> \<not> fl_owes s i"
    "\<And>i t c. \<not> fc_closed s \<Longrightarrow> fc_phase s i = Registered t c \<Longrightarrow> fc_buf s c = None"
    "\<And>i f a. fl_fchan (fc_phase s i) = Some f \<Longrightarrow> fc_buf s f = Some a \<Longrightarrow> a = FlushOf i \<and> \<not> fl_owes s i"
    "\<And>i a. fc_phase s i = Returned (Got a) \<Longrightarrow> a = ReplyTo i"
  shows "match_inv s"
  using assms unfolding match_inv_def by blast

lemma match_goto:
  assumes inv: "match_inv s" "table_inv s" and ph: "fc_phase s' = (fc_phase s)(i := p)"
    and out: "\<And>m j. (m, ReplyTo j) \<in> fl_out s' \<Longrightarrow> (m, ReplyTo j) \<in> fl_out s"
    and buf: "\<And>c. c < fc_fresh s \<Longrightarrow> fc_buf s' c = fc_buf s c" and clo: "fc_closed s \<Longrightarrow> fc_closed s'"
    and due: "fc_closed s' \<or> fl_due p = fl_due (fc_phase s i) \<or> \<not> fl_owes s i"
    and sent: "fl_sent p \<Longrightarrow> fl_sent (fc_phase s i) \<and> fl_tag p = fl_tag (fc_phase s i) \<and> fl_chan p = fl_chan (fc_phase s i)"
    and fch: "\<And>f. fl_fchan p = Some f \<Longrightarrow> fl_fchan (fc_phase s i) = Some f \<or> fc_buf s' f = None"
    and reg: "\<And>t c. p = Registered t c \<Longrightarrow> p = fc_phase s i \<or> fc_buf s' c = None"
    and got: "\<And>a. p = Returned (Got a) \<Longrightarrow> a = ReplyTo i"
  shows "match_inv s'"
proof (rule match_invI)
  note D = match_invD [OF inv(1)] and T = table_invD [OF inv(2)]
  have owes: "fl_owes s' j \<Longrightarrow> fl_owes s j" for j using out by (auto simp: fl_owes_def)
  have S: "fl_sent (fc_phase s j)" "fl_tag (fc_phase s' j) = fl_tag (fc_phase s j)" "fl_chan (fc_phase s' j) = fl_chan (fc_phase s j)"
    if "fl_sent (fc_phase s' j)" for j using that sent by (auto simp: ph split: if_splits)
  show "fl_due (fc_phase s' j) = Some m" if "\<not> fc_closed s'" "(m, ReplyTo j) \<in> fl_out s'" for m j
  proof -
    have "\<not> fc_closed s" "fl_owes s j" using that clo out by (auto simp: fl_owes_def)
    then show ?thesis using D(1) [OF _ out [OF that(2)]] that(1) due by (auto simp: ph)
  qed
  show "k = j" if "fl_sent (fc_phase s' j)" "fl_tag (fc_phase s' j) = Some t" "(t, ReplyTo k) \<in> fl_out s'" for t j k
    using D(2) [OF S(1) [OF that(1)] _ out [OF that(3)]] that(2) S(2) [OF that(1)] by simp
  show "a = ReplyTo j \<and> \<not> fl_owes s' j" if h: "fl_sent (fc_phase s' j)" "fl_chan (fc_phase s' j) = Some c" "fc_buf s' c = Some a" for j c a
  proof -
    have c: "fl_chan (fc_phase s j) = Some c" using h(2) S(3) [OF h(1)] by simp
    then have "fc_buf s c = Some a" using h(3) buf [OF T(1) [OF c]] by simp
    then show ?thesis using D(3,4) [OF S(1) [OF h(1)] c] owes by blast
  qed
  show "fc_buf s' c = None" if "\<not> fc_closed s'" "fc_phase s' j = Registered t c" for j t c
  proof (cases "fc_phase s j = Registered t c")
    case True
    have "\<not> fc_closed s" using that(1) clo by blast
    then show ?thesis using D(5) [OF _ True] True buf [OF T(1) [of j c]] by simp
  qed (use that reg [of t c] ph in \<open>auto split: if_splits\<close>)
  show "a = FlushOf j \<and> \<not> fl_owes s' j" if h: "fl_fchan (fc_phase s' j) = Some f" "fc_buf s' f = Some a" for j f a
  proof -
    have f: "fl_fchan (fc_phase s j) = Some f" using h fch [of f] by (auto simp: ph split: if_splits)
    then have "fc_buf s f = Some a" using h(2) buf [OF T(2) [OF f]] by simp
    then show ?thesis using D(6,7) [OF f] owes by blast
  qed
  show "a = ReplyTo j" if "fc_phase s' j = Returned (Got a)" for j a
    using that got D(8) [of j a] by (auto simp: ph split: if_splits)
qed

lemma due_tag: "fl_due p = Some t \<Longrightarrow> fl_tag p = Some t"
  by (cases p) simp_all

lemma match_sent:
  assumes inv: "match_inv s" "table_inv s" "tags_inv n s" "books_inv n s"
    and i: "fc_phase s i = Registered t c" and op: "\<not> fc_closed s"
    and ph: "fc_phase s' = (fc_phase s)(i := Waiting t c)" and owed: "fc_owed s' = fc_owed s @ [(t, ReplyTo i)]"
    and same: "fc_wire s' = fc_wire s" "fc_buf s' = fc_buf s"
  shows "match_inv s'"
proof (rule match_invI)
  note D = match_invD [OF inv(1)] and T = tags_invD [OF inv(3)]
  have out: "fl_out s' = insert (t, ReplyTo i) (fl_out s)" by (auto simp: fl_out_def owed same)
  have none: "(m, ReplyTo i) \<notin> fl_out s" for m using books_invD(3) [OF inv(4), of m i] i by auto
  have stale: "(t, ReplyTo j) \<notin> fl_out s" for j
    using due_tag [OF D(1) [OF op, of t j]] T(4) [of j t i] i none by auto
  have owes: "fl_owes s' j \<Longrightarrow> j = i \<or> fl_owes s j" for j by (auto simp: fl_owes_def out)
  have buf: "fc_buf s c = None" by (rule D(5) [OF op i])
  show "fl_due (fc_phase s' j) = Some m" if "\<not> fc_closed s'" "(m, ReplyTo j) \<in> fl_out s'" for m j
    using that D(1) [OF op, of m j] none by (auto simp: out ph)
  show "k = j" if h: "fl_sent (fc_phase s' j)" "fl_tag (fc_phase s' j) = Some u" "(u, ReplyTo k) \<in> fl_out s'" for u j k
  proof (cases "j = i")
    case True
    then show ?thesis using h(2,3) stale by (auto simp: ph out)
  next
    case False
    then have "u \<noteq> t" using h(2) T(4) [of j t i] i by (auto simp: ph)
    then show ?thesis using False h D(2) [of j u k] by (auto simp: ph out)
  qed
  show "a = ReplyTo j \<and> \<not> fl_owes s' j" if "fl_sent (fc_phase s' j)" "fl_chan (fc_phase s' j) = Some d" "fc_buf s' d = Some a" for j d a
    using that D(3,4) [of j d a] owes [of j] buf by (cases "j = i") (auto simp: ph same)
  show "fc_buf s' d = None" if "\<not> fc_closed s'" "fc_phase s' j = Registered u d" for j u d
    using that D(5) [OF op, of j u d] by (auto simp: ph same split: if_splits)
  show "a = FlushOf j \<and> \<not> fl_owes s' j" if "fl_fchan (fc_phase s' j) = Some f" "fc_buf s' f = Some a" for j f a
    using that D(6,7) [of j f a] owes [of j] by (cases "j = i") (auto simp: ph same)
  show "a = ReplyTo j" if "fc_phase s' j = Returned (Got a)" for j a
    using that D(8) [of j a] by (auto simp: ph split: if_splits)
qed

text \<open>Whose channel a delivered frame reaches.\<close>

lemma delivered_to:
  assumes inv: "match_inv s" "table_inv s" "tags_inv n s" "books_inv n s" and n: "n \<le> maxMaxInflight"
    and once: "distinct (map fst (fc_cancels s))" and m: "(m, a) \<in> fl_out s" "fc_inflight s m = Some c"
  shows "fl_sent (fc_phase s j) \<Longrightarrow> fl_chan (fc_phase s j) = Some c \<Longrightarrow> a = ReplyTo j"
    "fl_fchan (fc_phase s j) = Some c \<Longrightarrow> a = FlushOf j"
    "\<not> fc_closed s \<Longrightarrow> fc_phase s j \<noteq> Registered t c"
proof -
  note T = table_invD [OF inv(2)] and G = tags_invD [OF inv(3)] and B = books_invD [OF inv(4)] and D = match_invD [OF inv(1)]
  have own: "\<exists>k. a = ReplyTo k" if "fl_chan (fc_phase s j) = Some c" for j
  proof -
    have "m \<in> tag_range n" using T(6) [OF m(2)] T(5) [OF that] G(2) by blast
    then show ?thesis using B(4) [of m] m(1) mirror_tag(1) [OF _ n] by (cases a) blast+
  qed
  have tag: "fl_tag (fc_phase s j) = Some m" if "fl_chan (fc_phase s j) = Some c" for j
    using T(6) [OF m(2)] T(3,5) [OF that] by blast
  show "a = ReplyTo j" if h: "fl_sent (fc_phase s j)" "fl_chan (fc_phase s j) = Some c"
    using own [OF h(2)] D(2) [OF h(1) tag [OF h(2)]] m(1) by blast
  show "fc_phase s j \<noteq> Registered t c" if "\<not> fc_closed s"
  proof
    assume r: "fc_phase s j = Registered t c"
    then have c: "fl_chan (fc_phase s j) = Some c" by simp
    obtain k where k: "a = ReplyTo k" using own [OF c] by blast
    have "fl_due (fc_phase s k) = Some m" using D(1) [OF that] m(1) k by blast
    then show False using G(4) [OF due_tag tag [OF c]] r by force
  qed
  show "a = FlushOf j" if f: "fl_fchan (fc_phase s j) = Some c"
  proof -
    obtain t where t: "fl_tag (fc_phase s j) = Some t" "m = flushTagFor t" using T(6) [OF m(2)] T(4) [OF f] T(5) f by blast
    have "m \<notin> tag_range n" using mirror_tag(1) [OF G(2) [OF t(1)] n] t(2) by simp
    then obtain k where k: "a = FlushOf k" using B(2) m(1) by (cases a) blast+
    then obtain u where u: "u \<in> tag_range n" "m = flushTagFor u" "(u, k) \<in> set (fc_cancels s)" using B(4) m(1) by blast
    have "u = t" using mirror_tag(2) [OF u(1) n G(2) [OF t(1)]] u(2) t(2) by simp
    then have "k = j" using u(3) B(6) [OF f t(1)] eq_key_imp_eq_value [OF once] by blast
    then show ?thesis using k by simp
  qed
qed

lemma match_delivered:
  assumes inv: "match_inv s" "table_inv s" "tags_inv n s" "books_inv n s" and n: "n \<le> maxMaxInflight"
    and once: "distinct (map fst (fc_cancels s))" and wire: "fc_wire s = (m, a) # w"
  shows "match_inv (fl_deliver m a (s\<lparr>fc_wire := w\<rparr>))" (is "match_inv ?s")
proof (cases "\<exists>c. fc_inflight s m = Some c \<and> fc_buf s c = None")
  case False
  then have "?s = s\<lparr>fc_wire := w\<rparr>" by (auto simp: fl_deliver_def split: option.split)
  then show ?thesis
    using match_goto [OF inv(1,2), of "s\<lparr>fc_wire := w\<rparr>" 0 "fc_phase s 0"] match_invD(8) [OF inv(1), of 0] wire
    by (simp add: fl_out_def)
next
  case True
  then obtain c where c: "fc_inflight s m = Some c" "fc_buf s c = None" by blast
  have head: "(m, a) \<in> fl_out s" by (simp add: fl_out_def wire)
  note to = delivered_to [OF inv n once head c(1)] and D = match_invD [OF inv(1)]
  have s: "?s = s\<lparr>fc_wire := w, fc_buf := (fc_buf s)(c \<mapsto> a)\<rparr>" using c by (simp add: fl_deliver_def)
  have buf: "fc_buf ?s d = (if d = c then Some a else fc_buf s d)" for d by (simp add: s)
  have out: "fl_out ?s \<subseteq> fl_out s" by (auto simp: s fl_out_def wire)
  then have owes: "fl_owes ?s j \<Longrightarrow> fl_owes s j" for j by (auto simp: fl_owes_def)
  have gone: "\<not> fl_owes ?s j" if "a = ReplyTo j \<or> a = FlushOf j" for j
  proof -
    have "ReplyTo j \<notin> snd ` (set (fc_owed s) \<union> set w)"
      using that books_invD(1) [OF inv(4)] books_invD(7) [OF inv(4), of "[]" m j w] wire by auto
    then show ?thesis by (force simp: s fl_owes_def fl_out_def)
  qed
  show ?thesis
  proof (rule match_invI)
    show "fl_due (fc_phase ?s j) = Some u" if "\<not> fc_closed ?s" "(u, ReplyTo j) \<in> fl_out ?s" for u j
      using that D(1) [of u j] out by auto
    show "k = j" if "fl_sent (fc_phase ?s j)" "fl_tag (fc_phase ?s j) = Some u" "(u, ReplyTo k) \<in> fl_out ?s" for u j k
      using that D(2) [of j u k] out by auto
    show "b = ReplyTo j \<and> \<not> fl_owes ?s j" if "fl_sent (fc_phase ?s j)" "fl_chan (fc_phase ?s j) = Some d" "fc_buf ?s d = Some b" for j d b
      using that(1,2) that(3) [unfolded buf] D(3,4) [of j d b] to(1) [of j] gone [of j] owes [of j] by (cases "d = c") auto
    show "fc_buf ?s d = None" if "\<not> fc_closed ?s" "fc_phase ?s j = Registered u d" for j u d
      using that D(5) [of j u d] to(3) [of j u] by (auto simp: s)
    show "b = FlushOf j \<and> \<not> fl_owes ?s j" if "fl_fchan (fc_phase ?s j) = Some f" "fc_buf ?s f = Some b" for j f b
      using that(1) that(2) [unfolded buf] D(6,7) [of j f b] to(2) [of j] gone [of j] owes [of j] by (cases "f = c") auto
    show "b = ReplyTo j" if "fc_phase ?s j = Returned (Got b)" for j b
      using that D(8) [of j b] by simp
  qed
qed

lemma owes_out: "fc_owed s' = fc_owed s \<Longrightarrow> fc_wire s' = fc_wire s \<Longrightarrow> fl_out s' = fl_out s"
  by (simp add: fl_out_def)

lemma unsent_owes: "books_inv n s \<Longrightarrow> fl_frames (fc_phase s i) = 0 \<Longrightarrow> \<not> fl_owes s i"
  using books_invD(3) by (fastforce simp: fl_owes_def)

text \<open>A caller leaves, or moves on before its request is sent.\<close>

lemma match_leave:
  assumes inv: "match_inv s" "table_inv s" "books_inv n s" and ph: "fc_phase s' = fc_phase s"
    and same: "fc_owed s' = fc_owed s" "fc_wire s' = fc_wire s" "fc_buf s' = fc_buf s" and clo: "fc_closed s \<Longrightarrow> fc_closed s'"
    and p: "\<not> fl_sent p" "fl_fchan p = None" "\<And>t c. p \<noteq> Registered t c" "\<And>a. p = Returned (Got a) \<Longrightarrow> a = ReplyTo i"
    and due: "fc_closed s' \<or> fl_due p = fl_due (fc_phase s i) \<or> fl_frames (fc_phase s i) = 0 \<or> \<not> fl_owes s i"
  shows "match_inv (fl_goto i p s')"
  by (rule match_goto [OF inv(1,2), where i = i and p = p])
    (use assms(4-12) due unsent_owes [OF inv(3), of i] owes_out [of "fl_goto i p s'" s] in auto)

lemma match_flush_return:
  assumes "match_inv s" "table_inv s" "books_inv n s" "fc_phase s' = fc_phase s"
    "fc_owed s' = fc_owed s" "fc_wire s' = fc_wire s" "fc_buf s' = fc_buf s" "fc_closed s \<Longrightarrow> fc_closed s'"
    "\<And>a. r \<noteq> Got a" "fc_closed s' \<or> \<not> fl_owes s i"
  shows "match_inv (fl_flush_return i t r s')"
  unfolding fl_flush_return_def using assms by (intro match_leave [OF assms(1-3)]) auto

lemma match_step:
  assumes "fl_step s s'" "match_inv s" "table_inv s" "tags_inv n s" "books_inv n s" "n \<le> maxMaxInflight"
    "distinct (map fst (fc_cancels s))"
  shows "match_inv s'"
  using assms
proof (induction rule: fl_step.induct)
  case (fl_register s i tag)
  show ?case
    by (rule match_goto [OF fl_register.prems(1,2), where i = i and p = "Registered tag (fc_fresh s)"])
      (use fl_register in \<open>auto simp: fl_out_def\<close>)
next
  case (fl_cancel s i tag c)
  show ?case
    by (rule match_goto [OF fl_cancel.prems(1,2), where i = i and p = "FlushRegistered tag c (fc_fresh s)"])
      (use fl_cancel in \<open>auto simp: fl_out_def\<close>)
next
  case (fl_send s i tag c)
  show ?case by (rule match_sent [OF fl_send.prems(1-4) fl_send.hyps]) simp_all
next
  case (fl_flush_send s i tag c f)
  show ?case
    by (rule match_goto [OF fl_flush_send.prems(1,2), where i = i and p = "Flushing tag c f"])
      (use fl_flush_send in \<open>auto simp: fl_out_def\<close>)
next
  case (fl_receive s i tag c a)
  show ?case
    by (rule match_leave [OF fl_receive.prems(1,2,4)])
      (use fl_receive.hyps match_invD(3,4) [OF fl_receive.prems(1), of i c a] in auto)
next
  case (fl_receive_closed s i tag c)
  show ?case
    by (rule match_leave [OF fl_receive_closed.prems(1,2,4)])
      (use fl_receive_closed.hyps books_invD(8) [OF fl_receive_closed.prems(4), of c] in auto)
next
  case (fl_flush_orig s i tag c f a)
  show ?case
    by (rule match_flush_return [OF fl_flush_orig.prems(1,2,4)])
      (use fl_flush_orig.hyps match_invD(4) [OF fl_flush_orig.prems(1), of i c a] in auto)
next
  case (fl_flush_ack s i tag c f a)
  show ?case
    by (rule match_flush_return [OF fl_flush_ack.prems(1,2,4)])
      (use fl_flush_ack.hyps match_invD(7) [OF fl_flush_ack.prems(1), of i f a] in auto)
next
  case (fl_flush_chan_closed s i tag c f)
  show ?case
    by (rule match_flush_return [OF fl_flush_chan_closed.prems(1,2,4)])
      (use fl_flush_chan_closed.hyps books_invD(8) [OF fl_flush_chan_closed.prems(4)] in auto)
next
  case (fl_close s)
  show ?case
    by (rule match_goto [OF fl_close.prems(1,2), where i = 0 and p = "fc_phase s 0"])
      (use match_invD(8) [OF fl_close.prems(1), of 0] in \<open>auto simp: fl_out_def\<close>)
next
  case (fl_sweep s)
  show ?case
    by (rule match_goto [OF fl_sweep.prems(1,2), where i = 0 and p = "fc_phase s 0"])
      (use match_invD(8) [OF fl_sweep.prems(1), of 0] in \<open>auto simp: fl_out_def\<close>)
next
  case (fl_answer s xs tag i ys)
  show ?case
    by (rule match_goto [OF fl_answer.prems(1,2), where i = 0 and p = "fc_phase s 0"])
      (use fl_answer.hyps match_invD(8) [OF fl_answer.prems(1), of 0] in \<open>auto simp: fl_out_def\<close>)
next
  case (fl_answer_flush s xs tag i ys)
  show ?case
    by (rule match_goto [OF fl_answer_flush.prems(1,2), where i = 0 and p = "fc_phase s 0"])
      (use fl_answer_flush.hyps match_invD(8) [OF fl_answer_flush.prems(1), of 0] in \<open>auto simp: fl_out_def\<close>)
next
  case (fl_delivered s tag a w)
  show ?case by (rule match_delivered [OF fl_delivered.prems fl_delivered.hyps])
qed ((erule (2) match_flush_return | erule (2) match_leave); simp split: if_splits)+

section \<open>Runs\<close>

definition fl_inv :: "nat \<Rightarrow> flushConn \<Rightarrow> bool" where
  "fl_inv n s \<longleftrightarrow> tags_inv n s \<and> table_inv s \<and> books_inv n s \<and> (distinct (map fst (fc_cancels s)) \<longrightarrow> match_inv s)"

lemma step_cancels: "fl_step s s' \<Longrightarrow> distinct (map fst (fc_cancels s')) \<Longrightarrow> distinct (map fst (fc_cancels s))"
  by (induction rule: fl_step.induct) (simp_all add: fl_flush_return_def)

lemma start_inv:
  assumes "n \<le> maxMaxInflight"
  shows "fl_inv n (fl_start n)"
proof -
  have "tags_inv n (fl_start n)"
    using assms tag_inj [OF assms]
    by (auto simp: tags_inv_def fl_start_def tag_ok_def newTagAllocator_def distinct_map tag_range_def atLeastLessThanSuc_atLeastAtMost
        simp del: upt_Suc)
  then show ?thesis
    by (simp add: fl_inv_def table_inv_def books_inv_def match_inv_def fl_out_def fl_start_def)
qed

lemma fl_run_inv:
  assumes "fl_step\<^sup>*\<^sup>* (fl_start n) s" "n \<le> maxMaxInflight"
  shows "fl_inv n s"
  using assms(1)
proof (induction rule: rtranclp_induct)
  case base
  show ?case by (rule start_inv [OF assms(2)])
next
  case (step s s')
  then show ?case
    unfolding fl_inv_def using step_tags step_table books_step match_step [OF _ _ _ _ _ assms(2)] step_cancels by blast
qed

text \<open>Runs are written as lists of rules.\<close>

definition fl_can :: "flushConn \<Rightarrow> (flushConn \<Rightarrow> bool) \<Rightarrow> bool" where
  "fl_can s P \<longleftrightarrow> (\<exists>s'. fl_step\<^sup>*\<^sup>* s s' \<and> P s')"

lemma can_step: "fl_step s s' \<Longrightarrow> fl_can s' P \<Longrightarrow> fl_can s P"
  unfolding fl_can_def by (meson converse_rtranclp_into_rtranclp)

lemma can_stop: "P s \<Longrightarrow> fl_can s P"
  unfolding fl_can_def by blast

lemma mirror_one: "flushTagFor 1 = 0x8001"
  by (simp add: flushTagFor_def flushTagBit_def)

lemma few_tags:
  "newTagAllocator (Suc 0) = \<lparr>ta_free = [1], ta_cap = Suc 0\<rparr>" "newTagAllocator 2 = \<lparr>ta_free = [1, 2], ta_cap = 2\<rparr>"
  by (simp_all add: newTagAllocator_def numeral_2_eq_2 upt_rec)

lemmas fl_eval = fl_defs fl_start_def few_tags tag_acquire_def tag_release_def mirror_one

text \<open>Two calls. The first is cancelled, the second is answered while the first flushes.\<close>

lemma can_two:
  "fl_can (fl_start 2) (\<lambda>s. fc_cancels s = [(1, 0)]
     \<and> fc_phase s = (\<lambda>_. Fresh)(0 := Returned FailedFlushed, 1 := Returned (Got (ReplyTo 1))))"
  apply (rule can_step, rule fl_begin [where i = 0], simp add: fl_eval, simp add: fl_eval)
  apply (rule can_step, rule fl_acquire [where i = 0], simp, simp add: fl_eval, simp add: fl_eval)
  apply (rule can_step, rule fl_register [where i = 0], simp, simp add: fl_eval)
  apply (rule can_step, rule fl_begin [where i = 1], simp, simp add: fl_eval)
  apply (rule can_step, rule fl_acquire [where i = 1], simp, simp add: fl_eval, simp add: fl_eval)
  apply (rule can_step, rule fl_register [where i = 1], simp, simp add: fl_eval)
  apply (rule can_step, rule fl_send [where i = 0], simp, simp, simp add: fl_eval)
  apply (rule can_step, rule fl_send [where i = 1], simp, simp, simp add: fl_eval)
  apply (rule can_step, rule fl_cancel [where i = 0], simp, simp add: fl_eval)
  apply (rule can_step, rule fl_flush_send [where i = 0], simp, simp, simp add: fl_eval)
  apply (rule can_step, rule fl_answer [where xs = "[(1, ReplyTo 0)]"], simp, simp)
  apply (rule can_step, rule fl_answer_flush [where xs = "[(1, ReplyTo 0)]"], simp, simp)
  apply (rule can_step, rule fl_delivered, simp, simp add: fl_eval)
  apply (rule can_step, rule fl_delivered, simp, simp add: fl_eval)
  apply (rule can_step, rule fl_receive [where i = 1], simp, simp, simp add: fl_eval)
  apply (rule can_step, rule fl_flush_ack [where i = 0], simp, simp, simp add: fl_eval)
  apply (rule can_stop, simp add: fun_upd_twist)
  done

text \<open>A tag that is cancelled twice. The reply of call 0 arrives before the answer of its flush, call 1 takes
  the tag and is cancelled too, and the answer of the first flush is taken for that of the second.\<close>

lemma can_alias:
  "fl_can (fl_start 1) (\<lambda>s. \<not> fc_closed s \<and> fc_phase s 2 = Returned (Got (ReplyTo 1)))"
  apply (rule can_step, rule fl_begin [where i = 0], simp add: fl_eval, simp add: fl_eval)
  apply (rule can_step, rule fl_acquire [where i = 0], simp, simp add: fl_eval, simp add: fl_eval)
  apply (rule can_step, rule fl_register [where i = 0], simp, simp add: fl_eval)
  apply (rule can_step, rule fl_send [where i = 0], simp, simp, simp add: fl_eval)
  apply (rule can_step, rule fl_cancel [where i = 0], simp, simp add: fl_eval)
  apply (rule can_step, rule fl_flush_send [where i = 0], simp, simp, simp add: fl_eval)
  apply (rule can_step, rule fl_answer [where xs = "[]"], simp, simp)
  apply (rule can_step, rule fl_delivered, simp, simp add: fl_eval)
  apply (rule can_step, rule fl_flush_orig [where i = 0], simp, simp, simp add: fl_eval)
  apply (rule can_step, rule fl_begin [where i = 1], simp, simp add: fl_eval)
  apply (rule can_step, rule fl_acquire [where i = 1], simp, simp add: fl_eval, simp add: fl_eval)
  apply (rule can_step, rule fl_register [where i = 1], simp, simp add: fl_eval)
  apply (rule can_step, rule fl_send [where i = 1], simp, simp, simp add: fl_eval)
  apply (rule can_step, rule fl_cancel [where i = 1], simp, simp add: fl_eval)
  apply (rule can_step, rule fl_flush_send [where i = 1], simp, simp, simp add: fl_eval)
  apply (rule can_step, rule fl_answer_flush [where xs = "[]"], simp, simp)
  apply (rule can_step, rule fl_delivered, simp, simp add: fl_eval)
  apply (rule can_step, rule fl_flush_ack [where i = 1], simp, simp, simp add: fl_eval)
  apply (rule can_step, rule fl_begin [where i = 2], simp, simp add: fl_eval)
  apply (rule can_step, rule fl_acquire [where i = 2], simp, simp add: fl_eval, simp add: fl_eval)
  apply (rule can_step, rule fl_register [where i = 2], simp, simp add: fl_eval)
  apply (rule can_step, rule fl_send [where i = 2], simp, simp, simp add: fl_eval)
  apply (rule can_step, rule fl_answer [where xs = "[]"], simp, simp)
  apply (rule can_step, rule fl_delivered, simp, simp add: fl_eval)
  apply (rule can_step, rule fl_receive [where i = 2], simp, simp, simp add: fl_eval)
  apply (rule can_stop, simp)
  done

section \<open>Properties\<close>

text \<open>C5. Own responses. Whatever the order in which any number of calls of one client proceed, are
  cancelled or fail, and in which the server answers, a call that returns a response returns the response
  to its own request, provided that no tag has been cancelled twice.\<close>

theorem own_response:
  assumes "n \<le> maxMaxInflight" "fl_step\<^sup>*\<^sup>* (fl_start n) s" "distinct (map fst (fc_cancels s))"
    and "fc_phase s i = Returned (Got a)"
  shows "a = ReplyTo i"
  using fl_run_inv [OF assms(2,1)] assms(3,4) match_invD(8) by (auto simp: fl_inv_def)

theorem own_response_witness:
  "\<exists>s a. fl_step\<^sup>*\<^sup>* (fl_start 2) s \<and> fc_cancels s = [(1, 0)] \<and> fc_phase s 1 = Returned (Got a) \<and> a = ReplyTo 1"
proof -
  obtain s a where s: "fl_step\<^sup>*\<^sup>* (fl_start 2) s" "fc_cancels s = [(1, 0)]" "fc_phase s 1 = Returned (Got a)"
    using can_two by (auto simp: fl_can_def)
  have "a = ReplyTo 1" by (rule own_response [OF _ s(1) _ s(3)]) (simp_all add: s(2) maxMaxInflight_def)
  with s show ?thesis by blast
qed

text \<open>C37. A response to another request. With one tag that is cancelled twice, a third call returns the
  response to the second call's request: after the reply of a cancelled request the tag is released while
  the answer of its flush is still to come.\<close>

theorem flush_alias:
  "\<exists>s. fl_step\<^sup>*\<^sup>* (fl_start 1) s \<and> \<not> fc_closed s \<and> fc_phase s 2 = Returned (Got (ReplyTo 1))"
  using can_alias by (simp add: fl_can_def)



end
