(* ===== verification/Spec2Isabelle.thy ===== *)
theory Spec2Isabelle
  imports Frame Dirents Inflight Errno FidTable GoPath Conn ClientSession ClientFlush
begin

text \<open>
  Verification of \<^verbatim>\<open>ninep\<close>, a Go library with a client and a server of the file
  protocol 9P in its dialects 9P2000.L and 9P2000.u.

  \<^bold>\<open>The program.\<close> A client (\<^verbatim>\<open>src/client\<close>) turns calls on paths and open files into request
  messages, each under a tag, and waits for the response of that tag. A server
  (\<^verbatim>\<open>src/server\<close>) reads requests, looks up the fids they name, calls the exported file
  system, and answers. Both use the codec of \<^verbatim>\<open>src/proto\<close>. A fid is a number the client
  chooses and the server binds to a node of the file system; tags and fids are
  reused, and most of what can go wrong is about when. The development models the
  codec, the server from the bytes of a connection down to the in-memory file
  system, and the client from the calls of its interface down to the bytes, and
  puts the two together.

  \<^bold>\<open>Codec.\<close> A reader is a function on the bytes still to be read, a writer the bytes it appends or
  its error.
  \<^item> \<^verbatim>\<open>Prelude\<close>, \<^verbatim>\<open>Wire\<close>: machine integers, readers and writers, the locale \<^verbatim>\<open>codec\<close> (decoding accepts
    exactly what encoding produces), and the \<^verbatim>\<open>Read*\<close> and \<^verbatim>\<open>Write*\<close> helpers of \<^verbatim>\<open>proto/encode.go\<close> and
    \<^verbatim>\<open>proto/decode.go\<close>.
  \<^item> \<^verbatim>\<open>BaseMessages\<close>, \<^verbatim>\<open>LMessages\<close>, \<^verbatim>\<open>UMessages\<close>: every message of \<^verbatim>\<open>proto/messages.go\<close>,
    \<^verbatim>\<open>proto/p9l/messages.go\<close>, \<^verbatim>\<open>proto/p9u/messages.go\<close>, one constructor per struct and one definition per
    \<^verbatim>\<open>EncodeTo\<close> and \<^verbatim>\<open>DecodeFrom\<close>; each satisfies \<^verbatim>\<open>codec\<close>.
  \<^item> \<^verbatim>\<open>Frame\<close>: \<^verbatim>\<open>EncodeFrame\<close>, \<^verbatim>\<open>DecodeFrame\<close> and the two dialects; the locale \<^verbatim>\<open>dialect\<close> lifts the codec of
    messages to frames. Frames and streams round-trip, nothing else decodes.
  \<^item> \<^verbatim>\<open>Dirents\<close>: the packed entries of \<^verbatim>\<open>proto/dirent.go\<close> and their parser.
  \<^item> \<^verbatim>\<open>Errno\<close>, \<^verbatim>\<open>GoPath\<close>: error numbers and their texts (\<^verbatim>\<open>proto/errno.go\<close>); \<^verbatim>\<open>path.Clean\<close>, \<^verbatim>\<open>splitPath\<close> and the
    name checks of both sides.

  \<^bold>\<open>Server.\<close> A handler is a computation of the state monad over the record \<^verbatim>\<open>srv\<close>: the fid table with its
  store of fid states, the heap of inodes, and the world of the file system. The
  file system is the record \<^verbatim>\<open>vfs\<close> of optional capabilities, one per interface of
  \<^verbatim>\<open>server/node.go\<close> and \<^verbatim>\<open>server/filehandle.go\<close>; what the proofs need of it is the locale
  \<^verbatim>\<open>vfs_contract\<close>: its calls keep the invariant at hand. A call into the file system
  may therefore stand for other requests that run meanwhile.
  \<^item> \<^verbatim>\<open>Inflight\<close>: the request table of \<^verbatim>\<open>server/flush.go\<close> and the step relation of request
    goroutines, flush waiters, drains and shutdown around it; closing a closed channel
    is a panic. No panic, no flush answered early, every waiter released.
  \<^item> \<^verbatim>\<open>FidTable\<close>, \<^verbatim>\<open>InodeTree\<close>: \<^verbatim>\<open>server/fid.go\<close> with the hand-over of a clunked fid to its last I/O call,
    and \<^verbatim>\<open>server/inode.go\<close>.
  \<^item> \<^verbatim>\<open>Effects\<close>: the rules \<^verbatim>\<open>valid\<close>, \<^verbatim>\<open>keeps\<close> and \<^verbatim>\<open>yields\<close> for the state monad, one per statement form.
  \<^item> \<^verbatim>\<open>ServerState\<close>, \<^verbatim>\<open>Dispatch\<close>, \<^verbatim>\<open>Bridge\<close>, \<^verbatim>\<open>Server\<close>: the shared transactions, the handlers of
    \<^verbatim>\<open>server/dispatch.go\<close> and \<^verbatim>\<open>server/bridge.go\<close>, and the router.
  \<^item> \<^verbatim>\<open>ServerReplies\<close>, \<^verbatim>\<open>ServerInv\<close>, \<^verbatim>\<open>ServerRefs\<close>, \<^verbatim>\<open>ServerProps\<close>: the shape of the answers; invariants of every
    request from the contract (locales \<^verbatim>\<open>neutral_invariant\<close>, \<^verbatim>\<open>server_invariant\<close>); exact reference counts
    (\<^verbatim>\<open>refs_vfs\<close>) and the fid limit (\<^verbatim>\<open>limit_vfs\<close>); what each request does to the fid table
    (\<^verbatim>\<open>fids_watch\<close>).
  \<^item> \<^verbatim>\<open>MemFS\<close>: \<^verbatim>\<open>server/memfs\<close>, an instance of all these contracts.
  \<^item> \<^verbatim>\<open>Conn\<close>, \<^verbatim>\<open>ConnServe\<close>: \<^verbatim>\<open>server/conn.go\<close> and \<^verbatim>\<open>server/cleanup.go\<close>, bytes to bytes: negotiation, frames,
    responses, renegotiation, the loop and the cleanup. One response per request, under
    its tag, within the message size; and whatever arrives, nothing stays bound.

  \<^bold>\<open>Client.\<close> An operation is a computation over the record \<^verbatim>\<open>client\<close> with an error as a value (\<^verbatim>\<open>try_bind\<close>). The
  peer and the network are a parameter of type \<^verbatim>\<open>link\<close>.
  \<^item> \<^verbatim>\<open>ClientIds\<close>: the allocators of \<^verbatim>\<open>client/tags.go\<close> and \<^verbatim>\<open>client/fidalloc.go\<close>, instances of the locale \<^verbatim>\<open>id_pool\<close>.
  \<^item> \<^verbatim>\<open>ClientConn\<close>: handshake, framing, read loop, request table and one exchange (\<^verbatim>\<open>dial.go\<close>, \<^verbatim>\<open>write.go\<close>,
    \<^verbatim>\<open>read_loop.go\<close>, \<^verbatim>\<open>inflight.go\<close>, \<^verbatim>\<open>ops.go\<close>).
  \<^item> \<^verbatim>\<open>ClientFlush\<close>: any number of calls at once, their cancellation (\<^verbatim>\<open>ops.go\<close>, \<^verbatim>\<open>flush.go\<close>) and the shutdown
    signal, as a step relation. A call returns the response to its own request as
    long as no tag is cancelled twice, and not always otherwise; no tag is lost.
  \<^item> \<^verbatim>\<open>ClientOps\<close>, \<^verbatim>\<open>ClientFile\<close>: every wire operation, every operation on paths and every method of an open
    file.
  \<^item> \<^verbatim>\<open>ClientLoops\<close>: the chunk loops return; over a file that answers as the locale \<^verbatim>\<open>remote_file\<close> says
    they read and write whole ranges.

  \<^bold>\<open>Client and server together.\<close>
  \<^item> \<^verbatim>\<open>ClientStack\<close>: the peer of a client is a connection of the server. A call returns what the handler
    replied; what \<^verbatim>\<open>WriteAt\<close> writes, \<^verbatim>\<open>ReadAt\<close> reads back from the file system, over any
    number of chunks.
  \<^item> \<^verbatim>\<open>ClientDial\<close>: when the handshake succeeds and what both ends then agree on.
  \<^item> \<^verbatim>\<open>ClientFids\<close>, \<^verbatim>\<open>ClientSession\<close>: the locale \<^verbatim>\<open>fid_link\<close> is what a client relies on of its peer about fids; the
    server satisfies it; so over any sequence of calls (the relation \<^verbatim>\<open>api_step\<close>) the
    server has bound exactly the fids of the open files.

  \<^bold>\<open>Bounds.\<close> Integers keep their width; sizes and counts wrap as in Go. Loops are total functions with a
  measure, except \<^verbatim>\<open>write_loop\<close>, which is \<^verbatim>\<open>partial_function\<close> and is proved to return.
  The number of polls in \<^verbatim>\<open>lock_poll\<close> is the number of waits before the caller's context
  ends. No other fuel is used.

  \<^bold>\<open>Schedules.\<close> Interleavings are modelled in \<^verbatim>\<open>Inflight\<close>, in the clunk protocol of \<^verbatim>\<open>FidTable\<close> and in \<^verbatim>\<open>ClientFlush\<close>, as
  step relations, and by the contract of the file system's calls. \<^verbatim>\<open>Conn\<close> is the loop
  with one worker, \<^verbatim>\<open>ClientConn\<close> and what is built on it the client with one call at a
  time.

  \<^bold>\<open>Not modelled.\<close> The wait of the client's \<^verbatim>\<open>Close\<close> for its goroutines (\<^verbatim>\<open>client/close.go\<close>) and
  reconnection (\<^verbatim>\<open>client/session_manager.go\<close>), which are about time. The spawning of workers, deadlines and the listener
  (\<^verbatim>\<open>server/server.go\<close>). Pools of buffers and messages, whose values have no identity
  here. Telemetry, logging and middleware, which the handlers do not read. The
  passthrough file system and vsock, which are system calls. The errno tables of
  systems other than Linux. Test harnesses.
\<close>

end
